theory Spec2Isabelle
  imports Main "HOL-Library.Word"
begin

unbundle bit_operations_syntax

section \<open>The DesignWare HDMI QP transmitter: data model\<close>

text \<open>
  A shallow embedding of \<^verbatim>\<open>drivers/gpu/drm/bridge/synopsys/dw-hdmi-qp.c\<close>.
  C integers are words of their width; \<^verbatim>\<open>u8\<close> operands of a shift are first
  promoted (\<open>ucast\<close>) to 32 bits, as C does.
\<close>

type_synonym u8 = "8 word"
type_synonym u16 = "16 word"
type_synonym u32 = "32 word"
type_synonym u64 = "64 word"

text \<open>
  The negative return codes of the driver, \<open>OutOfBounds\<close> for an access behind the
  end of a buffer and \<open>NullDeref\<close> for a read through a null pointer (both undefined in
  C; the model stops there).
\<close>

datatype error = EAGAIN | EIO | EOPNOTSUPP | EINVAL | OutOfBounds | NullDeref

text \<open>
  The register offsets and bit masks come from \<^verbatim>\<open>dw-hdmi-qp.h\<close>, and a few
  constants from kernel headers (\<^verbatim>\<open>DDC_ADDR\<close>, \<^verbatim>\<open>I2C_M_RD\<close>, the number
  \<^verbatim>\<open>HZ\<close> of jiffies in a second, the infoframe sizes, the SCDC offsets). None of
  these headers is among the sources, so every function of the model takes the macros as
  a parameter: \<open>i2cm_h\<close> for the I2C master and the interrupt unit, \<open>pkt_h\<close> for the
  packet scheduler and the link.
\<close>

record i2cm_h =
  I2CM_CONTROL0 :: u32
  I2CM_INTERFACE_CONTROL0 :: u32
  I2CM_ADDR :: u32
  I2CM_SLVADDR :: u32
  I2CM_WR_MASK :: u32
  I2CM_EXT_READ :: u32
  I2CM_FM_READ :: u32
  I2CM_FM_WRITE :: u32
  I2CM_INTERFACE_CONTROL1 :: u32
  I2CM_SEG_ADDR :: u32
  I2CM_SEG_PTR :: u32
  I2CM_INTERFACE_WRDATA_0_3 :: u32
  I2CM_INTERFACE_RDDATA_0_3 :: u32
  MAINUNIT_1_INT_STATUS :: u32
  MAINUNIT_1_INT_MASK_N :: u32
  MAINUNIT_1_INT_CLEAR :: u32
  I2CM_NACK_RCVD_MASK_N :: u32
  I2CM_OP_DONE_MASK_N :: u32
  I2CM_OP_DONE_IRQ :: u32
  I2CM_READ_REQUEST_IRQ :: u32
  I2CM_NACK_RCVD_IRQ :: u32
  DDC_ADDR :: u8
  I2C_M_RD :: u16
  HZ :: nat

record pkt_h =
  HDMI_INFOFRAME_SIZE_AVI :: nat
  HDMI_INFOFRAME_SIZE_DRM :: nat
  PKT_AVI_CONTENTS0 :: u32
  PKT_AVI_CONTENTS1 :: u32
  PKT_DRMI_CONTENTS0 :: u32
  PKT_DRMI_CONTENTS1 :: u32
  PKTSCHED_PKT_CONFIG1 :: u32
  PKTSCHED_PKT_EN :: u32
  PKTSCHED_AVI_FIELDRATE :: u32
  PKTSCHED_DRMI_FIELDRATE :: u32
  PKTSCHED_AVI_TX_EN :: u32
  PKTSCHED_GCP_TX_EN :: u32
  PKTSCHED_DRMI_TX_EN :: u32
  SCRAMB_CONFIG0 :: u32
  HDCP2LOGIC_CONFIG0 :: u32
  HDCP2_BYPASS :: u32
  LINK_CONFIG0 :: u32
  OPMODE_DVI :: u32
  SCDC_SINK_VERSION :: u8
  SCDC_SOURCE_VERSION :: u8

text \<open>The constants the source file defines itself.\<close>

definition DDC_CI_ADDR :: u8 where "DDC_CI_ADDR = 0x37"
definition DDC_SEGMENT_ADDR :: u8 where "DDC_SEGMENT_ADDR = 0x30"
definition SCDC_MIN_SOURCE_VERSION :: u8 where "SCDC_MIN_SOURCE_VERSION = 0x1"
definition HDMI14_MAX_TMDSCLK :: u64 where "HDMI14_MAX_TMDSCLK = 340000000"
definition HDMI20_MAX_TMDSRATE :: u64 where "HDMI20_MAX_TMDSRATE = 600000000"
definition SCRAMB_POLL_DELAY_MS :: nat where "SCRAMB_POLL_DELAY_MS = 3000"

text \<open>
  What \<^verbatim>\<open>wait_for_completion_timeout\<close> can report for one byte operation: no
  completion within the timeout, or a completion, with the status the interrupt handler
  latched in \<^verbatim>\<open>i2c->stat\<close> and the word the hardware then presents in the read
  data register.
\<close>

datatype wait_result = TimedOut | Completed u8 u32

text \<open>
  The driver's calls into its collaborators, in program order: the register map, the
  completion, the SCDC helpers, the work queue, the PHY and the infoframe helper.
  \<open>RegWrite offset val\<close> is \<^verbatim>\<open>regmap_write\<close>, \<open>RegMod reg mask data\<close> is
  \<^verbatim>\<open>regmap_update_bits\<close>, and \<open>Wait timeout result\<close> is
  \<^verbatim>\<open>wait_for_completion_timeout\<close> with its timeout in jiffies and what it reported.
\<close>

datatype event =
    RegWrite u32 u32
  | RegMod u32 u32 u32
  | Wait nat wait_result
  | ScdcReadb u8
  | ScdcWriteb u8 u8
  | ScdcSetHighTmdsClockRatio bool
  | ScdcSetScrambling bool
  | ScheduleDelayedWork nat
  | CancelDelayedWorkSync
  | PhyInit
  | PhyDisable
  | UpdateInfoframes

datatype drm_connector_status = connector_status_connected
  | connector_status_disconnected | connector_status_unknown

text \<open>
  The fields of \<^verbatim>\<open>struct drm_connector\<close> the driver reads: its status and, from
  \<^verbatim>\<open>display_info\<close>, the three capability flags.
\<close>

record drm_connector =
  status :: drm_connector_status
  is_hdmi :: bool
  scdc_supported :: bool
  scdc_scrambling_supported :: bool

text \<open>
  \<^verbatim>\<open>struct dw_hdmi_qp_i2c\<close>. The completion \<^verbatim>\<open>cmp\<close> is its counter
  \<^verbatim>\<open>done\<close>; the mutex serialises whole transfers and has no state in a sequential
  model.
\<close>

record dw_hdmi_qp_i2c =
  cmp_done :: nat
  stat :: u8
  slave_reg :: u8
  is_regaddr :: bool
  is_segment :: bool

text \<open>
  \<^verbatim>\<open>struct dw_hdmi_qp\<close>, together with the world it acts on: \<open>regm\<close> is the
  register file behind the regmap, \<open>scramb_work_pending\<close> says whether the delayed work
  is queued, \<open>trace\<close> logs the calls made so far and \<open>env\<close> lists the outcomes of
  the waits still to come (when it is exhausted, no further interrupt arrives).
  \<open>sink_version\<close> is the byte \<^verbatim>\<open>drm_scdc_readb\<close> leaves in \<^verbatim>\<open>ver\<close>, and
  \<open>sink_scrambling\<close> the answer of \<^verbatim>\<open>drm_scdc_get_scrambling_status\<close>.
\<close>

record dw_hdmi_qp =
  i2c :: dw_hdmi_qp_i2c
  connector :: "drm_connector option"
  scramb_work_pending :: bool
  scramb_enabled :: bool
  regm :: "u32 \<Rightarrow> u32"
  trace :: "event list"
  env :: "wait_result list"
  sink_version :: u8
  sink_scrambling :: bool

text \<open>
  \<^verbatim>\<open>struct i2c_msg\<close>: the pointer \<^verbatim>\<open>buf\<close> and the count \<^verbatim>\<open>len\<close> are one
  list of bytes.
\<close>

record i2c_msg =
  addr :: u16
  flags :: u16
  buf :: "u8 list"

definition len :: "i2c_msg \<Rightarrow> nat" where
  "len m = length (buf m)"

section \<open>Register access layer\<close>

text \<open>
  Modelled from the spec: the regmap behind \<^verbatim>\<open>regmap_write\<close>, \<^verbatim>\<open>regmap_read\<close>
  and \<^verbatim>\<open>regmap_update_bits\<close> is kernel code outside the sources. It is taken as the
  spec describes it, a read and modify-write layer over a space of 32-bit registers: a
  write stores the value, a read returns the stored value, and an update replaces the
  bits under the mask. The three driver functions below are the source's; each call is
  logged.
\<close>

definition dw_hdmi_qp_write :: "u32 \<Rightarrow> u32 \<Rightarrow> dw_hdmi_qp \<Rightarrow> dw_hdmi_qp" where
  "dw_hdmi_qp_write val offset s =
     s\<lparr>regm := (regm s)(offset := val), trace := trace s @ [RegWrite offset val]\<rparr>"

definition dw_hdmi_qp_read :: "u32 \<Rightarrow> dw_hdmi_qp \<Rightarrow> u32" where
  "dw_hdmi_qp_read offset s = regm s offset"

definition dw_hdmi_qp_mod :: "u32 \<Rightarrow> u32 \<Rightarrow> u32 \<Rightarrow> dw_hdmi_qp \<Rightarrow> dw_hdmi_qp" where
  "dw_hdmi_qp_mod data msk reg s =
     s\<lparr>regm := (regm s)(reg := (regm s reg AND NOT msk) OR (data AND msk)),
       trace := trace s @ [RegMod reg msk data]\<rparr>"

section \<open>I2C over DDC\<close>

text \<open>
  Modelled from the spec: the completion (\<^verbatim>\<open>reinit_completion\<close>,
  \<^verbatim>\<open>wait_for_completion_timeout\<close>, \<^verbatim>\<open>complete\<close>) is kernel code outside the
  sources. It is the single-slot signal of the spec: re-armed before each byte operation,
  signalled by the interrupt handler, and waited for with a bound.
\<close>

definition reinit_completion :: "dw_hdmi_qp \<Rightarrow> dw_hdmi_qp" where
  "reinit_completion s = s\<lparr>i2c := (i2c s)\<lparr>cmp_done := 0\<rparr>\<rparr>"

text \<open>
  Modelled from the spec: waiting blocks until the signal or the timeout, which the caller
  gives in jiffies. Here it consumes the next outcome of the environment. A completion
  means that the interrupt handler has stored the status and signalled, and that the wait
  has taken the signal: the counter is 0 again.
\<close>

definition wait_for_completion_timeout :: "i2cm_h \<Rightarrow> nat \<Rightarrow> dw_hdmi_qp \<Rightarrow> bool \<times> dw_hdmi_qp" where
  "wait_for_completion_timeout K timeout s =
     (case env s of
        [] \<Rightarrow> (False, s\<lparr>trace := trace s @ [Wait timeout TimedOut]\<rparr>)
      | TimedOut # es \<Rightarrow> (False, s\<lparr>trace := trace s @ [Wait timeout TimedOut], env := es\<rparr>)
      | Completed st d # es \<Rightarrow>
          (True, s\<lparr>i2c := (i2c s)\<lparr>stat := st\<rparr>,
                   regm := (regm s)(I2CM_INTERFACE_RDDATA_0_3 K := d),
                   trace := trace s @ [Wait timeout (Completed st d)], env := es\<rparr>))"

text \<open>
  The loop of \<^verbatim>\<open>dw_hdmi_qp_i2c_read\<close>, with \<open>n\<close> bytes to go; it returns the bytes
  it stored through \<^verbatim>\<open>buf\<close>.
\<close>

fun i2c_read_loop :: "i2cm_h \<Rightarrow> nat \<Rightarrow> dw_hdmi_qp \<Rightarrow> (error + unit) \<times> u8 list \<times> dw_hdmi_qp" where
  "i2c_read_loop K 0 s = (Inr (), [], s)"
| "i2c_read_loop K (Suc n) s =
     (let s1 = reinit_completion s;
          r = slave_reg (i2c s1);
          s2 = dw_hdmi_qp_mod (push_bit 12 (ucast r)) (I2CM_ADDR K) (I2CM_INTERFACE_CONTROL0 K)
                 (s1\<lparr>i2c := (i2c s1)\<lparr>slave_reg := r + 1\<rparr>\<rparr>);
          s3 = (if is_segment (i2c s2)
                then dw_hdmi_qp_mod (I2CM_EXT_READ K) (I2CM_WR_MASK K) (I2CM_INTERFACE_CONTROL0 K) s2
                else dw_hdmi_qp_mod (I2CM_FM_READ K) (I2CM_WR_MASK K) (I2CM_INTERFACE_CONTROL0 K) s2);
          (completed, s4) = wait_for_completion_timeout K (HZ K div 10) s3
      in if \<not> completed then (Inl EAGAIN, [], dw_hdmi_qp_write 0x01 (I2CM_CONTROL0 K) s4)
         else if ucast (stat (i2c s4)) AND I2CM_NACK_RCVD_IRQ K \<noteq> 0
         then (Inl EIO, [], dw_hdmi_qp_write 0x01 (I2CM_CONTROL0 K) s4)
         else
           let b = (ucast (dw_hdmi_qp_read (I2CM_INTERFACE_RDDATA_0_3 K) s4 AND 0xff) :: u8);
               s5 = dw_hdmi_qp_mod 0 (I2CM_WR_MASK K) (I2CM_INTERFACE_CONTROL0 K) s4;
               (ret, bs, s6) = i2c_read_loop K n s5
           in (ret, b # bs, s6))"

definition dw_hdmi_qp_i2c_read :: "i2cm_h \<Rightarrow> nat \<Rightarrow> dw_hdmi_qp \<Rightarrow> (error + unit) \<times> u8 list \<times> dw_hdmi_qp" where
  "dw_hdmi_qp_i2c_read K n s =
     (let s1 = (if \<not> is_regaddr (i2c s)
                then s\<lparr>i2c := (i2c s)\<lparr>slave_reg := 0x00, is_regaddr := True\<rparr>\<rparr> else s)
      in case i2c_read_loop K n s1 of
           (Inl e, bs, s2) \<Rightarrow> (Inl e, bs, s2)
         | (Inr u, bs, s2) \<Rightarrow> (Inr u, bs, s2\<lparr>i2c := (i2c s2)\<lparr>is_segment := False\<rparr>\<rparr>))"

text \<open>The loop of \<^verbatim>\<open>dw_hdmi_qp_i2c_write\<close> over the bytes still to send.\<close>

fun i2c_write_loop :: "i2cm_h \<Rightarrow> u8 list \<Rightarrow> dw_hdmi_qp \<Rightarrow> (error + unit) \<times> dw_hdmi_qp" where
  "i2c_write_loop K [] s = (Inr (), s)"
| "i2c_write_loop K (b # bs) s =
     (let s1 = reinit_completion s;
          s2 = dw_hdmi_qp_write (ucast b) (I2CM_INTERFACE_WRDATA_0_3 K) s1;
          r = slave_reg (i2c s2);
          s3 = dw_hdmi_qp_mod (push_bit 12 (ucast r)) (I2CM_ADDR K) (I2CM_INTERFACE_CONTROL0 K)
                 (s2\<lparr>i2c := (i2c s2)\<lparr>slave_reg := r + 1\<rparr>\<rparr>);
          s4 = dw_hdmi_qp_mod (I2CM_FM_WRITE K) (I2CM_WR_MASK K) (I2CM_INTERFACE_CONTROL0 K) s3;
          (completed, s5) = wait_for_completion_timeout K (HZ K div 10) s4
      in if \<not> completed then (Inl EAGAIN, dw_hdmi_qp_write 0x01 (I2CM_CONTROL0 K) s5)
         else if ucast (stat (i2c s5)) AND I2CM_NACK_RCVD_IRQ K \<noteq> 0
         then (Inl EIO, dw_hdmi_qp_write 0x01 (I2CM_CONTROL0 K) s5)
         else i2c_write_loop K bs
                (dw_hdmi_qp_mod 0 (I2CM_WR_MASK K) (I2CM_INTERFACE_CONTROL0 K) s5))"

text \<open>
  With no register address yet, the first byte is read from \<^verbatim>\<open>buf[0]\<close>; on an empty
  buffer that read is out of bounds (the transfer function never passes one).
\<close>

definition dw_hdmi_qp_i2c_write :: "i2cm_h \<Rightarrow> u8 list \<Rightarrow> dw_hdmi_qp \<Rightarrow> (error + unit) \<times> dw_hdmi_qp" where
  "dw_hdmi_qp_i2c_write K bytes s =
     (if \<not> is_regaddr (i2c s)
      then (case bytes of
              [] \<Rightarrow> (Inl OutOfBounds, s)
            | b # bs \<Rightarrow> i2c_write_loop K bs (s\<lparr>i2c := (i2c s)\<lparr>slave_reg := b, is_regaddr := True\<rparr>\<rparr>))
      else i2c_write_loop K bytes s)"

text \<open>
  The message loop of \<^verbatim>\<open>dw_hdmi_qp_i2c_xfer\<close>. A read message gets the bytes
  received in front of what its buffer held; the loop stops at the first failure.
\<close>

fun xfer_msgs :: "i2cm_h \<Rightarrow> i2c_msg list \<Rightarrow> dw_hdmi_qp \<Rightarrow> (error + unit) \<times> i2c_msg list \<times> dw_hdmi_qp" where
  "xfer_msgs K [] s = (Inr (), [], s)"
| "xfer_msgs K (m # ms) s =
     (if addr m = ucast DDC_SEGMENT_ADDR \<and> len m = 1 then
        (let s1 = s\<lparr>i2c := (i2c s)\<lparr>is_segment := True\<rparr>\<rparr>;
             s2 = dw_hdmi_qp_mod (ucast DDC_SEGMENT_ADDR) (I2CM_SEG_ADDR K)
                    (I2CM_INTERFACE_CONTROL1 K) s1;
             s3 = dw_hdmi_qp_mod (push_bit 7 (ucast (buf m ! 0))) (I2CM_SEG_PTR K)
                    (I2CM_INTERFACE_CONTROL1 K) s2;
             (ret, ms', s4) = xfer_msgs K ms s3
         in (ret, m # ms', s4))
      else if flags m AND I2C_M_RD K \<noteq> 0 then
        (case dw_hdmi_qp_i2c_read K (len m) s of
           (Inl e, bs, s1) \<Rightarrow> (Inl e, m\<lparr>buf := bs @ drop (length bs) (buf m)\<rparr> # ms, s1)
         | (Inr u, bs, s1) \<Rightarrow>
             (let (ret, ms', s2) = xfer_msgs K ms s1
              in (ret, m\<lparr>buf := bs @ drop (length bs) (buf m)\<rparr> # ms', s2)))
      else
        (case dw_hdmi_qp_i2c_write K (buf m) s of
           (Inl e, s1) \<Rightarrow> (Inl e, m # ms, s1)
         | (Inr u, s1) \<Rightarrow>
             (let (ret, ms', s2) = xfer_msgs K ms s1
              in (ret, m # ms', s2))))"

text \<open>
  \<^verbatim>\<open>dw_hdmi_qp_i2c_xfer\<close>: the result is the number of messages, or the error. An
  empty batch would read \<^verbatim>\<open>msgs[0]\<close> out of bounds (the I2C core passes at least one
  message).
\<close>

definition dw_hdmi_qp_i2c_xfer :: "i2cm_h \<Rightarrow> i2c_msg list \<Rightarrow> dw_hdmi_qp \<Rightarrow> (error + nat) \<times> i2c_msg list \<times> dw_hdmi_qp" where
  "dw_hdmi_qp_i2c_xfer K msgs s =
     (case msgs of
        [] \<Rightarrow> (Inl OutOfBounds, msgs, s)
      | m0 # _ \<Rightarrow>
          (let a = (ucast (addr m0) :: u8) in
           if a = DDC_CI_ADDR then (Inl EOPNOTSUPP, msgs, s)
           else if list_ex (\<lambda>m. len m = 0) msgs then (Inl EOPNOTSUPP, msgs, s)
           else
             (let s1 = dw_hdmi_qp_mod (I2CM_NACK_RCVD_MASK_N K OR I2CM_OP_DONE_MASK_N K)
                         (I2CM_NACK_RCVD_MASK_N K OR I2CM_OP_DONE_MASK_N K)
                         (MAINUNIT_1_INT_MASK_N K) s;
                  a1 = (if a = DDC_SEGMENT_ADDR \<and> len m0 = 1 then DDC_ADDR K else a);
                  s2 = dw_hdmi_qp_mod (push_bit 5 (ucast a1)) (I2CM_SLVADDR K)
                         (I2CM_INTERFACE_CONTROL0 K) s1;
                  s3 = s2\<lparr>i2c := (i2c s2)\<lparr>is_regaddr := False, is_segment := False\<rparr>\<rparr>;
                  (ret, msgs', s4) = xfer_msgs K msgs s3;
                  s5 = dw_hdmi_qp_mod 0 (I2CM_OP_DONE_MASK_N K OR I2CM_NACK_RCVD_MASK_N K)
                         (MAINUNIT_1_INT_MASK_N K) s4
              in ((case ret of Inl e \<Rightarrow> Inl e | Inr u \<Rightarrow> Inr (length msgs)), msgs', s5))))"

section \<open>Infoframes\<close>

definition buf_at :: "u8 list \<Rightarrow> nat \<Rightarrow> u8 option" where
  "buf_at buffer i = (if i < length buffer then Some (buffer ! i) else None)"

text \<open>
  The inner loop of \<^verbatim>\<open>dw_hdmi_qp_config_avi_infoframe\<close>: word \<open>i\<close> is built from
  the bytes at \<open>i * 4 + j + 3\<close>, \<open>j\<close> from 0 to 3, and the loop breaks at the 14th byte.
\<close>

function avi_pack :: "u8 list \<Rightarrow> nat \<Rightarrow> nat \<Rightarrow> u32 \<Rightarrow> error + u32" where
  "avi_pack buffer i j val =
     (if j < 4 then
        (if i * 4 + j \<ge> 14 then Inr val
         else case buf_at buffer (i * 4 + j + 3) of
                None \<Rightarrow> Inl OutOfBounds
              | Some b \<Rightarrow>
                  (let val1 = (if j = 0 then ucast b else val)
                   in avi_pack buffer i (j + 1) (val1 OR push_bit (8 * j) (ucast b))))
      else Inr val)"
  by pat_completeness auto
termination
  by (relation "measure (\<lambda>(buffer, i, j, val). 4 - j)") auto

function avi_words :: "pkt_h \<Rightarrow> u8 list \<Rightarrow> nat \<Rightarrow> u32 \<Rightarrow> dw_hdmi_qp \<Rightarrow> (error + unit) \<times> dw_hdmi_qp" where
  "avi_words K buffer i val s =
     (if i < 4 then
        (case avi_pack buffer i 0 val of
           Inl e \<Rightarrow> (Inl e, s)
         | Inr v \<Rightarrow>
             avi_words K buffer (i + 1) v
               (dw_hdmi_qp_write v (PKT_AVI_CONTENTS1 K + of_nat i * 4) s))
      else (Inr (), s))"
  by pat_completeness auto
termination
  by (relation "measure (\<lambda>(K, buffer, i, val, s). 4 - i)") auto

definition dw_hdmi_qp_config_avi_infoframe :: "pkt_h \<Rightarrow> u8 list \<Rightarrow> dw_hdmi_qp \<Rightarrow> (error + unit) \<times> dw_hdmi_qp" where
  "dw_hdmi_qp_config_avi_infoframe K buffer s =
     (if length buffer \<noteq> HDMI_INFOFRAME_SIZE_AVI K then (Inl EINVAL, s)
      else case (buf_at buffer 1, buf_at buffer 2) of
             (Some b1, Some b2) \<Rightarrow>
               (let val = push_bit 8 (ucast b1) OR push_bit 16 (ucast b2);
                    s1 = dw_hdmi_qp_write val (PKT_AVI_CONTENTS0 K) s
                in case avi_words K buffer 0 val s1 of
                     (Inl e, s2) \<Rightarrow> (Inl e, s2)
                   | (Inr u, s2) \<Rightarrow>
                       (let s3 = dw_hdmi_qp_mod 0 (PKTSCHED_AVI_FIELDRATE K)
                                   (PKTSCHED_PKT_CONFIG1 K) s2;
                            s4 = dw_hdmi_qp_mod (PKTSCHED_AVI_TX_EN K OR PKTSCHED_GCP_TX_EN K)
                                   (PKTSCHED_AVI_TX_EN K OR PKTSCHED_GCP_TX_EN K)
                                   (PKTSCHED_PKT_EN K) s3
                        in (Inr (), s4)))
           | _ \<Rightarrow> (Inl OutOfBounds, s))"

text \<open>
  The loop of \<^verbatim>\<open>dw_hdmi_qp_config_drm_infoframe\<close>: \<open>i\<close> runs from 0 to
  \<^verbatim>\<open>buffer[2]\<close> inclusive, which is read again at every round.
\<close>

function drm_words :: "pkt_h \<Rightarrow> u8 list \<Rightarrow> nat \<Rightarrow> u32 \<Rightarrow> dw_hdmi_qp \<Rightarrow> (error + unit) \<times> dw_hdmi_qp" where
  "drm_words K buffer i val s =
     (case buf_at buffer 2 of
        None \<Rightarrow> (Inl OutOfBounds, s)
      | Some n \<Rightarrow>
          if i \<le> unat n then
            (case buf_at buffer (3 + i) of
               None \<Rightarrow> (Inl OutOfBounds, s)
             | Some b \<Rightarrow>
                 (let val1 = (if i mod 4 = 0 then ucast b else val);
                      val2 = val1 OR push_bit ((i mod 4) * 8) (ucast b);
                      s1 = (if i mod 4 = 3 \<or> i = unat n
                            then dw_hdmi_qp_write val2
                                   (PKT_DRMI_CONTENTS1 K + of_nat ((i div 4) * 4)) s
                            else s)
                  in drm_words K buffer (i + 1) val2 s1))
          else (Inr (), s))"
  by pat_completeness auto
termination
proof (relation "measure (\<lambda>(K, buffer, i, val, s). 256 - i)")
  show "wf (measure (\<lambda>(K, buffer, i, val, s). 256 - i))" by simp
next
  fix K :: pkt_h and buffer :: "u8 list" and i :: nat and val :: u32 and s :: dw_hdmi_qp
    and n :: u8 and b :: u8 and val1 val2 :: u32 and s1 :: dw_hdmi_qp
  assume "i \<le> unat n"
  moreover have "unat n < 256" using unsigned_less [of n, where ?'a = nat] by simp
  ultimately show "((K, buffer, i + 1, val2, s1), (K, buffer, i, val, s))
      \<in> measure (\<lambda>(K, buffer, i, val, s). 256 - i)" by simp
qed

definition dw_hdmi_qp_config_drm_infoframe :: "pkt_h \<Rightarrow> u8 list \<Rightarrow> dw_hdmi_qp \<Rightarrow> (error + unit) \<times> dw_hdmi_qp" where
  "dw_hdmi_qp_config_drm_infoframe K buffer s =
     (if length buffer \<noteq> HDMI_INFOFRAME_SIZE_DRM K then (Inl EINVAL, s)
      else
        (let s1 = dw_hdmi_qp_mod 0 (PKTSCHED_DRMI_TX_EN K) (PKTSCHED_PKT_EN K) s
         in case (buf_at buffer 1, buf_at buffer 2) of
              (Some b1, Some b2) \<Rightarrow>
                (let val = push_bit 8 (ucast b1) OR push_bit 16 (ucast b2);
                     s2 = dw_hdmi_qp_write val (PKT_DRMI_CONTENTS0 K) s1
                 in case drm_words K buffer 0 val s2 of
                      (Inl e, s3) \<Rightarrow> (Inl e, s3)
                    | (Inr u, s3) \<Rightarrow>
                        (let s4 = dw_hdmi_qp_mod 0 (PKTSCHED_DRMI_FIELDRATE K)
                                    (PKTSCHED_PKT_CONFIG1 K) s3;
                             s5 = dw_hdmi_qp_mod (PKTSCHED_DRMI_TX_EN K) (PKTSCHED_DRMI_TX_EN K)
                                    (PKTSCHED_PKT_EN K) s4
                         in (Inr (), s5)))
            | _ \<Rightarrow> (Inl OutOfBounds, s1)))"

section \<open>Scrambling\<close>

definition log_event :: "event \<Rightarrow> dw_hdmi_qp \<Rightarrow> dw_hdmi_qp" where
  "log_event e s = s\<lparr>trace := trace s @ [e]\<rparr>"

text \<open>
  Modelled from the spec: the work queue is kernel code outside the sources. For the one
  delayed work of the driver, scheduling queues it, and the synchronous cancel of the
  spec (\<^verbatim>\<open>cancel_delayed_work_sync\<close>: it waits for a run in flight before it
  returns) leaves it not queued and not running.
\<close>

definition schedule_delayed_work :: "nat \<Rightarrow> dw_hdmi_qp \<Rightarrow> dw_hdmi_qp" where
  "schedule_delayed_work ms s = (log_event (ScheduleDelayedWork ms) s)\<lparr>scramb_work_pending := True\<rparr>"

definition cancel_delayed_work_sync :: "dw_hdmi_qp \<Rightarrow> dw_hdmi_qp" where
  "cancel_delayed_work_sync s = (log_event CancelDelayedWorkSync s)\<lparr>scramb_work_pending := False\<rparr>"

definition dw_hdmi_qp_supports_scrambling :: "dw_hdmi_qp \<Rightarrow> error + bool" where
  "dw_hdmi_qp_supports_scrambling s =
     (case connector s of
        None \<Rightarrow> Inl NullDeref
      | Some display \<Rightarrow>
          if \<not> is_hdmi display then Inr False
          else if \<not> scdc_supported display \<or> \<not> scdc_scrambling_supported display then Inr False
          else Inr True)"

definition dw_hdmi_qp_set_scramb :: "dw_hdmi_qp \<Rightarrow> dw_hdmi_qp" where
  "dw_hdmi_qp_set_scramb s =
     (let s1 = log_event (ScdcSetHighTmdsClockRatio True) s;
          s2 = log_event (ScdcSetScrambling True) s1
      in schedule_delayed_work SCRAMB_POLL_DELAY_MS s2)"

definition dw_hdmi_qp_scramb_work :: "dw_hdmi_qp \<Rightarrow> dw_hdmi_qp" where
  "dw_hdmi_qp_scramb_work s = (if \<not> sink_scrambling s then dw_hdmi_qp_set_scramb s else s)"

text \<open>
  Modelled from the spec: the work queue runs the recheck only while it is queued, and
  takes it off the queue when it starts it.
\<close>

definition run_scramb_work :: "dw_hdmi_qp \<Rightarrow> dw_hdmi_qp" where
  "run_scramb_work s =
     (if scramb_work_pending s then dw_hdmi_qp_scramb_work (s\<lparr>scramb_work_pending := False\<rparr>)
      else s)"

definition dw_hdmi_qp_enable_scramb :: "pkt_h \<Rightarrow> dw_hdmi_qp \<Rightarrow> error + dw_hdmi_qp" where
  "dw_hdmi_qp_enable_scramb K s =
     (case dw_hdmi_qp_supports_scrambling s of
        Inl e \<Rightarrow> Inl e
      | Inr False \<Rightarrow> Inr s
      | Inr True \<Rightarrow>
          (let s1 = log_event (ScdcReadb (SCDC_SINK_VERSION K)) s;
               ver = sink_version s1;
               s2 = log_event (ScdcWriteb (SCDC_SOURCE_VERSION K)
                                 (min ver SCDC_MIN_SOURCE_VERSION)) s1;
               s3 = dw_hdmi_qp_set_scramb s2;
               s4 = dw_hdmi_qp_write 1 (SCRAMB_CONFIG0 K) s3
           in Inr (s4\<lparr>scramb_enabled := True\<rparr>)))"

definition dw_hdmi_qp_disable_scramb :: "pkt_h \<Rightarrow> dw_hdmi_qp \<Rightarrow> error + dw_hdmi_qp" where
  "dw_hdmi_qp_disable_scramb K s =
     (if \<not> scramb_enabled s then Inr s
      else
        (let s1 = s\<lparr>scramb_enabled := False\<rparr>;
             s2 = cancel_delayed_work_sync s1;
             s3 = dw_hdmi_qp_write 0 (SCRAMB_CONFIG0 K) s2
         in case connector s3 of
              None \<Rightarrow> Inl NullDeref
            | Some c \<Rightarrow>
                if status c \<noteq> connector_status_disconnected
                then Inr (log_event (ScdcSetHighTmdsClockRatio False)
                            (log_event (ScdcSetScrambling False) s3))
                else Inr s3))"

section \<open>Bridge callbacks\<close>

text \<open>
  \<^verbatim>\<open>dw_hdmi_qp_bridge_atomic_enable\<close>. The atomic state gives the new connector of
  the encoder (or none) and that connector's new state (or none), of which the driver
  reads \<^verbatim>\<open>hdmi.tmds_char_rate\<close>.
\<close>

definition dw_hdmi_qp_bridge_atomic_enable :: "pkt_h \<Rightarrow> drm_connector option \<Rightarrow> u64 option \<Rightarrow> dw_hdmi_qp \<Rightarrow> error + dw_hdmi_qp" where
  "dw_hdmi_qp_bridge_atomic_enable K new_connector conn_state s =
     (let s1 = s\<lparr>connector := new_connector\<rparr> in
      case new_connector of
        None \<Rightarrow> Inr s1
      | Some c \<Rightarrow>
          (case conn_state of
             None \<Rightarrow> Inr s1
           | Some tmds_char_rate \<Rightarrow>
               (case (if is_hdmi c
                      then (if tmds_char_rate > HDMI14_MAX_TMDSCLK
                            then (case dw_hdmi_qp_enable_scramb K s1 of
                                    Inl e \<Rightarrow> Inl e | Inr s2 \<Rightarrow> Inr (0, s2))
                            else Inr (0, s1))
                      else Inr (OPMODE_DVI K, s1)) of
                  Inl e \<Rightarrow> Inl e
                | Inr (op_mode, s2) \<Rightarrow>
                    (let s3 = log_event PhyInit s2;
                         s4 = dw_hdmi_qp_mod (HDCP2_BYPASS K) (HDCP2_BYPASS K)
                                (HDCP2LOGIC_CONFIG0 K) s3;
                         s5 = dw_hdmi_qp_mod op_mode (OPMODE_DVI K) (LINK_CONFIG0 K) s4
                     in Inr (log_event UpdateInfoframes s5)))))"

definition dw_hdmi_qp_bridge_atomic_disable :: "pkt_h \<Rightarrow> dw_hdmi_qp \<Rightarrow> error + dw_hdmi_qp" where
  "dw_hdmi_qp_bridge_atomic_disable K s =
     (case dw_hdmi_qp_disable_scramb K s of
        Inl e \<Rightarrow> Inl e
      | Inr s1 \<Rightarrow> Inr (log_event PhyDisable (s1\<lparr>connector := None\<rparr>)))"

datatype drm_mode_status = MODE_OK | MODE_CLOCK_HIGH

definition dw_hdmi_qp_bridge_tmds_char_rate_valid :: "dw_hdmi_qp \<Rightarrow> u64 \<Rightarrow> drm_mode_status" where
  "dw_hdmi_qp_bridge_tmds_char_rate_valid hdmi rate =
     (if rate > HDMI20_MAX_TMDSRATE then MODE_CLOCK_HIGH else MODE_OK)"

section \<open>Interrupt handler\<close>

datatype irqreturn = IRQ_NONE | IRQ_HANDLED

text \<open>
  Modelled from the spec: \<^verbatim>\<open>complete\<close> signals the completion once, which adds one
  to its counter.
\<close>

definition complete :: "dw_hdmi_qp \<Rightarrow> dw_hdmi_qp" where
  "complete s = s\<lparr>i2c := (i2c s)\<lparr>cmp_done := cmp_done (i2c s) + 1\<rparr>\<rparr>"

text \<open>
  \<^verbatim>\<open>dw_hdmi_qp_main_hardirq\<close>. The masked status is stored in the \<^verbatim>\<open>u8\<close> field
  \<^verbatim>\<open>i2c->stat\<close>, and it is that field which is tested and written back.
\<close>

definition dw_hdmi_qp_main_hardirq :: "i2cm_h \<Rightarrow> dw_hdmi_qp \<Rightarrow> irqreturn \<times> dw_hdmi_qp" where
  "dw_hdmi_qp_main_hardirq K s =
     (let st = dw_hdmi_qp_read (MAINUNIT_1_INT_STATUS K) s;
          s1 = s\<lparr>i2c := (i2c s)\<lparr>stat := ucast (st AND (I2CM_OP_DONE_IRQ K OR
                  I2CM_READ_REQUEST_IRQ K OR I2CM_NACK_RCVD_IRQ K))\<rparr>\<rparr>;
          s2 = (if stat (i2c s1) \<noteq> 0
                then complete (dw_hdmi_qp_write (ucast (stat (i2c s1))) (MAINUNIT_1_INT_CLEAR K) s1)
                else s1)
      in (if st \<noteq> 0 then IRQ_HANDLED else IRQ_NONE, s2))"

section \<open>Sample inputs\<close>

text \<open>
  One assignment of the macros and one idle controller, for running the model on concrete
  inputs. The theorems below hold for every assignment, under the hypotheses they state.
\<close>

definition sample_i2cm_h :: i2cm_h where
  "sample_i2cm_h =
     \<lparr>I2CM_CONTROL0 = 0xe0c, I2CM_INTERFACE_CONTROL0 = 0xe14, I2CM_ADDR = 0xff000,
      I2CM_SLVADDR = 0xfe0, I2CM_WR_MASK = 0x1e, I2CM_EXT_READ = 0x10, I2CM_FM_READ = 0x4,
      I2CM_FM_WRITE = 0x2, I2CM_INTERFACE_CONTROL1 = 0xe18, I2CM_SEG_ADDR = 0x7f,
      I2CM_SEG_PTR = 0x7f80, I2CM_INTERFACE_WRDATA_0_3 = 0xe1c,
      I2CM_INTERFACE_RDDATA_0_3 = 0xe2c, MAINUNIT_1_INT_STATUS = 0xe0,
      MAINUNIT_1_INT_MASK_N = 0xe4, MAINUNIT_1_INT_CLEAR = 0xe8,
      I2CM_NACK_RCVD_MASK_N = 0x4, I2CM_OP_DONE_MASK_N = 0x1, I2CM_OP_DONE_IRQ = 0x1,
      I2CM_READ_REQUEST_IRQ = 0x2, I2CM_NACK_RCVD_IRQ = 0x4, DDC_ADDR = 0x50,
      I2C_M_RD = 0x1, HZ = 250\<rparr>"

definition sample_pkt_h :: pkt_h where
  "sample_pkt_h =
     \<lparr>HDMI_INFOFRAME_SIZE_AVI = 17, HDMI_INFOFRAME_SIZE_DRM = 30,
      PKT_AVI_CONTENTS0 = 0xa40, PKT_AVI_CONTENTS1 = 0xa44,
      PKT_DRMI_CONTENTS0 = 0xba0, PKT_DRMI_CONTENTS1 = 0xba4,
      PKTSCHED_PKT_CONFIG1 = 0xa04, PKTSCHED_PKT_EN = 0xaa8,
      PKTSCHED_AVI_FIELDRATE = 0x1000, PKTSCHED_DRMI_FIELDRATE = 0x4000,
      PKTSCHED_AVI_TX_EN = 0x2000, PKTSCHED_GCP_TX_EN = 0x8, PKTSCHED_DRMI_TX_EN = 0x4000000,
      SCRAMB_CONFIG0 = 0x960, HDCP2LOGIC_CONFIG0 = 0x804, HDCP2_BYPASS = 0x1,
      LINK_CONFIG0 = 0x968, OPMODE_DVI = 0x1,
      SCDC_SINK_VERSION = 0x01, SCDC_SOURCE_VERSION = 0x02\<rparr>"

definition hdmi0 :: dw_hdmi_qp where
  "hdmi0 =
     \<lparr>i2c = \<lparr>cmp_done = 0, stat = 0, slave_reg = 0, is_regaddr = False, is_segment = False\<rparr>,
      connector = None, scramb_work_pending = False, scramb_enabled = False,
      regm = (\<lambda>r. 0), trace = [], env = [], sink_version = 0, sink_scrambling = False\<rparr>"

definition sink0 :: drm_connector where
  "sink0 = \<lparr>status = connector_status_connected, is_hdmi = True, scdc_supported = True,
            scdc_scrambling_supported = True\<rparr>"

section \<open>Auxiliary definitions\<close>

text \<open>The part of one round of the write loop before the wait, and the same of the read loop.\<close>

definition write_strobe :: "i2cm_h \<Rightarrow> u8 \<Rightarrow> dw_hdmi_qp \<Rightarrow> dw_hdmi_qp" where
  "write_strobe K b s =
     (let s1 = reinit_completion s;
          s2 = dw_hdmi_qp_write (ucast b) (I2CM_INTERFACE_WRDATA_0_3 K) s1;
          r = slave_reg (i2c s2);
          s3 = dw_hdmi_qp_mod (push_bit 12 (ucast r)) (I2CM_ADDR K) (I2CM_INTERFACE_CONTROL0 K)
                 (s2\<lparr>i2c := (i2c s2)\<lparr>slave_reg := r + 1\<rparr>\<rparr>)
      in dw_hdmi_qp_mod (I2CM_FM_WRITE K) (I2CM_WR_MASK K) (I2CM_INTERFACE_CONTROL0 K) s3)"

definition read_strobe :: "i2cm_h \<Rightarrow> dw_hdmi_qp \<Rightarrow> dw_hdmi_qp" where
  "read_strobe K s =
     (let s1 = reinit_completion s;
          r = slave_reg (i2c s1);
          s2 = dw_hdmi_qp_mod (push_bit 12 (ucast r)) (I2CM_ADDR K) (I2CM_INTERFACE_CONTROL0 K)
                 (s1\<lparr>i2c := (i2c s1)\<lparr>slave_reg := r + 1\<rparr>\<rparr>)
      in if is_segment (i2c s2)
         then dw_hdmi_qp_mod (I2CM_EXT_READ K) (I2CM_WR_MASK K) (I2CM_INTERFACE_CONTROL0 K) s2
         else dw_hdmi_qp_mod (I2CM_FM_READ K) (I2CM_WR_MASK K) (I2CM_INTERFACE_CONTROL0 K) s2)"

text \<open>
  The discipline of the byte operations in a run of events \<open>new\<close> of a transfer that
  ends with the error \<open>e\<close> (or with none): what follows each wait.
\<close>

definition byte_ops_ok :: "i2cm_h \<Rightarrow> error option \<Rightarrow> event list \<Rightarrow> bool" where
  "byte_ops_ok K e new \<longleftrightarrow>
     (\<forall>i<length new.
        (\<forall>t r. new ! i = Wait t r \<longrightarrow> t = HZ K div 10)
      \<and> (\<forall>t. new ! i = Wait t TimedOut \<longrightarrow>
           Suc i < length new \<and> new ! Suc i = RegWrite (I2CM_CONTROL0 K) 0x01 \<and> e = Some EAGAIN)
      \<and> (\<forall>t st d. new ! i = Wait t (Completed st d) \<longrightarrow>
           Suc i < length new \<and>
           (if ucast st AND I2CM_NACK_RCVD_IRQ K \<noteq> 0
            then new ! Suc i = RegWrite (I2CM_CONTROL0 K) 0x01 \<and> e = Some EIO
            else new ! Suc i = RegMod (I2CM_INTERFACE_CONTROL0 K) (I2CM_WR_MASK K) 0)))"

fun err_of :: "error + 'a \<Rightarrow> error option" where
  "err_of (Inl e) = Some e"
| "err_of (Inr x) = None"

text \<open>
  Two facts about the macros that some statements below need: the write data register is
  another register than the control register that takes the soft reset, and the write
  strobe is another command than the two read strobes.
\<close>

definition wr_distinct :: "i2cm_h \<Rightarrow> bool" where
  "wr_distinct K \<longleftrightarrow> I2CM_INTERFACE_WRDATA_0_3 K \<noteq> I2CM_CONTROL0 K"

definition rw_distinct :: "i2cm_h \<Rightarrow> bool" where
  "rw_distinct K \<longleftrightarrow> I2CM_FM_READ K \<noteq> I2CM_FM_WRITE K \<and> I2CM_EXT_READ K \<noteq> I2CM_FM_WRITE K"

text \<open>
  Every wait in a run of events comes right after the strobe of a read or of a write, and
  every load of the write data register is followed by the register address, the write
  strobe and the wait (where the write data register is not the control register, whose
  soft reset is followed by nothing of the kind).
\<close>

definition ops_framed :: "i2cm_h \<Rightarrow> event list \<Rightarrow> bool" where
  "ops_framed K new \<longleftrightarrow>
     (\<forall>i<length new.
        (\<forall>t r. new ! i = Wait t r \<longrightarrow>
           0 < i \<and> (\<exists>v. new ! (i - 1) = RegMod (I2CM_INTERFACE_CONTROL0 K) (I2CM_WR_MASK K) v
                    \<and> (v = I2CM_FM_READ K \<or> v = I2CM_EXT_READ K \<or> v = I2CM_FM_WRITE K)))
      \<and> (wr_distinct K \<longrightarrow>
           (\<forall>b. new ! i = RegWrite (I2CM_INTERFACE_WRDATA_0_3 K) b \<longrightarrow>
              i + 3 < length new
              \<and> (\<exists>a. new ! (i + 1) = RegMod (I2CM_INTERFACE_CONTROL0 K) (I2CM_ADDR K) a)
              \<and> new ! (i + 2) = RegMod (I2CM_INTERFACE_CONTROL0 K) (I2CM_WR_MASK K) (I2CM_FM_WRITE K)
              \<and> (\<exists>t r. new ! (i + 3) = Wait t r))))"

text \<open>A run of events that does not begin with a wait.\<close>

definition no_wait_hd :: "event list \<Rightarrow> bool" where
  "no_wait_hd new \<longleftrightarrow> (\<forall>t r es. new \<noteq> Wait t r # es)"

text \<open>The three together, for a run of events that ends with the error \<open>e\<close> (or with none).\<close>

definition good_run :: "i2cm_h \<Rightarrow> error option \<Rightarrow> event list \<Rightarrow> bool" where
  "good_run K e new \<longleftrightarrow> byte_ops_ok K e new \<and> ops_framed K new \<and> no_wait_hd new"

text \<open>
  The bytes received in a run of events: the low byte of the read data of every
  completion without NACK that follows a strobe other than the write strobe, in order.
\<close>

definition rd_bytes :: "i2cm_h \<Rightarrow> event list \<Rightarrow> u8 list" where
  "rd_bytes K new =
     [ucast (d AND 0xff). (RegMod r mk v, Wait t (Completed st d)) \<leftarrow> zip new (tl new),
        v \<noteq> I2CM_FM_WRITE K, ucast st AND I2CM_NACK_RCVD_IRQ K = 0]"

text \<open>The values loaded into the write data register in a run of events, in order.\<close>

definition wr_bytes :: "i2cm_h \<Rightarrow> event list \<Rightarrow> u32 list" where
  "wr_bytes K new = [v. RegWrite r v \<leftarrow> new, r = I2CM_INTERFACE_WRDATA_0_3 K]"

text \<open>
  The messages of a batch that the message loop hands to the read function, and the
  relation of a message to what the loop returns for it: only the buffer of such a
  message may differ, and not in its length.
\<close>

definition rd_msg :: "i2cm_h \<Rightarrow> i2c_msg \<Rightarrow> bool" where
  "rd_msg K m \<longleftrightarrow> \<not> (addr m = ucast DDC_SEGMENT_ADDR \<and> len m = 1) \<and> flags m AND I2C_M_RD K \<noteq> 0"

definition msg_kept :: "i2cm_h \<Rightarrow> i2c_msg \<Rightarrow> i2c_msg \<Rightarrow> bool" where
  "msg_kept K m' m \<longleftrightarrow>
     addr m' = addr m \<and> flags m' = flags m \<and> length (buf m') = length (buf m)
     \<and> (\<not> rd_msg K m \<longrightarrow> m' = m)"

text \<open>
  The bytes of the write messages of a batch that are due as data, when the batch is
  entered with the flag \<open>g\<close> for a register address already set: the buffers of the write
  messages one after the other, less the very first byte if the flag is clear and the
  first message that is not a segment pointer is a write.
\<close>

definition wr_payload :: "i2cm_h \<Rightarrow> bool \<Rightarrow> i2c_msg list \<Rightarrow> u8 list" where
  "wr_payload K g msgs =
     (let ns = filter (\<lambda>m. \<not> (addr m = ucast DDC_SEGMENT_ADDR \<and> len m = 1)) msgs;
          ws = filter (\<lambda>m. flags m AND I2C_M_RD K = 0) ns
      in if \<not> g \<and> ns \<noteq> [] \<and> flags (hd ns) AND I2C_M_RD K = 0
         then tl (concat (map buf ws)) else concat (map buf ws))"

declare avi_pack.simps [simp del] avi_words.simps [simp del] drm_words.simps [simp del]

section \<open>Rate validity\<close>

text \<open>
  Claim C6. A TMDS character rate of at most 600000000 is accepted with \<open>MODE_OK\<close>, any
  rate above it is rejected with \<open>MODE_CLOCK_HIGH\<close>; 600000000 itself is accepted and
  600000001 is rejected. The controller state \<open>hdmi\<close> is arbitrary: the answer does not
  depend on it, in particular not on the scrambling state.
\<close>

theorem tmds_char_rate_valid_threshold:
  "dw_hdmi_qp_bridge_tmds_char_rate_valid hdmi rate =
      (if rate \<le> 600000000 then MODE_OK else MODE_CLOCK_HIGH)
   \<and> dw_hdmi_qp_bridge_tmds_char_rate_valid hdmi 600000000 = MODE_OK
   \<and> dw_hdmi_qp_bridge_tmds_char_rate_valid hdmi 600000001 = MODE_CLOCK_HIGH"
  by (auto simp add: dw_hdmi_qp_bridge_tmds_char_rate_valid_def HDMI20_MAX_TMDSRATE_def not_less)

section \<open>Rejected transfers\<close>

lemma dw_hdmi_qp_i2c_xfer_reject:
  assumes "(ucast (addr m0) :: u8) = DDC_CI_ADDR \<or> list_ex (\<lambda>m. len m = 0) (m0 # ms)"
  shows "dw_hdmi_qp_i2c_xfer K (m0 # ms) s = (Inl EOPNOTSUPP, m0 # ms, s)"
  using assms unfolding dw_hdmi_qp_i2c_xfer_def by (auto simp: Let_def)

text \<open>
  Claim C2. A batch whose first message is addressed to 0x37, or that holds a message of
  length zero, is refused with \<open>EOPNOTSUPP\<close>; the controller and its registers are left
  as they were, so no register is written (and nothing else is logged).
\<close>

theorem i2c_xfer_rejects_unsupported:
  assumes "msgs \<noteq> []" and "addr (hd msgs) = 0x37 \<or> (\<exists>m\<in>set msgs. len m = 0)"
  shows "dw_hdmi_qp_i2c_xfer K msgs s = (Inl EOPNOTSUPP, msgs, s)"
proof -
  from assms(1) obtain m0 ms where msgs: "msgs = m0 # ms" by (cases msgs) auto
  from assms(2) have "(ucast (addr m0) :: u8) = DDC_CI_ADDR \<or> list_ex (\<lambda>m. len m = 0) (m0 # ms)"
    unfolding msgs by (auto simp: DDC_CI_ADDR_def list_ex_iff)
  then show ?thesis unfolding msgs by (rule dw_hdmi_qp_i2c_xfer_reject)
qed

theorem i2c_xfer_rejects_unsupported_witness:
  "dw_hdmi_qp_i2c_xfer sample_i2cm_h [\<lparr>addr = 0x37, flags = 0, buf = [0x10, 0x20]\<rparr>] hdmi0
     = (Inl EOPNOTSUPP, [\<lparr>addr = 0x37, flags = 0, buf = [0x10, 0x20]\<rparr>], hdmi0)
   \<and> dw_hdmi_qp_i2c_xfer sample_i2cm_h
       [\<lparr>addr = 0x50, flags = 0, buf = [0x00]\<rparr>, \<lparr>addr = 0x50, flags = 1, buf = []\<rparr>] hdmi0
     = (Inl EOPNOTSUPP,
        [\<lparr>addr = 0x50, flags = 0, buf = [0x00]\<rparr>, \<lparr>addr = 0x50, flags = 1, buf = []\<rparr>], hdmi0)"
  using i2c_xfer_rejects_unsupported
      [of "[\<lparr>addr = 0x37, flags = 0, buf = [0x10, 0x20]\<rparr>]" sample_i2cm_h hdmi0]
    i2c_xfer_rejects_unsupported
      [of "[\<lparr>addr = 0x50, flags = 0, buf = [0x00]\<rparr>, \<lparr>addr = 0x50, flags = 1, buf = []\<rparr>]"
        sample_i2cm_h hdmi0]
  by (simp add: len_def)

section \<open>The interrupt handler clears and signals\<close>

lemma ucast_u8_roundtrip:
  fixes x m :: u32
  assumes "m \<le> 0xff"
  shows "(ucast (ucast (x AND m) :: u8) :: u32) = x AND m"
proof -
  have "x AND m \<le> m" by (rule word_and_le1)
  with assms have "x AND m \<le> 0xff" by simp
  then have lt: "x AND m < 2 ^ 8" by (simp add: word_le_nat_alt word_less_nat_alt)
  have "(ucast (ucast (x AND m) :: u8) :: u32) = take_bit 8 (x AND m)"
    by (simp add: unsigned_ucast_eq)
  also have "\<dots> = x AND m"
    using less_mask_eq [OF lt] by (simp add: take_bit_eq_mask)
  finally show ?thesis .
qed

lemma ucast_u8_zero:
  fixes x m :: u32
  assumes "m \<le> 0xff"
  shows "(ucast (x AND m) :: u8) = 0 \<longleftrightarrow> x AND m = 0"
  using ucast_u8_roundtrip [OF assms, of x]
  by (metis ucast_0)

text \<open>
  Claim C7. Let \<open>st\<close> be the interrupt status the handler reads and \<open>m\<close> its part in
  the three I2C bits (operation done, read request, NACK received). If \<open>m\<close> is not zero
  the handler writes exactly \<open>m\<close> to the write-to-clear register and signals the
  completion once; if \<open>m\<close> is zero it writes nothing and does not signal. It returns
  \<open>IRQ_HANDLED\<close> exactly when \<open>st\<close> is not zero, and for \<open>st = 0\<close> it returns
  \<open>IRQ_NONE\<close> with no write and no signal. The handler keeps the masked status in the
  8-bit field \<^verbatim>\<open>i2c->stat\<close>, so the three bits are taken to lie in the low byte
  of the status register.
\<close>

theorem main_hardirq_clears_and_signals:
  assumes fits: "I2CM_OP_DONE_IRQ K OR I2CM_READ_REQUEST_IRQ K OR I2CM_NACK_RCVD_IRQ K \<le> 0xff"
    and run: "dw_hdmi_qp_main_hardirq K s = (ret, s')"
    and st: "st = regm s (MAINUNIT_1_INT_STATUS K)"
    and m: "m = st AND (I2CM_OP_DONE_IRQ K OR I2CM_READ_REQUEST_IRQ K OR I2CM_NACK_RCVD_IRQ K)"
  shows "(m \<noteq> 0 \<longrightarrow> trace s' = trace s @ [RegWrite (MAINUNIT_1_INT_CLEAR K) m]
            \<and> cmp_done (i2c s') = cmp_done (i2c s) + 1)
       \<and> (m = 0 \<longrightarrow> trace s' = trace s \<and> cmp_done (i2c s') = cmp_done (i2c s))
       \<and> (ret = IRQ_HANDLED \<longleftrightarrow> st \<noteq> 0)
       \<and> (st = 0 \<longrightarrow> ret = IRQ_NONE \<and> trace s' = trace s \<and> regm s' = regm s
            \<and> cmp_done (i2c s') = cmp_done (i2c s))"
  using run ucast_u8_roundtrip [OF fits, of st] ucast_u8_zero [OF fits, of st]
  unfolding st m
  by (auto simp: dw_hdmi_qp_main_hardirq_def dw_hdmi_qp_read_def dw_hdmi_qp_write_def
      complete_def Let_def split: if_splits)

theorem main_hardirq_clears_and_signals_witness:
  "I2CM_OP_DONE_IRQ sample_i2cm_h OR I2CM_READ_REQUEST_IRQ sample_i2cm_h
      OR I2CM_NACK_RCVD_IRQ sample_i2cm_h \<le> 0xff
   \<and> fst (dw_hdmi_qp_main_hardirq sample_i2cm_h
            (hdmi0\<lparr>regm := (\<lambda>r. if r = 0xe0 then 0x105 else 0)\<rparr>)) = IRQ_HANDLED
   \<and> trace (snd (dw_hdmi_qp_main_hardirq sample_i2cm_h
            (hdmi0\<lparr>regm := (\<lambda>r. if r = 0xe0 then 0x105 else 0)\<rparr>))) = [RegWrite 0xe8 0x5]
   \<and> cmp_done (i2c (snd (dw_hdmi_qp_main_hardirq sample_i2cm_h
            (hdmi0\<lparr>regm := (\<lambda>r. if r = 0xe0 then 0x105 else 0)\<rparr>)))) = 1
   \<and> fst (dw_hdmi_qp_main_hardirq sample_i2cm_h
            (hdmi0\<lparr>regm := (\<lambda>r. if r = 0xe0 then 0x100 else 0)\<rparr>)) = IRQ_HANDLED
   \<and> trace (snd (dw_hdmi_qp_main_hardirq sample_i2cm_h
            (hdmi0\<lparr>regm := (\<lambda>r. if r = 0xe0 then 0x100 else 0)\<rparr>))) = []
   \<and> dw_hdmi_qp_main_hardirq sample_i2cm_h hdmi0 = (IRQ_NONE, hdmi0)"
proof -
  have fits: "I2CM_OP_DONE_IRQ sample_i2cm_h OR I2CM_READ_REQUEST_IRQ sample_i2cm_h
      OR I2CM_NACK_RCVD_IRQ sample_i2cm_h \<le> 0xff"
    by (simp add: sample_i2cm_h_def)
  note inst = main_hardirq_clears_and_signals [OF fits surjective_pairing refl refl]
  have none: "dw_hdmi_qp_main_hardirq sample_i2cm_h hdmi0 = (IRQ_NONE, hdmi0)"
    by (simp add: dw_hdmi_qp_main_hardirq_def dw_hdmi_qp_read_def hdmi0_def Let_def)
  from fits none
    inst [of "hdmi0\<lparr>regm := (\<lambda>r. if r = 0xe0 then 0x105 else 0)\<rparr>"]
    inst [of "hdmi0\<lparr>regm := (\<lambda>r. if r = 0xe0 then 0x100 else 0)\<rparr>"]
  show ?thesis
    by (simp add: sample_i2cm_h_def hdmi0_def)
qed

section \<open>Scrambling: teardown and enable sequence\<close>

text \<open>
  Claim C8. With a connector bound: if the scrambling flag is set, disabling clears it,
  cancels the recheck with \<^verbatim>\<open>cancel_delayed_work_sync\<close>, then writes 0 to the
  scrambling config register, and tells the sink to drop scrambling and the high clock
  ratio only when the connector is not disconnected; if the flag is not set it does
  nothing. After a disable that found the flag set the recheck is not queued: when the
  work queue comes to it, nothing runs, so no register or SCDC write of the recheck
  follows. The bridge's atomic disable does the same and then disables the PHY.
\<close>

theorem disable_scramb_teardown:
  assumes "connector s = Some c"
  shows "dw_hdmi_qp_disable_scramb K s =
      (if scramb_enabled s
       then Inr (s\<lparr>scramb_work_pending := False, scramb_enabled := False,
                 regm := (regm s)(SCRAMB_CONFIG0 K := 0),
                 trace := trace s @ [CancelDelayedWorkSync, RegWrite (SCRAMB_CONFIG0 K) 0] @
                   (if status c \<noteq> connector_status_disconnected
                    then [ScdcSetScrambling False, ScdcSetHighTmdsClockRatio False] else [])\<rparr>)
       else Inr s)
    \<and> (\<forall>s'. scramb_enabled s \<and> dw_hdmi_qp_disable_scramb K s = Inr s'
          \<longrightarrow> run_scramb_work s' = s')
    \<and> (\<exists>s'. dw_hdmi_qp_bridge_atomic_disable K s = Inr s'
          \<and> trace s' = trace s @
              (if scramb_enabled s
               then [CancelDelayedWorkSync, RegWrite (SCRAMB_CONFIG0 K) 0] @
                   (if status c \<noteq> connector_status_disconnected
                    then [ScdcSetScrambling False, ScdcSetHighTmdsClockRatio False] else [])
               else []) @ [PhyDisable]
          \<and> (scramb_enabled s \<longrightarrow> run_scramb_work s' = s'))"
  using assms
  by (auto simp: dw_hdmi_qp_disable_scramb_def dw_hdmi_qp_bridge_atomic_disable_def
      cancel_delayed_work_sync_def log_event_def
      dw_hdmi_qp_write_def run_scramb_work_def Let_def)

theorem disable_scramb_teardown_witness:
  "connector (hdmi0\<lparr>connector := Some sink0, scramb_work_pending := True,
                   scramb_enabled := True\<rparr>) = Some sink0
   \<and> (\<exists>s'. dw_hdmi_qp_disable_scramb sample_pkt_h
               (hdmi0\<lparr>connector := Some sink0, scramb_work_pending := True,
                      scramb_enabled := True\<rparr>) = Inr s'
          \<and> trace s' = [CancelDelayedWorkSync, RegWrite 0x960 0,
                         ScdcSetScrambling False, ScdcSetHighTmdsClockRatio False]
          \<and> \<not> scramb_enabled s' \<and> \<not> scramb_work_pending s'
          \<and> run_scramb_work s' = s')
   \<and> dw_hdmi_qp_disable_scramb sample_pkt_h (hdmi0\<lparr>connector := Some sink0\<rparr>)
       = Inr (hdmi0\<lparr>connector := Some sink0\<rparr>)"
  using disable_scramb_teardown [of "hdmi0\<lparr>connector := Some sink0, scramb_work_pending := True,
                   scramb_enabled := True\<rparr>" sink0 sample_pkt_h]
    disable_scramb_teardown [of "hdmi0\<lparr>connector := Some sink0\<rparr>" sink0 sample_pkt_h]
  by (simp add: hdmi0_def sink0_def sample_pkt_h_def)

text \<open>
  Claim C3, as amended. When the new connector is an HDMI sink whose display information
  reports SCDC and scrambling as supported, and the negotiated TMDS character rate is
  above 340000000, atomic enable reads the sink's SCDC version, writes the minimum of it
  and 1 as the source version, asks the sink for the high TMDS clock ratio and for
  scrambling, arms the recheck with a delay of 3000 ms, writes 1 to the scrambling config
  register and sets the scrambling flag, before it goes on with the PHY and the link.
\<close>

theorem atomic_enable_scrambling_sequence:
  assumes "is_hdmi c" and "scdc_supported c" and "scdc_scrambling_supported c"
    and "rate > 340000000"
  shows "\<exists>s'. dw_hdmi_qp_bridge_atomic_enable K (Some c) (Some rate) s = Inr s'
     \<and> trace s' = trace s @
         [ScdcReadb (SCDC_SINK_VERSION K),
          ScdcWriteb (SCDC_SOURCE_VERSION K) (min (sink_version s) 1),
          ScdcSetHighTmdsClockRatio True, ScdcSetScrambling True,
          ScheduleDelayedWork 3000,
          RegWrite (SCRAMB_CONFIG0 K) 1,
          PhyInit, RegMod (HDCP2LOGIC_CONFIG0 K) (HDCP2_BYPASS K) (HDCP2_BYPASS K),
          RegMod (LINK_CONFIG0 K) (OPMODE_DVI K) 0, UpdateInfoframes]
     \<and> scramb_enabled s' \<and> scramb_work_pending s' \<and> connector s' = Some c"
  using assms
  by (simp add: dw_hdmi_qp_bridge_atomic_enable_def dw_hdmi_qp_enable_scramb_def
      dw_hdmi_qp_supports_scrambling_def dw_hdmi_qp_set_scramb_def schedule_delayed_work_def
      log_event_def dw_hdmi_qp_write_def dw_hdmi_qp_mod_def Let_def HDMI14_MAX_TMDSCLK_def
      SCDC_MIN_SOURCE_VERSION_def SCRAMB_POLL_DELAY_MS_def)

theorem atomic_enable_scrambling_sequence_witness:
  "is_hdmi sink0 \<and> scdc_supported sink0 \<and> scdc_scrambling_supported sink0
   \<and> (594000000 :: u64) > 340000000
   \<and> (\<exists>s'. dw_hdmi_qp_bridge_atomic_enable sample_pkt_h (Some sink0) (Some 594000000)
               (hdmi0\<lparr>sink_version := 1\<rparr>) = Inr s'
          \<and> trace s' =
              [ScdcReadb 0x01, ScdcWriteb 0x02 1,
               ScdcSetHighTmdsClockRatio True, ScdcSetScrambling True,
               ScheduleDelayedWork 3000, RegWrite 0x960 1,
               PhyInit, RegMod 0x804 0x1 0x1, RegMod 0x968 0x1 0, UpdateInfoframes]
          \<and> scramb_enabled s' \<and> scramb_work_pending s')"
proof -
  have p: "is_hdmi sink0" "scdc_supported sink0" "scdc_scrambling_supported sink0"
    by (simp_all add: sink0_def)
  have r: "(594000000 :: u64) > 340000000" by simp
  from atomic_enable_scrambling_sequence [OF p r, of sample_pkt_h "hdmi0\<lparr>sink_version := 1\<rparr>"]
  obtain s' where "dw_hdmi_qp_bridge_atomic_enable sample_pkt_h (Some sink0) (Some 594000000)
               (hdmi0\<lparr>sink_version := 1\<rparr>) = Inr s'"
    and "trace s' =
              [ScdcReadb 0x01, ScdcWriteb 0x02 1,
               ScdcSetHighTmdsClockRatio True, ScdcSetScrambling True,
               ScheduleDelayedWork 3000, RegWrite 0x960 1,
               PhyInit, RegMod 0x804 0x1 0x1, RegMod 0x968 0x1 0, UpdateInfoframes]"
    and "scramb_enabled s'" "scramb_work_pending s'"
    by (auto simp: hdmi0_def sample_pkt_h_def)
  with p r show ?thesis by blast
qed

text \<open>
  As the claim states it, without the two capability flags, it fails: for an HDMI sink
  above 340000000 whose display information does not report SCDC, atomic enable skips the
  whole scrambling sequence and leaves the scrambling flag clear.
\<close>

theorem atomic_enable_scrambling_counterexample:
  "is_hdmi (sink0\<lparr>scdc_supported := False\<rparr>)
   \<and> (594000000 :: u64) > 340000000
   \<and> (case dw_hdmi_qp_bridge_atomic_enable sample_pkt_h
               (Some (sink0\<lparr>scdc_supported := False\<rparr>)) (Some 594000000)
               (hdmi0\<lparr>sink_version := 1\<rparr>) of
         Inl e \<Rightarrow> False
       | Inr s' \<Rightarrow>
           trace s' = [PhyInit, RegMod 0x804 0x1 0x1, RegMod 0x968 0x1 0, UpdateInfoframes]
           \<and> \<not> scramb_enabled s' \<and> \<not> scramb_work_pending s')"
  by (simp add: dw_hdmi_qp_bridge_atomic_enable_def dw_hdmi_qp_enable_scramb_def
      dw_hdmi_qp_supports_scrambling_def log_event_def dw_hdmi_qp_mod_def Let_def
      HDMI14_MAX_TMDSCLK_def hdmi0_def sink0_def sample_pkt_h_def)

section \<open>Infoframe encoding\<close>

text \<open>
  Claim C5. Take the AVI wire size to be at least 17, so that the 14 body bytes the loop
  packs lie in a buffer of that size. If the buffer has that size the call succeeds; it
  writes bytes 1 and 2 to the control register, then the bytes 3 to 16 four at a time,
  lowest byte first, to the four content registers that follow each other, clears the
  field-rate bit, and last sets the AVI and the GCP transmit-enable bits together, which
  are then both set in the register. For any other length it returns \<open>EINVAL\<close> and
  leaves the controller as it was: no register is written.
\<close>

theorem avi_infoframe_encode:
  assumes "17 \<le> HDMI_INFOFRAME_SIZE_AVI K"
    and "dw_hdmi_qp_config_avi_infoframe K buffer s = (ret, s')"
  shows "(length buffer = HDMI_INFOFRAME_SIZE_AVI K \<longrightarrow>
            ret = Inr ()
          \<and> trace s' = trace s @
              [RegWrite (PKT_AVI_CONTENTS0 K)
                 (push_bit 8 (ucast (buffer ! 1)) OR push_bit 16 (ucast (buffer ! 2))),
               RegWrite (PKT_AVI_CONTENTS1 K)
                 (ucast (buffer ! 3) OR push_bit 8 (ucast (buffer ! 4))
                    OR push_bit 16 (ucast (buffer ! 5)) OR push_bit 24 (ucast (buffer ! 6))),
               RegWrite (PKT_AVI_CONTENTS1 K + 4)
                 (ucast (buffer ! 7) OR push_bit 8 (ucast (buffer ! 8))
                    OR push_bit 16 (ucast (buffer ! 9)) OR push_bit 24 (ucast (buffer ! 10))),
               RegWrite (PKT_AVI_CONTENTS1 K + 8)
                 (ucast (buffer ! 11) OR push_bit 8 (ucast (buffer ! 12))
                    OR push_bit 16 (ucast (buffer ! 13)) OR push_bit 24 (ucast (buffer ! 14))),
               RegWrite (PKT_AVI_CONTENTS1 K + 12)
                 (ucast (buffer ! 15) OR push_bit 8 (ucast (buffer ! 16))),
               RegMod (PKTSCHED_PKT_CONFIG1 K) (PKTSCHED_AVI_FIELDRATE K) 0,
               RegMod (PKTSCHED_PKT_EN K) (PKTSCHED_AVI_TX_EN K OR PKTSCHED_GCP_TX_EN K)
                 (PKTSCHED_AVI_TX_EN K OR PKTSCHED_GCP_TX_EN K)]
          \<and> regm s' (PKTSCHED_PKT_EN K) AND (PKTSCHED_AVI_TX_EN K OR PKTSCHED_GCP_TX_EN K)
              = PKTSCHED_AVI_TX_EN K OR PKTSCHED_GCP_TX_EN K)
       \<and> (length buffer \<noteq> HDMI_INFOFRAME_SIZE_AVI K \<longrightarrow> ret = Inl EINVAL \<and> s' = s)"
proof (cases "length buffer = HDMI_INFOFRAME_SIZE_AVI K")
  case False
  with assms(2) show ?thesis
    by (simp add: dw_hdmi_qp_config_avi_infoframe_def)
next
  case True
  with assms(1) have len: "17 \<le> length buffer" by simp
  have and_or: "(x AND NOT m OR m) AND m = m" for x m :: u32
    by (simp add: bit_eq_iff bit_and_iff bit_or_iff bit_not_iff)
  from assms(2) True len show ?thesis
    by (simp add: dw_hdmi_qp_config_avi_infoframe_def buf_at_def avi_words.simps
        avi_pack.simps or.assoc dw_hdmi_qp_write_def dw_hdmi_qp_mod_def Let_def and_or)
      (auto simp: and_or)
qed

theorem avi_infoframe_encode_witness:
  "17 \<le> HDMI_INFOFRAME_SIZE_AVI sample_pkt_h
   \<and> fst (dw_hdmi_qp_config_avi_infoframe sample_pkt_h
        [0x82, 0x02, 0x0d, 0x5b, 0x40, 0x28, 0x00, 0x10, 0x00, 0x00, 0x00, 0x00, 0x00, 0x00,
         0x00, 0x00, 0x00] hdmi0) = Inr ()
   \<and> trace (snd (dw_hdmi_qp_config_avi_infoframe sample_pkt_h
        [0x82, 0x02, 0x0d, 0x5b, 0x40, 0x28, 0x00, 0x10, 0x00, 0x00, 0x00, 0x00, 0x00, 0x00,
         0x00, 0x00, 0x00] hdmi0)) =
       [RegWrite 0xa40 0x0d0200, RegWrite 0xa44 0x0028405b, RegWrite 0xa48 0x00000010,
        RegWrite 0xa4c 0, RegWrite 0xa50 0,
        RegMod 0xa04 0x1000 0, RegMod 0xaa8 0x2008 0x2008]
   \<and> dw_hdmi_qp_config_avi_infoframe sample_pkt_h [0x82, 0x02, 0x0d] hdmi0
       = (Inl EINVAL, hdmi0)"
proof -
  have size: "17 \<le> HDMI_INFOFRAME_SIZE_AVI sample_pkt_h"
    by (simp add: sample_pkt_h_def)
  note inst = avi_infoframe_encode [OF size surjective_pairing]
  from size
    inst [of "[0x82, 0x02, 0x0d, 0x5b, 0x40, 0x28, 0x00, 0x10, 0x00, 0x00, 0x00, 0x00, 0x00, 0x00,
         0x00, 0x00, 0x00]" hdmi0]
    inst [of "[0x82, 0x02, 0x0d]" hdmi0]
  show ?thesis
    by (simp add: sample_pkt_h_def hdmi0_def prod_eq_iff)
qed

subsection \<open>The DRM infoframe\<close>

lemma drm_words_step:
  assumes "buf_at buffer 2 = Some n" and "i \<le> unat n" and "buf_at buffer (3 + i) = Some b"
  shows "drm_words K buffer i val s =
     drm_words K buffer (Suc i)
       ((if i mod 4 = 0 then ucast b else val) OR push_bit ((i mod 4) * 8) (ucast b))
       (if i mod 4 = 3 \<or> i = unat n
        then dw_hdmi_qp_write
               ((if i mod 4 = 0 then ucast b else val) OR push_bit ((i mod 4) * 8) (ucast b))
               (PKT_DRMI_CONTENTS1 K + of_nat ((i div 4) * 4)) s
        else s)"
  using assms by (subst drm_words.simps) (simp add: Let_def split del: if_split)

lemma drm_words_stop:
  assumes "buf_at buffer 2 = Some n" and "\<not> i \<le> unat n"
  shows "drm_words K buffer i val s = (Inr (), s)"
  using assms by (subst drm_words.simps) simp

lemma drm_words_fault:
  assumes "buf_at buffer 2 = Some n" and "i \<le> unat n" and "buf_at buffer (3 + i) = None"
  shows "drm_words K buffer i val s = (Inl OutOfBounds, s)"
  using assms by (subst drm_words.simps) simp

text \<open>The loop fails exactly when the last index it is to read lies behind the buffer.\<close>

lemma drm_words_result:
  assumes n: "buf_at buffer 2 = Some n"
  shows "fst (drm_words K buffer i val s) =
     (if i \<le> unat n \<and> length buffer \<le> 3 + unat n then Inl OutOfBounds else Inr ())"
proof (induction "Suc (unat n) - i" arbitrary: i val s)
  case 0
  then have "\<not> i \<le> unat n" by simp
  from drm_words_stop [OF n this] this show ?case by simp
next
  case (Suc k)
  then have le: "i \<le> unat n" and k: "k = Suc (unat n) - Suc i" by simp_all
  note IH = Suc.hyps(1) [OF k]
  show ?case
  proof (cases "buf_at buffer (3 + i)")
    case None
    then have "length buffer \<le> 3 + i" by (simp add: buf_at_def split: if_splits)
    with le drm_words_fault [OF n le None] show ?thesis by simp
  next
    case (Some b)
    then have lt: "3 + i < length buffer" by (simp add: buf_at_def split: if_splits)
    from drm_words_step [OF n le Some]
    obtain v2 s1 where "drm_words K buffer i val s = drm_words K buffer (Suc i) v2 s1"
      by blast
    with IH [of v2 s1] le lt show ?thesis by auto
  qed
qed

lemma Suc_div4:
  "i mod 4 = 3 \<Longrightarrow> Suc i div 4 = Suc (i div 4)"
  "i mod 4 \<noteq> 3 \<Longrightarrow> Suc i div 4 = i div 4"
  by presburger+

text \<open>
  From round \<open>i\<close> on, the loop writes one word after the other to the content registers
  from number \<open>i div 4\<close> on, and when it succeeds it has reached number \<open>n div 4\<close>.
\<close>

lemma drm_words_trace:
  assumes n: "buf_at buffer 2 = Some n"
  shows "i \<le> unat n \<Longrightarrow> drm_words K buffer i val s = (r, s') \<Longrightarrow>
     \<exists>vs. trace s' = trace s @
            map (\<lambda>(j, v). RegWrite (PKT_DRMI_CONTENTS1 K + of_nat (j * 4)) v)
              (enumerate (i div 4) vs)
        \<and> (r = Inr () \<longrightarrow> i div 4 + length vs = unat n div 4 + 1)"
proof (induction "Suc (unat n) - i" arbitrary: i val s)
  case 0
  then show ?case by simp
next
  case (Suc k)
  then have le: "i \<le> unat n" and k: "k = Suc (unat n) - Suc i" by simp_all
  note run = Suc.prems(2)
  show ?case
  proof (cases "buf_at buffer (3 + i)")
    case None
    from run drm_words_fault [OF n le None] have "r = Inl OutOfBounds" "s' = s" by simp_all
    then show ?thesis by (intro exI [of _ "[]"]) simp
  next
    case (Some b)
    define v2 where "v2 = (if i mod 4 = 0 then ucast b else val) OR push_bit ((i mod 4) * 8) (ucast b)"
    define s1 where "s1 = (if i mod 4 = 3 \<or> i = unat n
        then dw_hdmi_qp_write v2 (PKT_DRMI_CONTENTS1 K + of_nat ((i div 4) * 4)) s else s)"
    have "drm_words K buffer i val s = drm_words K buffer (Suc i) v2 s1"
      unfolding v2_def s1_def by (rule drm_words_step [OF n le Some])
    with run have rec: "drm_words K buffer (Suc i) v2 s1 = (r, s')"
      by simp
    show ?thesis
    proof (cases "i = unat n")
      case True
      then have "\<not> Suc i \<le> unat n" by simp
      from rec drm_words_stop [OF n this] have "r = Inr ()" "s' = s1" by simp_all
      with True show ?thesis
        by (intro exI [of _ "[v2]"]) (simp add: s1_def dw_hdmi_qp_write_def)
    next
      case False
      with le have le': "Suc i \<le> unat n" by simp
      from Suc.hyps(1) [OF k le' rec] obtain vs where
        vs: "trace s' = trace s1 @
               map (\<lambda>(j, v). RegWrite (PKT_DRMI_CONTENTS1 K + of_nat (j * 4)) v)
                 (enumerate (Suc i div 4) vs)"
          "r = Inr () \<longrightarrow> Suc i div 4 + length vs = unat n div 4 + 1"
        by blast
      show ?thesis
      proof (cases "i mod 4 = 3")
        case True
        with vs show ?thesis
          by (intro exI [of _ "v2 # vs"]) (simp add: s1_def dw_hdmi_qp_write_def Suc_div4)
      next
        case False
        with vs \<open>i \<noteq> unat n\<close> show ?thesis
          by (intro exI [of _ vs]) (simp add: s1_def Suc_div4)
      qed
    qed
  qed
qed

lemma config_drm_unfold:
  assumes len: "length buffer = HDMI_INFOFRAME_SIZE_DRM K" and three: "3 \<le> length buffer"
    and dw: "drm_words K buffer 0
               (push_bit 8 (ucast (buffer ! 1)) OR push_bit 16 (ucast (buffer ! 2)))
               (dw_hdmi_qp_write
                  (push_bit 8 (ucast (buffer ! 1)) OR push_bit 16 (ucast (buffer ! 2)))
                  (PKT_DRMI_CONTENTS0 K)
                  (dw_hdmi_qp_mod 0 (PKTSCHED_DRMI_TX_EN K) (PKTSCHED_PKT_EN K) s)) = (r, s3)"
  shows "dw_hdmi_qp_config_drm_infoframe K buffer s =
     (case r of
        Inl e \<Rightarrow> (Inl e, s3)
      | Inr u \<Rightarrow>
          (Inr (), dw_hdmi_qp_mod (PKTSCHED_DRMI_TX_EN K) (PKTSCHED_DRMI_TX_EN K)
                     (PKTSCHED_PKT_EN K)
                     (dw_hdmi_qp_mod 0 (PKTSCHED_DRMI_FIELDRATE K) (PKTSCHED_PKT_CONFIG1 K) s3)))"
proof -
  from three have b: "buf_at buffer 2 = Some (buffer ! 2)" "buf_at buffer (Suc 0) = Some (buffer ! 1)"
    by (simp_all add: buf_at_def)
  show ?thesis
    using len dw by (simp add: dw_hdmi_qp_config_drm_infoframe_def b Let_def split: sum.splits)
qed

text \<open>
  Claim C4. For a buffer of the DRM wire size (which holds byte index 2), the calls the
  encoder makes are, in this order: the clearing of the DRM transmit-enable bit; the
  write of the control word; writes of body words to the content registers 1, 2, ... one
  after the other; and, only when the encoder succeeds, the clearing of the field-rate
  bit followed by the setting of the transmit-enable bit as the last call. When it
  succeeds it has written as many body words as byte index 2 asks for
  (\<open>buffer[2] div 4 + 1\<close>). So transmit-enable is cleared before the first content
  write and is never set before the last one.
\<close>

theorem drm_infoframe_tx_en_order:
  assumes len: "length buffer = HDMI_INFOFRAME_SIZE_DRM K" and three: "3 \<le> length buffer"
    and run: "dw_hdmi_qp_config_drm_infoframe K buffer s = (ret, s')"
  shows "\<exists>vs. trace s' = trace s @
            [RegMod (PKTSCHED_PKT_EN K) (PKTSCHED_DRMI_TX_EN K) 0,
             RegWrite (PKT_DRMI_CONTENTS0 K)
               (push_bit 8 (ucast (buffer ! 1)) OR push_bit 16 (ucast (buffer ! 2)))] @
            map (\<lambda>(j, v). RegWrite (PKT_DRMI_CONTENTS1 K + of_nat (j * 4)) v) (enumerate 0 vs) @
            (if ret = Inr ()
             then [RegMod (PKTSCHED_PKT_CONFIG1 K) (PKTSCHED_DRMI_FIELDRATE K) 0,
                   RegMod (PKTSCHED_PKT_EN K) (PKTSCHED_DRMI_TX_EN K) (PKTSCHED_DRMI_TX_EN K)]
             else [])
          \<and> (ret = Inr () \<longrightarrow> length vs = unat (buffer ! 2) div 4 + 1)"
proof -
  from three have b2: "buf_at buffer 2 = Some (buffer ! 2)"
    by (simp add: buf_at_def)
  define val :: u32
    where "val = push_bit 8 (ucast (buffer ! 1)) OR push_bit 16 (ucast (buffer ! 2))"
  define s2 where "s2 = dw_hdmi_qp_write val (PKT_DRMI_CONTENTS0 K)
                  (dw_hdmi_qp_mod 0 (PKTSCHED_DRMI_TX_EN K) (PKTSCHED_PKT_EN K) s)"
  obtain r s3 where dw: "drm_words K buffer 0 val s2 = (r, s3)"
    by (cases "drm_words K buffer 0 val s2")
  from drm_words_trace [OF b2 _ dw] obtain vs where
    vs: "trace s3 = trace s2 @
            map (\<lambda>(j, v). RegWrite (PKT_DRMI_CONTENTS1 K + of_nat (j * 4)) v) (enumerate 0 vs)"
      "r = Inr () \<longrightarrow> length vs = unat (buffer ! 2) div 4 + 1"
    by auto
  have tr2: "trace s2 = trace s @ [RegMod (PKTSCHED_PKT_EN K) (PKTSCHED_DRMI_TX_EN K) 0,
             RegWrite (PKT_DRMI_CONTENTS0 K) val]"
    by (simp add: s2_def dw_hdmi_qp_write_def dw_hdmi_qp_mod_def)
  from config_drm_unfold [OF len three dw [unfolded val_def s2_def]] run
  have res: "(ret, s') = (case r of
        Inl e \<Rightarrow> (Inl e, s3)
      | Inr u \<Rightarrow>
          (Inr (), dw_hdmi_qp_mod (PKTSCHED_DRMI_TX_EN K) (PKTSCHED_DRMI_TX_EN K)
                     (PKTSCHED_PKT_EN K)
                     (dw_hdmi_qp_mod 0 (PKTSCHED_DRMI_FIELDRATE K) (PKTSCHED_PKT_CONFIG1 K) s3)))"
    by simp
  show ?thesis
  proof (cases r)
    case (Inl e)
    with res have "ret = Inl e" "s' = s3" by simp_all
    with vs tr2 show ?thesis
      by (intro exI [of _ vs]) (simp add: val_def)
  next
    case (Inr u)
    with res have "ret = Inr ()"
      "s' = dw_hdmi_qp_mod (PKTSCHED_DRMI_TX_EN K) (PKTSCHED_DRMI_TX_EN K)
                     (PKTSCHED_PKT_EN K)
                     (dw_hdmi_qp_mod 0 (PKTSCHED_DRMI_FIELDRATE K) (PKTSCHED_PKT_CONFIG1 K) s3)"
      by simp_all
    with vs tr2 Inr show ?thesis
      by (intro exI [of _ vs]) (simp add: val_def dw_hdmi_qp_mod_def)
  qed
qed

theorem drm_infoframe_tx_en_order_witness:
  "length ([0x87, 0x01, 0x1a, 0x00, 0x01, 0x02, 0x03, 0x04, 0x05, 0x06, 0x07, 0x08, 0x09, 0x0a,
         0x0b, 0x0c, 0x0d, 0x0e, 0x0f, 0x10, 0x11, 0x12, 0x13, 0x14, 0x15, 0x16, 0x17, 0x18,
         0x19, 0x1a] :: u8 list) = HDMI_INFOFRAME_SIZE_DRM sample_pkt_h
   \<and> 3 \<le> length ([0x87, 0x01, 0x1a, 0x00, 0x01, 0x02, 0x03, 0x04, 0x05, 0x06, 0x07, 0x08, 0x09, 0x0a,
         0x0b, 0x0c, 0x0d, 0x0e, 0x0f, 0x10, 0x11, 0x12, 0x13, 0x14, 0x15, 0x16, 0x17, 0x18,
         0x19, 0x1a] :: u8 list)
   \<and> fst (dw_hdmi_qp_config_drm_infoframe sample_pkt_h [0x87, 0x01, 0x1a, 0x00, 0x01, 0x02, 0x03, 0x04, 0x05, 0x06, 0x07, 0x08, 0x09, 0x0a,
         0x0b, 0x0c, 0x0d, 0x0e, 0x0f, 0x10, 0x11, 0x12, 0x13, 0x14, 0x15, 0x16, 0x17, 0x18,
         0x19, 0x1a] hdmi0) = Inr ()
   \<and> trace (snd (dw_hdmi_qp_config_drm_infoframe sample_pkt_h [0x87, 0x01, 0x1a, 0x00, 0x01, 0x02, 0x03, 0x04, 0x05, 0x06, 0x07, 0x08, 0x09, 0x0a,
         0x0b, 0x0c, 0x0d, 0x0e, 0x0f, 0x10, 0x11, 0x12, 0x13, 0x14, 0x15, 0x16, 0x17, 0x18,
         0x19, 0x1a] hdmi0)) =
       [RegMod 0xaa8 0x4000000 0, RegWrite 0xba0 0x1a0100,
        RegWrite 0xba4 0x03020100, RegWrite 0xba8 0x07060504, RegWrite 0xbac 0x0b0a0908,
        RegWrite 0xbb0 0x0f0e0d0c, RegWrite 0xbb4 0x13121110, RegWrite 0xbb8 0x17161514,
        RegWrite 0xbbc 0x001a1918,
        RegMod 0xa04 0x4000 0, RegMod 0xaa8 0x4000000 0x4000000]"
  using drm_infoframe_tx_en_order [of "[0x87, 0x01, 0x1a, 0x00, 0x01, 0x02, 0x03, 0x04, 0x05, 0x06, 0x07, 0x08, 0x09, 0x0a,
         0x0b, 0x0c, 0x0d, 0x0e, 0x0f, 0x10, 0x11, 0x12, 0x13, 0x14, 0x15, 0x16, 0x17, 0x18,
         0x19, 0x1a]" sample_pkt_h hdmi0, OF _ _ surjective_pairing]
  by (simp add: dw_hdmi_qp_config_drm_infoframe_def drm_words.simps buf_at_def
      dw_hdmi_qp_write_def dw_hdmi_qp_mod_def Let_def sample_pkt_h_def hdmi0_def)

text \<open>
  Claim C10. For a buffer that passes the length check of the DRM encoder (and holds byte
  index 2), the body-packing loop reads the indices 3 to \<open>3 + buffer[2]\<close>; the encoder
  gets through without a read behind the buffer exactly when
  \<open>buffer[2] + 4 \<le> length\<close>, and otherwise it reads out of bounds. The length check does
  not refuse such a buffer: the result is never \<open>EINVAL\<close> here.
\<close>

theorem drm_infoframe_in_bounds_iff:
  assumes len: "length buffer = HDMI_INFOFRAME_SIZE_DRM K" and three: "3 \<le> length buffer"
  shows "(fst (dw_hdmi_qp_config_drm_infoframe K buffer s) = Inr ()
            \<longleftrightarrow> unat (buffer ! 2) + 4 \<le> length buffer)
       \<and> (fst (dw_hdmi_qp_config_drm_infoframe K buffer s) = Inl OutOfBounds
            \<longleftrightarrow> \<not> unat (buffer ! 2) + 4 \<le> length buffer)
       \<and> fst (dw_hdmi_qp_config_drm_infoframe K buffer s) \<noteq> Inl EINVAL"
proof -
  from three have b2: "buf_at buffer 2 = Some (buffer ! 2)"
    by (simp add: buf_at_def)
  obtain r s3 where dw: "drm_words K buffer 0
               (push_bit 8 (ucast (buffer ! 1)) OR push_bit 16 (ucast (buffer ! 2)))
               (dw_hdmi_qp_write
                  (push_bit 8 (ucast (buffer ! 1)) OR push_bit 16 (ucast (buffer ! 2)))
                  (PKT_DRMI_CONTENTS0 K)
                  (dw_hdmi_qp_mod 0 (PKTSCHED_DRMI_TX_EN K) (PKTSCHED_PKT_EN K) s)) = (r, s3)"
    by (cases "drm_words K buffer 0
               (push_bit 8 (ucast (buffer ! 1)) OR push_bit 16 (ucast (buffer ! 2)))
               (dw_hdmi_qp_write
                  (push_bit 8 (ucast (buffer ! 1)) OR push_bit 16 (ucast (buffer ! 2)))
                  (PKT_DRMI_CONTENTS0 K)
                  (dw_hdmi_qp_mod 0 (PKTSCHED_DRMI_TX_EN K) (PKTSCHED_PKT_EN K) s))")
  from drm_words_result [OF b2, of K 0 _ _] dw
  have r: "r = (if length buffer \<le> 3 + unat (buffer ! 2) then Inl OutOfBounds else Inr ())"
    by (metis fst_conv zero_le)
  show ?thesis
    unfolding config_drm_unfold [OF len three dw] r by auto
qed

theorem drm_infoframe_in_bounds_iff_witness:
  "length ([0x87, 0x01, 0x1a, 0x00, 0x01, 0x02, 0x03, 0x04, 0x05, 0x06, 0x07, 0x08, 0x09, 0x0a,
         0x0b, 0x0c, 0x0d, 0x0e, 0x0f, 0x10, 0x11, 0x12, 0x13, 0x14, 0x15, 0x16, 0x17, 0x18,
         0x19, 0x1a] :: u8 list) = HDMI_INFOFRAME_SIZE_DRM sample_pkt_h
   \<and> 3 \<le> length ([0x87, 0x01, 0x1a, 0x00, 0x01, 0x02, 0x03, 0x04, 0x05, 0x06, 0x07, 0x08, 0x09, 0x0a,
         0x0b, 0x0c, 0x0d, 0x0e, 0x0f, 0x10, 0x11, 0x12, 0x13, 0x14, 0x15, 0x16, 0x17, 0x18,
         0x19, 0x1a] :: u8 list)
   \<and> fst (dw_hdmi_qp_config_drm_infoframe sample_pkt_h [0x87, 0x01, 0x1a, 0x00, 0x01, 0x02, 0x03, 0x04, 0x05, 0x06, 0x07, 0x08, 0x09, 0x0a,
         0x0b, 0x0c, 0x0d, 0x0e, 0x0f, 0x10, 0x11, 0x12, 0x13, 0x14, 0x15, 0x16, 0x17, 0x18,
         0x19, 0x1a] hdmi0) = Inr ()
   \<and> length ([0x87, 0x01, 0x1b, 0x00, 0x01, 0x02, 0x03, 0x04, 0x05, 0x06, 0x07, 0x08, 0x09, 0x0a,
         0x0b, 0x0c, 0x0d, 0x0e, 0x0f, 0x10, 0x11, 0x12, 0x13, 0x14, 0x15, 0x16, 0x17, 0x18,
         0x19, 0x1a] :: u8 list) = HDMI_INFOFRAME_SIZE_DRM sample_pkt_h
   \<and> fst (dw_hdmi_qp_config_drm_infoframe sample_pkt_h [0x87, 0x01, 0x1b, 0x00, 0x01, 0x02, 0x03, 0x04, 0x05, 0x06, 0x07, 0x08, 0x09, 0x0a,
         0x0b, 0x0c, 0x0d, 0x0e, 0x0f, 0x10, 0x11, 0x12, 0x13, 0x14, 0x15, 0x16, 0x17, 0x18,
         0x19, 0x1a] hdmi0) = Inl OutOfBounds"
  using drm_infoframe_in_bounds_iff [of "[0x87, 0x01, 0x1a, 0x00, 0x01, 0x02, 0x03, 0x04, 0x05, 0x06, 0x07, 0x08, 0x09, 0x0a,
         0x0b, 0x0c, 0x0d, 0x0e, 0x0f, 0x10, 0x11, 0x12, 0x13, 0x14, 0x15, 0x16, 0x17, 0x18,
         0x19, 0x1a]" sample_pkt_h hdmi0]
    drm_infoframe_in_bounds_iff [of "[0x87, 0x01, 0x1b, 0x00, 0x01, 0x02, 0x03, 0x04, 0x05, 0x06, 0x07, 0x08, 0x09, 0x0a,
         0x0b, 0x0c, 0x0d, 0x0e, 0x0f, 0x10, 0x11, 0x12, 0x13, 0x14, 0x15, 0x16, 0x17, 0x18,
         0x19, 0x1a]" sample_pkt_h hdmi0]
  by (simp add: sample_pkt_h_def)

section \<open>Byte operations of the I2C master\<close>

lemma wait_outcome:
  "(\<exists>s1. wait_for_completion_timeout K t s = (False, s1)
        \<and> trace s1 = trace s @ [Wait t TimedOut] \<and> i2c s1 = i2c s)
   \<or> (\<exists>s1 st d. wait_for_completion_timeout K t s = (True, s1)
        \<and> trace s1 = trace s @ [Wait t (Completed st d)] \<and> i2c s1 = (i2c s)\<lparr>stat := st\<rparr>
        \<and> regm s1 (I2CM_INTERFACE_RDDATA_0_3 K) = d)"
  by (simp add: wait_for_completion_timeout_def split: list.split wait_result.split)

lemma write_strobe_facts:
  "trace (write_strobe K b s) = trace s @ [RegWrite (I2CM_INTERFACE_WRDATA_0_3 K) (ucast b),
       RegMod (I2CM_INTERFACE_CONTROL0 K) (I2CM_ADDR K) (push_bit 12 (ucast (slave_reg (i2c s)))),
       RegMod (I2CM_INTERFACE_CONTROL0 K) (I2CM_WR_MASK K) (I2CM_FM_WRITE K)]"
  "slave_reg (i2c (write_strobe K b s)) = slave_reg (i2c s) + 1"
  "is_regaddr (i2c (write_strobe K b s)) = is_regaddr (i2c s)"
  "is_segment (i2c (write_strobe K b s)) = is_segment (i2c s)"
  by (simp_all add: write_strobe_def dw_hdmi_qp_mod_def dw_hdmi_qp_write_def reinit_completion_def Let_def)

lemma i2c_write_loop_Cons:
  "i2c_write_loop K (b # bs) s =
     (case wait_for_completion_timeout K (HZ K div 10) (write_strobe K b s) of
        (completed, s5) \<Rightarrow>
          if \<not> completed then (Inl EAGAIN, dw_hdmi_qp_write 0x01 (I2CM_CONTROL0 K) s5)
          else if ucast (stat (i2c s5)) AND I2CM_NACK_RCVD_IRQ K \<noteq> 0
          then (Inl EIO, dw_hdmi_qp_write 0x01 (I2CM_CONTROL0 K) s5)
          else i2c_write_loop K bs
                 (dw_hdmi_qp_mod 0 (I2CM_WR_MASK K) (I2CM_INTERFACE_CONTROL0 K) s5))"
  by (simp add: write_strobe_def Let_def)

lemma reg_access_facts:
  "trace (dw_hdmi_qp_write v r s) = trace s @ [RegWrite r v]"
  "i2c (dw_hdmi_qp_write v r s) = i2c s"
  "trace (dw_hdmi_qp_mod d m r s) = trace s @ [RegMod r m d]"
  "i2c (dw_hdmi_qp_mod d m r s) = i2c s"
  by (simp_all add: dw_hdmi_qp_write_def dw_hdmi_qp_mod_def)

lemma read_strobe_facts:
  "trace (read_strobe K s) = trace s @
      [RegMod (I2CM_INTERFACE_CONTROL0 K) (I2CM_ADDR K) (push_bit 12 (ucast (slave_reg (i2c s)))),
       RegMod (I2CM_INTERFACE_CONTROL0 K) (I2CM_WR_MASK K)
         (if is_segment (i2c s) then I2CM_EXT_READ K else I2CM_FM_READ K)]"
  "slave_reg (i2c (read_strobe K s)) = slave_reg (i2c s) + 1"
  "is_regaddr (i2c (read_strobe K s)) = is_regaddr (i2c s)"
  "is_segment (i2c (read_strobe K s)) = is_segment (i2c s)"
  by (simp_all add: read_strobe_def dw_hdmi_qp_mod_def reinit_completion_def Let_def)

lemma i2c_read_loop_Suc:
  "i2c_read_loop K (Suc n) s =
     (case wait_for_completion_timeout K (HZ K div 10) (read_strobe K s) of
        (completed, s4) \<Rightarrow>
          if \<not> completed then (Inl EAGAIN, [], dw_hdmi_qp_write 0x01 (I2CM_CONTROL0 K) s4)
          else if ucast (stat (i2c s4)) AND I2CM_NACK_RCVD_IRQ K \<noteq> 0
          then (Inl EIO, [], dw_hdmi_qp_write 0x01 (I2CM_CONTROL0 K) s4)
          else (case i2c_read_loop K n
                       (dw_hdmi_qp_mod 0 (I2CM_WR_MASK K) (I2CM_INTERFACE_CONTROL0 K) s4) of
                  (ret, bs, s6) \<Rightarrow>
                    (ret, ucast (dw_hdmi_qp_read (I2CM_INTERFACE_RDDATA_0_3 K) s4 AND 0xff) # bs, s6)))"
  by (simp add: read_strobe_def Let_def split: prod.splits)

subsection \<open>Runs of events\<close>

lemma byte_ops_ok_append:
  assumes "byte_ops_ok K e a" and "byte_ops_ok K e b"
  shows "byte_ops_ok K e (a @ b)"
  unfolding byte_ops_ok_def
proof (intro allI impI)
  fix i assume i: "i < length (a @ b)"
  show "(\<forall>t r. (a @ b) ! i = Wait t r \<longrightarrow> t = HZ K div 10)
      \<and> (\<forall>t. (a @ b) ! i = Wait t TimedOut \<longrightarrow>
           Suc i < length (a @ b) \<and> (a @ b) ! Suc i = RegWrite (I2CM_CONTROL0 K) 0x01 \<and> e = Some EAGAIN)
      \<and> (\<forall>t st d. (a @ b) ! i = Wait t (Completed st d) \<longrightarrow>
           Suc i < length (a @ b) \<and>
           (if ucast st AND I2CM_NACK_RCVD_IRQ K \<noteq> 0
            then (a @ b) ! Suc i = RegWrite (I2CM_CONTROL0 K) 0x01 \<and> e = Some EIO
            else (a @ b) ! Suc i = RegMod (I2CM_INTERFACE_CONTROL0 K) (I2CM_WR_MASK K) 0))"
  proof (cases "i < length a")
    case True
    with assms(1) show ?thesis
      unfolding byte_ops_ok_def by (auto simp: nth_append)
  next
    case False
    with i have j: "i - length a < length b" by simp
    from False have "(a @ b) ! i = b ! (i - length a)" "(a @ b) ! Suc i = b ! Suc (i - length a)"
      by (simp_all add: nth_append Suc_diff_le)
    with assms(2) [unfolded byte_ops_ok_def, rule_format, OF j] False show ?thesis
      by auto
  qed
qed

lemma ops_framed_append:
  assumes "ops_framed K a" and "ops_framed K b"
  shows "ops_framed K (a @ b)"
  unfolding ops_framed_def
proof (intro allI impI)
  fix i assume i: "i < length (a @ b)"
  show "(\<forall>t r. (a @ b) ! i = Wait t r \<longrightarrow>
           0 < i \<and> (\<exists>v. (a @ b) ! (i - 1) = RegMod (I2CM_INTERFACE_CONTROL0 K) (I2CM_WR_MASK K) v
                    \<and> (v = I2CM_FM_READ K \<or> v = I2CM_EXT_READ K \<or> v = I2CM_FM_WRITE K)))
      \<and> (wr_distinct K \<longrightarrow>
           (\<forall>b'. (a @ b) ! i = RegWrite (I2CM_INTERFACE_WRDATA_0_3 K) b' \<longrightarrow>
              i + 3 < length (a @ b)
              \<and> (\<exists>x. (a @ b) ! (i + 1) = RegMod (I2CM_INTERFACE_CONTROL0 K) (I2CM_ADDR K) x)
              \<and> (a @ b) ! (i + 2) = RegMod (I2CM_INTERFACE_CONTROL0 K) (I2CM_WR_MASK K) (I2CM_FM_WRITE K)
              \<and> (\<exists>t r. (a @ b) ! (i + 3) = Wait t r)))"
  proof (cases "i < length a")
    case True
    with assms(1) [unfolded ops_framed_def, rule_format, OF True] show ?thesis
      by (auto simp: nth_append)
  next
    case False
    with i have j: "i - length a < length b" by simp
    from False have ij: "i = length a + (i - length a)" by simp
    have eq: "(a @ b) ! i = b ! (i - length a)"
      "(a @ b) ! (i + 1) = b ! (i - length a + 1)"
      "(a @ b) ! (i + 2) = b ! (i - length a + 2)"
      "(a @ b) ! (i + 3) = b ! (i - length a + 3)"
      by (subst ij, simp only: add.assoc nth_append_length_plus)+
    have prev: "(a @ b) ! (i - 1) = b ! (i - length a - 1)" if "0 < i - length a"
    proof -
      from that have "i - 1 = length a + (i - length a - 1)" by arith
      then show ?thesis by (simp only: nth_append_length_plus)
    qed
    from assms(2) [unfolded ops_framed_def, rule_format, OF j] False eq prev show ?thesis
      by auto
  qed
qed

lemma no_wait_hd_append:
  "no_wait_hd a \<Longrightarrow> a \<noteq> [] \<or> no_wait_hd b \<Longrightarrow> no_wait_hd (a @ b)"
  by (cases a) (auto simp: no_wait_hd_def)

lemma good_run_Nil [simp]: "good_run K e []"
  by (simp add: good_run_def byte_ops_ok_def ops_framed_def no_wait_hd_def)

lemma good_run_append:
  "good_run K e a \<Longrightarrow> good_run K e b \<Longrightarrow> good_run K e (a @ b)"
  by (simp add: good_run_def byte_ops_ok_append ops_framed_append no_wait_hd_append)

lemma byte_ops_ok_weaken:
  assumes "byte_ops_ok K None new"
  shows "byte_ops_ok K e new"
  unfolding byte_ops_ok_def
proof (intro allI impI)
  fix i assume i: "i < length new"
  note h = assms [unfolded byte_ops_ok_def, rule_format, OF i]
  from h have a: "\<forall>t r. new ! i = Wait t r \<longrightarrow> t = HZ K div 10"
    by blast
  from h have b: "\<forall>t. new ! i = Wait t TimedOut \<longrightarrow>
           Suc i < length new \<and> new ! Suc i = RegWrite (I2CM_CONTROL0 K) 0x01 \<and> e = Some EAGAIN"
    by simp
  have c: "\<forall>t st d. new ! i = Wait t (Completed st d) \<longrightarrow>
           Suc i < length new \<and>
           (if ucast st AND I2CM_NACK_RCVD_IRQ K \<noteq> 0
            then new ! Suc i = RegWrite (I2CM_CONTROL0 K) 0x01 \<and> e = Some EIO
            else new ! Suc i = RegMod (I2CM_INTERFACE_CONTROL0 K) (I2CM_WR_MASK K) 0)"
  proof (intro allI impI)
    fix t st d assume w: "new ! i = Wait t (Completed st d)"
    from h have "Suc i < length new \<and>
           (if ucast st AND I2CM_NACK_RCVD_IRQ K \<noteq> 0
            then new ! Suc i = RegWrite (I2CM_CONTROL0 K) 0x01 \<and> None = Some EIO
            else new ! Suc i = RegMod (I2CM_INTERFACE_CONTROL0 K) (I2CM_WR_MASK K) 0)"
      using w by blast
    then show "Suc i < length new \<and>
           (if ucast st AND I2CM_NACK_RCVD_IRQ K \<noteq> 0
            then new ! Suc i = RegWrite (I2CM_CONTROL0 K) 0x01 \<and> e = Some EIO
            else new ! Suc i = RegMod (I2CM_INTERFACE_CONTROL0 K) (I2CM_WR_MASK K) 0)"
      by (simp split: if_splits)
  qed
  from a b c show "(\<forall>t r. new ! i = Wait t r \<longrightarrow> t = HZ K div 10)
      \<and> (\<forall>t. new ! i = Wait t TimedOut \<longrightarrow>
           Suc i < length new \<and> new ! Suc i = RegWrite (I2CM_CONTROL0 K) 0x01 \<and> e = Some EAGAIN)
      \<and> (\<forall>t st d. new ! i = Wait t (Completed st d) \<longrightarrow>
           Suc i < length new \<and>
           (if ucast st AND I2CM_NACK_RCVD_IRQ K \<noteq> 0
            then new ! Suc i = RegWrite (I2CM_CONTROL0 K) 0x01 \<and> e = Some EIO
            else new ! Suc i = RegMod (I2CM_INTERFACE_CONTROL0 K) (I2CM_WR_MASK K) 0))"
    by (intro conjI)
qed

lemma good_run_weaken:
  assumes "good_run K None new"
  shows "good_run K e new"
  using assms by (simp add: good_run_def byte_ops_ok_weaken)

lemma good_run_mods:
  assumes "\<forall>x\<in>set new. \<exists>r m d. x = RegMod r m d"
  shows "good_run K e new"
proof -
  have "\<exists>r m d. new ! i = RegMod r m d" if "i < length new" for i
    using assms that by (metis nth_mem)
  then have "byte_ops_ok K e new" "ops_framed K new"
    unfolding byte_ops_ok_def ops_framed_def by fastforce+
  moreover have "no_wait_hd new"
    using assms by (cases new) (auto simp: no_wait_hd_def)
  ultimately show ?thesis by (simp add: good_run_def)
qed

lemmas run_defs = good_run_def byte_ops_ok_def ops_framed_def no_wait_hd_def wr_distinct_def

lemma good_run_write_timeout:
  "good_run K (Some EAGAIN)
     [RegWrite (I2CM_INTERFACE_WRDATA_0_3 K) b, RegMod (I2CM_INTERFACE_CONTROL0 K) (I2CM_ADDR K) p,
      RegMod (I2CM_INTERFACE_CONTROL0 K) (I2CM_WR_MASK K) (I2CM_FM_WRITE K),
      Wait (HZ K div 10) TimedOut, RegWrite (I2CM_CONTROL0 K) 0x01]"
  by (auto simp: run_defs less_Suc_eq)

lemma good_run_write_nack:
  assumes "ucast st AND I2CM_NACK_RCVD_IRQ K \<noteq> 0"
  shows "good_run K (Some EIO)
     [RegWrite (I2CM_INTERFACE_WRDATA_0_3 K) b, RegMod (I2CM_INTERFACE_CONTROL0 K) (I2CM_ADDR K) p,
      RegMod (I2CM_INTERFACE_CONTROL0 K) (I2CM_WR_MASK K) (I2CM_FM_WRITE K),
      Wait (HZ K div 10) (Completed st d), RegWrite (I2CM_CONTROL0 K) 0x01]"
  using assms by (auto simp: run_defs less_Suc_eq)

lemma good_run_write_done:
  assumes "ucast st AND I2CM_NACK_RCVD_IRQ K = 0"
  shows "good_run K e
     [RegWrite (I2CM_INTERFACE_WRDATA_0_3 K) b, RegMod (I2CM_INTERFACE_CONTROL0 K) (I2CM_ADDR K) p,
      RegMod (I2CM_INTERFACE_CONTROL0 K) (I2CM_WR_MASK K) (I2CM_FM_WRITE K),
      Wait (HZ K div 10) (Completed st d),
      RegMod (I2CM_INTERFACE_CONTROL0 K) (I2CM_WR_MASK K) 0]"
  using assms by (auto simp: run_defs less_Suc_eq)

lemma good_run_read_timeout:
  assumes "v = I2CM_FM_READ K \<or> v = I2CM_EXT_READ K"
  shows "good_run K (Some EAGAIN)
     [RegMod (I2CM_INTERFACE_CONTROL0 K) (I2CM_ADDR K) p,
      RegMod (I2CM_INTERFACE_CONTROL0 K) (I2CM_WR_MASK K) v,
      Wait (HZ K div 10) TimedOut, RegWrite (I2CM_CONTROL0 K) 0x01]"
  using assms by (auto simp: run_defs less_Suc_eq)

lemma good_run_read_nack:
  assumes "v = I2CM_FM_READ K \<or> v = I2CM_EXT_READ K"
    and "ucast st AND I2CM_NACK_RCVD_IRQ K \<noteq> 0"
  shows "good_run K (Some EIO)
     [RegMod (I2CM_INTERFACE_CONTROL0 K) (I2CM_ADDR K) p,
      RegMod (I2CM_INTERFACE_CONTROL0 K) (I2CM_WR_MASK K) v,
      Wait (HZ K div 10) (Completed st d), RegWrite (I2CM_CONTROL0 K) 0x01]"
  using assms by (auto simp: run_defs less_Suc_eq)

lemma good_run_read_done:
  assumes "v = I2CM_FM_READ K \<or> v = I2CM_EXT_READ K"
    and "ucast st AND I2CM_NACK_RCVD_IRQ K = 0"
  shows "good_run K e
     [RegMod (I2CM_INTERFACE_CONTROL0 K) (I2CM_ADDR K) p,
      RegMod (I2CM_INTERFACE_CONTROL0 K) (I2CM_WR_MASK K) v,
      Wait (HZ K div 10) (Completed st d),
      RegMod (I2CM_INTERFACE_CONTROL0 K) (I2CM_WR_MASK K) 0]"
  using assms by (auto simp: run_defs less_Suc_eq)

lemma rd_bytes_Nil [simp]: "rd_bytes K [] = []" "rd_bytes K [x] = []"
  by (simp_all add: rd_bytes_def)

lemma rd_bytes_Cons2:
  "rd_bytes K (x # y # zs) =
     [ucast (d AND 0xff). (RegMod r mk v, Wait t (Completed st d)) \<leftarrow> [(x, y)],
        v \<noteq> I2CM_FM_WRITE K, ucast st AND I2CM_NACK_RCVD_IRQ K = 0] @ rd_bytes K (y # zs)"
  by (simp add: rd_bytes_def)

lemma rd_bytes_append:
  "no_wait_hd b \<Longrightarrow> rd_bytes K (a @ b) = rd_bytes K a @ rd_bytes K b"
proof (induction a rule: induct_list012)
  case 1
  then show ?case by simp
next
  case (2 x)
  show ?case
  proof (cases b)
    case Nil
    then show ?thesis by simp
  next
    case (Cons y ys)
    with 2 have "\<forall>t r. y \<noteq> Wait t r" by (simp add: no_wait_hd_def)
    then show ?thesis unfolding Cons
      by (cases y) (simp_all add: rd_bytes_Cons2 split: event.splits)
  qed
next
  case (3 x y zs)
  then show ?case by (simp add: rd_bytes_Cons2)
qed

lemma rd_bytes_mods:
  assumes "\<forall>x\<in>set new. \<exists>r m d. x = RegMod r m d"
  shows "rd_bytes K new = []"
  using assms
proof (induction new rule: induct_list012)
  case (3 x y zs)
  then show ?case by (auto simp: rd_bytes_Cons2)
qed simp_all

lemma wr_bytes_Nil [simp]: "wr_bytes K [] = []"
  by (simp add: wr_bytes_def)

lemma wr_bytes_append [simp]: "wr_bytes K (a @ b) = wr_bytes K a @ wr_bytes K b"
  by (simp add: wr_bytes_def)

lemma wr_bytes_mods:
  assumes "\<forall>x\<in>set new. \<exists>r m d. x = RegMod r m d"
  shows "wr_bytes K new = []"
  using assms by (induction new) (auto simp: wr_bytes_def)

subsection \<open>The two loops\<close>

text \<open>
  A run of the write loop: the data register is loaded with the first \<open>k\<close> of the
  bytes, all of them when the loop succeeds, and the register pointer advances by \<open>k\<close>.
\<close>

lemma i2c_write_loop_run:
  "i2c_write_loop K bs s = (ret, s') \<Longrightarrow>
     \<exists>new k. trace s' = trace s @ new \<and> good_run K (err_of ret) new
       \<and> rd_bytes K new = [] \<and> k \<le> length bs
       \<and> (wr_distinct K \<longrightarrow> wr_bytes K new = map ucast (take k bs))
       \<and> slave_reg (i2c s') = slave_reg (i2c s) + of_nat k
       \<and> is_regaddr (i2c s') = is_regaddr (i2c s)
       \<and> (ret = Inr () \<longrightarrow> k = length bs)
       \<and> (bs = [] \<longrightarrow> new = [])
       \<and> (bs \<noteq> [] \<longrightarrow> take 2 new = [RegWrite (I2CM_INTERFACE_WRDATA_0_3 K) (ucast (hd bs)),
             RegMod (I2CM_INTERFACE_CONTROL0 K) (I2CM_ADDR K)
               (push_bit 12 (ucast (slave_reg (i2c s))))])"
proof (induction bs arbitrary: s)
  case Nil
  then show ?case by (intro exI [of _ "[]"] exI [of _ 0]) simp
next
  case (Cons b bs)
  note run = Cons.prems [unfolded i2c_write_loop_Cons]
  define p where "p = (push_bit 12 (ucast (slave_reg (i2c s))) :: u32)"
  define seg where "seg r x = [RegWrite (I2CM_INTERFACE_WRDATA_0_3 K) (ucast b),
       RegMod (I2CM_INTERFACE_CONTROL0 K) (I2CM_ADDR K) p,
       RegMod (I2CM_INTERFACE_CONTROL0 K) (I2CM_WR_MASK K) (I2CM_FM_WRITE K),
       Wait (HZ K div 10) r, x]" for r x
  have seg_rd: "rd_bytes K (seg r x) = []" for r x
    by (simp add: seg_def rd_bytes_Cons2 split: wait_result.split)
  have seg_wr: "wr_distinct K \<Longrightarrow> wr_bytes K (seg r (RegWrite (I2CM_CONTROL0 K) 0x01)) = [ucast b]"
    "wr_bytes K (seg r (RegMod (I2CM_INTERFACE_CONTROL0 K) (I2CM_WR_MASK K) 0)) = [ucast b]" for r
    by (simp_all add: seg_def wr_bytes_def wr_distinct_def)
  have seg_hd: "take 2 (seg r x @ rest) = [RegWrite (I2CM_INTERFACE_WRDATA_0_3 K) (ucast b),
       RegMod (I2CM_INTERFACE_CONTROL0 K) (I2CM_ADDR K) p]" for r x rest
    by (simp add: seg_def)
  have trs: "trace (write_strobe K b s) @ [Wait (HZ K div 10) r, x] = trace s @ seg r x" for r x
    by (simp add: seg_def p_def write_strobe_facts)
  from wait_outcome [of K "HZ K div 10" "write_strobe K b s"] show ?case
  proof (elim disjE exE conjE)
    fix s1
    assume w: "wait_for_completion_timeout K (HZ K div 10) (write_strobe K b s) = (False, s1)"
      and tr: "trace s1 = trace (write_strobe K b s) @ [Wait (HZ K div 10) TimedOut]"
      and i: "i2c s1 = i2c (write_strobe K b s)"
    from run w have r: "ret = Inl EAGAIN" "s' = dw_hdmi_qp_write 0x01 (I2CM_CONTROL0 K) s1"
      by simp_all
    have "trace s' = trace s @ seg TimedOut (RegWrite (I2CM_CONTROL0 K) 0x01)"
      using trs [of TimedOut "RegWrite (I2CM_CONTROL0 K) 0x01"] by (simp add: r tr reg_access_facts)
    moreover have "good_run K (err_of ret) (seg TimedOut (RegWrite (I2CM_CONTROL0 K) 0x01))"
      unfolding r seg_def using good_run_write_timeout by simp
    moreover have "slave_reg (i2c s') = slave_reg (i2c s) + of_nat (Suc 0)"
      "is_regaddr (i2c s') = is_regaddr (i2c s)"
      by (simp_all add: r i reg_access_facts write_strobe_facts)
    ultimately show ?thesis
      using seg_rd seg_wr seg_hd [of _ _ "[]"] r(1)
      by (intro exI [of _ "seg TimedOut (RegWrite (I2CM_CONTROL0 K) 0x01)"] exI [of _ "Suc 0"])
        (simp add: p_def)
  next
    fix s1 st d
    assume w: "wait_for_completion_timeout K (HZ K div 10) (write_strobe K b s) = (True, s1)"
      and tr: "trace s1 = trace (write_strobe K b s) @ [Wait (HZ K div 10) (Completed st d)]"
      and i: "i2c s1 = (i2c (write_strobe K b s))\<lparr>stat := st\<rparr>"
    show ?thesis
    proof (cases "ucast st AND I2CM_NACK_RCVD_IRQ K \<noteq> 0")
      case True
      with run w i have r: "ret = Inl EIO" "s' = dw_hdmi_qp_write 0x01 (I2CM_CONTROL0 K) s1"
        by simp_all
      have "trace s' = trace s @ seg (Completed st d) (RegWrite (I2CM_CONTROL0 K) 0x01)"
        using trs [of "Completed st d" "RegWrite (I2CM_CONTROL0 K) 0x01"]
        by (simp add: r tr reg_access_facts)
      moreover have "good_run K (err_of ret) (seg (Completed st d) (RegWrite (I2CM_CONTROL0 K) 0x01))"
        unfolding r seg_def using good_run_write_nack [OF True] by simp
      moreover have "slave_reg (i2c s') = slave_reg (i2c s) + of_nat (Suc 0)"
        "is_regaddr (i2c s') = is_regaddr (i2c s)"
        by (simp_all add: r i reg_access_facts write_strobe_facts)
      ultimately show ?thesis
        using seg_rd seg_wr seg_hd [of _ _ "[]"] r(1)
        by (intro exI [of _ "seg (Completed st d) (RegWrite (I2CM_CONTROL0 K) 0x01)"] exI [of _ "Suc 0"])
          (simp add: p_def)
    next
      case False
      define s2 where "s2 = dw_hdmi_qp_mod 0 (I2CM_WR_MASK K) (I2CM_INTERFACE_CONTROL0 K) s1"
      define sg where "sg = seg (Completed st d) (RegMod (I2CM_INTERFACE_CONTROL0 K) (I2CM_WR_MASK K) 0)"
      from False run w i have "i2c_write_loop K bs s2 = (ret, s')"
        by (simp add: s2_def)
      from Cons.IH [OF this] obtain new k where
        IH: "trace s' = trace s2 @ new" "good_run K (err_of ret) new"
          "rd_bytes K new = []" "k \<le> length bs"
          "wr_distinct K \<longrightarrow> wr_bytes K new = map ucast (take k bs)"
          "slave_reg (i2c s') = slave_reg (i2c s2) + of_nat k"
          "is_regaddr (i2c s') = is_regaddr (i2c s2)"
          "ret = Inr () \<longrightarrow> k = length bs"
        by blast
      have tr2: "trace s2 = trace s @ sg"
        using trs [of "Completed st d" "RegMod (I2CM_INTERFACE_CONTROL0 K) (I2CM_WR_MASK K) 0"]
        by (simp add: s2_def sg_def tr reg_access_facts)
      have i2: "slave_reg (i2c s2) = slave_reg (i2c s) + 1" "is_regaddr (i2c s2) = is_regaddr (i2c s)"
        by (simp_all add: s2_def reg_access_facts write_strobe_facts i)
      have g: "good_run K (err_of ret) sg"
        unfolding sg_def seg_def using good_run_write_done False by simp
      from IH(2) have nw: "no_wait_hd new" by (simp add: good_run_def)
      have "trace s' = trace s @ (sg @ new)" by (simp add: IH tr2)
      moreover have "good_run K (err_of ret) (sg @ new)"
        using g IH(2) by (rule good_run_append)
      moreover have "rd_bytes K (sg @ new) = []"
        using seg_rd IH(3) by (simp add: rd_bytes_append [OF nw] sg_def)
      moreover have "wr_distinct K \<longrightarrow> wr_bytes K (sg @ new) = map ucast (take (Suc k) (b # bs))"
        using seg_wr IH(5) by (simp add: sg_def)
      moreover have "slave_reg (i2c s') = slave_reg (i2c s) + of_nat (Suc k)"
        "is_regaddr (i2c s') = is_regaddr (i2c s)"
        using IH i2 by (simp_all add: algebra_simps)
      moreover have "take 2 (sg @ new) = [RegWrite (I2CM_INTERFACE_WRDATA_0_3 K) (ucast b),
             RegMod (I2CM_INTERFACE_CONTROL0 K) (I2CM_ADDR K)
               (push_bit 12 (ucast (slave_reg (i2c s))))]"
        using seg_hd by (simp add: sg_def p_def)
      moreover have "sg @ new \<noteq> []" by (simp add: sg_def seg_def)
      ultimately show ?thesis
        using IH(4,8) by (intro exI [of _ "sg @ new"] exI [of _ "Suc k"]) simp
    qed
  qed
qed

text \<open>
  A run of the read loop: the bytes it stores are the bytes received, and it loads
  nothing into the write data register.
\<close>

lemma i2c_read_loop_run:
  "i2c_read_loop K n s = (ret, bs, s') \<Longrightarrow>
     \<exists>new. trace s' = trace s @ new \<and> good_run K (err_of ret) new
       \<and> (rw_distinct K \<longrightarrow> rd_bytes K new = bs)
       \<and> (wr_distinct K \<longrightarrow> wr_bytes K new = []) \<and> length bs \<le> n
       \<and> (ret = Inr () \<longrightarrow> length bs = n)
       \<and> is_regaddr (i2c s') = is_regaddr (i2c s)"
proof (induction n arbitrary: s ret bs s')
  case 0
  then show ?case by (intro exI [of _ "[]"]) simp
next
  case (Suc n)
  note run = Suc.prems [unfolded i2c_read_loop_Suc]
  define p where "p = (push_bit 12 (ucast (slave_reg (i2c s))) :: u32)"
  define v where "v = (if is_segment (i2c s) then I2CM_EXT_READ K else I2CM_FM_READ K)"
  have v: "v = I2CM_FM_READ K \<or> v = I2CM_EXT_READ K" "rw_distinct K \<Longrightarrow> v \<noteq> I2CM_FM_WRITE K"
    by (simp_all add: v_def rw_distinct_def)
  define seg where "seg r x = [RegMod (I2CM_INTERFACE_CONTROL0 K) (I2CM_ADDR K) p,
       RegMod (I2CM_INTERFACE_CONTROL0 K) (I2CM_WR_MASK K) v,
       Wait (HZ K div 10) r, x]" for r x
  have seg_rd: "rd_bytes K (seg TimedOut x) = []"
    "rw_distinct K \<Longrightarrow> rd_bytes K (seg (Completed st d) x) =
       (if ucast st AND I2CM_NACK_RCVD_IRQ K = 0 then [ucast (d AND 0xff)] else [])" for x st d
    using v(2) by (simp_all add: seg_def rd_bytes_Cons2)
  have seg_wr: "wr_distinct K \<Longrightarrow> wr_bytes K (seg r (RegWrite (I2CM_CONTROL0 K) 0x01)) = []"
    "wr_bytes K (seg r (RegMod (I2CM_INTERFACE_CONTROL0 K) (I2CM_WR_MASK K) 0)) = []" for r
    by (simp_all add: seg_def wr_bytes_def wr_distinct_def)
  have trs: "trace (read_strobe K s) @ [Wait (HZ K div 10) r, x] = trace s @ seg r x" for r x
    by (simp add: seg_def p_def v_def read_strobe_facts)
  from wait_outcome [of K "HZ K div 10" "read_strobe K s"] show ?case
  proof (elim disjE exE conjE)
    fix s1
    assume w: "wait_for_completion_timeout K (HZ K div 10) (read_strobe K s) = (False, s1)"
      and tr: "trace s1 = trace (read_strobe K s) @ [Wait (HZ K div 10) TimedOut]"
      and i: "i2c s1 = i2c (read_strobe K s)"
    from run w have r: "ret = Inl EAGAIN" "bs = []" "s' = dw_hdmi_qp_write 0x01 (I2CM_CONTROL0 K) s1"
      by simp_all
    have "trace s' = trace s @ seg TimedOut (RegWrite (I2CM_CONTROL0 K) 0x01)"
      using trs [of TimedOut "RegWrite (I2CM_CONTROL0 K) 0x01"] by (simp add: r tr reg_access_facts)
    moreover have "good_run K (err_of ret) (seg TimedOut (RegWrite (I2CM_CONTROL0 K) 0x01))"
      unfolding r seg_def using good_run_read_timeout [OF v(1)] by simp
    moreover have "is_regaddr (i2c s') = is_regaddr (i2c s)"
      by (simp add: r i reg_access_facts read_strobe_facts)
    ultimately show ?thesis
      using seg_rd seg_wr r(1,2)
      by (intro exI [of _ "seg TimedOut (RegWrite (I2CM_CONTROL0 K) 0x01)"]) simp
  next
    fix s1 st d
    assume w: "wait_for_completion_timeout K (HZ K div 10) (read_strobe K s) = (True, s1)"
      and tr: "trace s1 = trace (read_strobe K s) @ [Wait (HZ K div 10) (Completed st d)]"
      and i: "i2c s1 = (i2c (read_strobe K s))\<lparr>stat := st\<rparr>"
      and d: "regm s1 (I2CM_INTERFACE_RDDATA_0_3 K) = d"
    show ?thesis
    proof (cases "ucast st AND I2CM_NACK_RCVD_IRQ K \<noteq> 0")
      case True
      with run w i have r: "ret = Inl EIO" "bs = []" "s' = dw_hdmi_qp_write 0x01 (I2CM_CONTROL0 K) s1"
        by simp_all
      have "trace s' = trace s @ seg (Completed st d) (RegWrite (I2CM_CONTROL0 K) 0x01)"
        using trs [of "Completed st d" "RegWrite (I2CM_CONTROL0 K) 0x01"]
        by (simp add: r tr reg_access_facts)
      moreover have "good_run K (err_of ret) (seg (Completed st d) (RegWrite (I2CM_CONTROL0 K) 0x01))"
        unfolding r seg_def using good_run_read_nack [OF v(1) True] by simp
      moreover have "is_regaddr (i2c s') = is_regaddr (i2c s)"
        by (simp add: r i reg_access_facts read_strobe_facts)
      ultimately show ?thesis
        using seg_rd seg_wr r(1,2) True
        by (intro exI [of _ "seg (Completed st d) (RegWrite (I2CM_CONTROL0 K) 0x01)"]) simp
    next
      case False
      define s2 where "s2 = dw_hdmi_qp_mod 0 (I2CM_WR_MASK K) (I2CM_INTERFACE_CONTROL0 K) s1"
      define sg where "sg = seg (Completed st d) (RegMod (I2CM_INTERFACE_CONTROL0 K) (I2CM_WR_MASK K) 0)"
      obtain ret2 bs2 s6 where rec: "i2c_read_loop K n s2 = (ret2, bs2, s6)"
        by (cases "i2c_read_loop K n s2")
      with False run w i d have r: "ret = ret2" "bs = ucast (d AND 0xff) # bs2" "s' = s6"
        by (simp_all add: s2_def dw_hdmi_qp_read_def)
      from Suc.IH [OF rec] obtain new where
        IH: "trace s6 = trace s2 @ new" "good_run K (err_of ret2) new"
          "rw_distinct K \<longrightarrow> rd_bytes K new = bs2" "wr_distinct K \<longrightarrow> wr_bytes K new = []"
          "length bs2 \<le> n"
          "ret2 = Inr () \<longrightarrow> length bs2 = n"
          "is_regaddr (i2c s6) = is_regaddr (i2c s2)"
        by blast
      have tr2: "trace s2 = trace s @ sg"
        using trs [of "Completed st d" "RegMod (I2CM_INTERFACE_CONTROL0 K) (I2CM_WR_MASK K) 0"]
        by (simp add: s2_def sg_def tr reg_access_facts)
      have i2: "is_regaddr (i2c s2) = is_regaddr (i2c s)"
        by (simp add: s2_def reg_access_facts read_strobe_facts i)
      have g: "good_run K (err_of ret) sg"
        unfolding sg_def seg_def using good_run_read_done [OF v(1)] False by simp
      from IH(2) have nw: "no_wait_hd new" by (simp add: good_run_def)
      have "trace s' = trace s @ (sg @ new)" by (simp add: r IH tr2)
      moreover have "good_run K (err_of ret) (sg @ new)"
        using g IH(2) unfolding r by (rule good_run_append)
      moreover have "rw_distinct K \<longrightarrow> rd_bytes K (sg @ new) = bs"
        using seg_rd IH(3) False by (simp add: rd_bytes_append [OF nw] sg_def r)
      moreover have "wr_distinct K \<longrightarrow> wr_bytes K (sg @ new) = []"
        using seg_wr IH(4) by (simp add: sg_def)
      moreover have "is_regaddr (i2c s') = is_regaddr (i2c s)"
        using IH i2 r by simp
      ultimately show ?thesis
        using IH(5,6) r by (intro exI [of _ "sg @ new"]) simp
    qed
  qed
qed

subsection \<open>The read and the write of a message\<close>

lemma dw_hdmi_qp_i2c_read_run:
  assumes run: "dw_hdmi_qp_i2c_read K n s = (ret, bs, s')"
  shows "\<exists>new. trace s' = trace s @ new \<and> good_run K (err_of ret) new
       \<and> (rw_distinct K \<longrightarrow> rd_bytes K new = bs)
       \<and> (wr_distinct K \<longrightarrow> wr_bytes K new = []) \<and> length bs \<le> n
       \<and> (ret = Inr () \<longrightarrow> length bs = n)
       \<and> is_regaddr (i2c s')"
proof -
  define s1 where "s1 = (if \<not> is_regaddr (i2c s)
                then s\<lparr>i2c := (i2c s)\<lparr>slave_reg := 0x00, is_regaddr := True\<rparr>\<rparr> else s)"
  obtain r2 bs2 s2 where loop: "i2c_read_loop K n s1 = (r2, bs2, s2)"
    by (cases "i2c_read_loop K n s1")
  with run have "ret = r2" "bs = bs2" "trace s' = trace s2" "is_regaddr (i2c s') = is_regaddr (i2c s2)"
    by (auto simp: dw_hdmi_qp_i2c_read_def s1_def Let_def split: sum.splits if_splits)
  moreover have "trace s1 = trace s" "is_regaddr (i2c s1)" by (simp_all add: s1_def)
  ultimately show ?thesis using i2c_read_loop_run [OF loop] by simp
qed

lemma dw_hdmi_qp_i2c_write_run:
  assumes run: "dw_hdmi_qp_i2c_write K bytes s = (ret, s')"
  shows "\<exists>new k. trace s' = trace s @ new \<and> good_run K (err_of ret) new
       \<and> rd_bytes K new = []
       \<and> k \<le> length (if is_regaddr (i2c s) then bytes else tl bytes)
       \<and> (wr_distinct K \<longrightarrow>
            wr_bytes K new = map ucast (take k (if is_regaddr (i2c s) then bytes else tl bytes)))
       \<and> (ret = Inr () \<longrightarrow>
            k = length (if is_regaddr (i2c s) then bytes else tl bytes) \<and> is_regaddr (i2c s'))"
proof (cases "is_regaddr (i2c s)")
  case True
  with run have "i2c_write_loop K bytes s = (ret, s')"
    by (simp add: dw_hdmi_qp_i2c_write_def)
  from i2c_write_loop_run [OF this] True show ?thesis by auto
next
  case False
  show ?thesis
  proof (cases bytes)
    case Nil
    with False run have "ret = Inl OutOfBounds" "s' = s"
      by (simp_all add: dw_hdmi_qp_i2c_write_def)
    then show ?thesis by (intro exI [of _ "[]"] exI [of _ 0]) simp
  next
    case (Cons b bs)
    with False run
    have "i2c_write_loop K bs (s\<lparr>i2c := (i2c s)\<lparr>slave_reg := b, is_regaddr := True\<rparr>\<rparr>) = (ret, s')"
      by (simp add: dw_hdmi_qp_i2c_write_def)
    from i2c_write_loop_run [OF this] False Cons show ?thesis by auto
  qed
qed

text \<open>
  With no register address set, the write of \<open>b # bs\<close> takes \<open>b\<close> for the register
  pointer and sends the bytes of \<open>bs\<close> only.
\<close>

lemma dw_hdmi_qp_i2c_write_first:
  assumes noreg: "\<not> is_regaddr (i2c s)"
    and run: "dw_hdmi_qp_i2c_write K (b # bs) s = (ret, s')"
  shows "\<exists>new k. trace s' = trace s @ new \<and> k \<le> length bs
       \<and> (wr_distinct K \<longrightarrow> wr_bytes K new = map ucast (take k bs))
       \<and> slave_reg (i2c s') = b + of_nat k
       \<and> is_regaddr (i2c s')
       \<and> (ret = Inr () \<longrightarrow> k = length bs)
       \<and> (bs = [] \<longrightarrow> ret = Inr () \<and> new = [])
       \<and> (bs \<noteq> [] \<longrightarrow> take 2 new = [RegWrite (I2CM_INTERFACE_WRDATA_0_3 K) (ucast (hd bs)),
             RegMod (I2CM_INTERFACE_CONTROL0 K) (I2CM_ADDR K) (push_bit 12 (ucast b))])"
proof -
  define s0 where "s0 = s\<lparr>i2c := (i2c s)\<lparr>slave_reg := b, is_regaddr := True\<rparr>\<rparr>"
  from run noreg have loop: "i2c_write_loop K bs s0 = (ret, s')"
    by (simp add: dw_hdmi_qp_i2c_write_def s0_def)
  from i2c_write_loop_run [OF loop] obtain new k where
    *: "trace s' = trace s0 @ new" "k \<le> length bs"
      "wr_distinct K \<longrightarrow> wr_bytes K new = map ucast (take k bs)"
      "slave_reg (i2c s') = slave_reg (i2c s0) + of_nat k"
      "is_regaddr (i2c s') = is_regaddr (i2c s0)"
      "ret = Inr () \<longrightarrow> k = length bs"
      "bs = [] \<longrightarrow> new = []"
      "bs \<noteq> [] \<longrightarrow> take 2 new = [RegWrite (I2CM_INTERFACE_WRDATA_0_3 K) (ucast (hd bs)),
             RegMod (I2CM_INTERFACE_CONTROL0 K) (I2CM_ADDR K)
               (push_bit 12 (ucast (slave_reg (i2c s0))))]"
    by blast
  have "bs = [] \<longrightarrow> ret = Inr ()" using loop by auto
  with * show ?thesis
    by (intro exI [of _ new] exI [of _ k]) (simp add: s0_def)
qed

subsection \<open>The message loop\<close>

lemma wr_payload_Nil [simp]: "wr_payload K g [] = []"
  by (simp add: wr_payload_def)

lemma wr_payload_seg:
  "addr m = ucast DDC_SEGMENT_ADDR \<and> len m = 1 \<Longrightarrow> wr_payload K g (m # ms) = wr_payload K g ms"
  by (simp add: wr_payload_def)

lemma wr_payload_read:
  "\<not> (addr m = ucast DDC_SEGMENT_ADDR \<and> len m = 1) \<Longrightarrow> flags m AND I2C_M_RD K \<noteq> 0 \<Longrightarrow>
   wr_payload K g (m # ms) = wr_payload K True ms"
  by (simp add: wr_payload_def Let_def)

lemma wr_payload_write:
  "\<not> (addr m = ucast DDC_SEGMENT_ADDR \<and> len m = 1) \<Longrightarrow> flags m AND I2C_M_RD K = 0 \<Longrightarrow>
   wr_payload K g (m # ms) =
     (if g then buf m @ wr_payload K True ms else tl (buf m @ wr_payload K True ms))"
  by (simp add: wr_payload_def Let_def)

lemma msg_kept_refl [simp]: "msg_kept K m m"
  by (simp add: msg_kept_def)

lemma msg_kept_rd_msg: "msg_kept K m' m \<Longrightarrow> rd_msg K m' = rd_msg K m"
  by (auto simp: msg_kept_def rd_msg_def len_def)

lemma list_all2_msg_kept_refl [simp]: "list_all2 (msg_kept K) ms ms"
  by (simp add: list_all2_refl)

text \<open>
  A run of the message loop. The messages come back with the bytes received in the
  buffers of the read messages, in the order of the batch, and otherwise as they were; the
  write data register is loaded with the bytes that are due as data, up to the point
  where the loop stops.
\<close>

lemma xfer_msgs_run:
  "xfer_msgs K msgs s = (ret, msgs', s') \<Longrightarrow>
     \<exists>new k. trace s' = trace s @ new \<and> good_run K (err_of ret) new
       \<and> list_all2 (msg_kept K) msgs' msgs
       \<and> (rw_distinct K \<longrightarrow> concat (map buf (filter (rd_msg K) msgs')) =
           rd_bytes K new @ drop (length (rd_bytes K new)) (concat (map buf (filter (rd_msg K) msgs))))
       \<and> k \<le> length (wr_payload K (is_regaddr (i2c s)) msgs)
       \<and> (wr_distinct K \<longrightarrow>
            wr_bytes K new = map ucast (take k (wr_payload K (is_regaddr (i2c s)) msgs)))
       \<and> (ret = Inr () \<longrightarrow> k = length (wr_payload K (is_regaddr (i2c s)) msgs))"
proof (induction msgs arbitrary: s ret msgs' s')
  case Nil
  then show ?case by (intro exI [of _ "[]"] exI [of _ 0]) simp
next
  case (Cons m ms)
  show ?case
  proof (cases "addr m = ucast DDC_SEGMENT_ADDR \<and> len m = 1")
    case True
    define pre where "pre =
       [RegMod (I2CM_INTERFACE_CONTROL1 K) (I2CM_SEG_ADDR K) (ucast DDC_SEGMENT_ADDR),
        RegMod (I2CM_INTERFACE_CONTROL1 K) (I2CM_SEG_PTR K) (push_bit 7 (ucast (buf m ! 0)))]"
    define s3 where "s3 = dw_hdmi_qp_mod (push_bit 7 (ucast (buf m ! 0))) (I2CM_SEG_PTR K)
                    (I2CM_INTERFACE_CONTROL1 K)
                    (dw_hdmi_qp_mod (ucast DDC_SEGMENT_ADDR) (I2CM_SEG_ADDR K)
                    (I2CM_INTERFACE_CONTROL1 K) (s\<lparr>i2c := (i2c s)\<lparr>is_segment := True\<rparr>\<rparr>))"
    obtain r2 ms2 s4 where rec: "xfer_msgs K ms s3 = (r2, ms2, s4)"
      by (cases "xfer_msgs K ms s3")
    with True Cons.prems have r: "ret = r2" "s' = s4" "msgs' = m # ms2"
      by (simp_all add: s3_def Let_def)
    have s3: "trace s3 = trace s @ pre" "is_regaddr (i2c s3) = is_regaddr (i2c s)"
      by (simp_all add: s3_def pre_def reg_access_facts)
    from Cons.IH [OF rec] obtain new k where
      IH: "trace s4 = trace s3 @ new" "good_run K (err_of r2) new"
        "list_all2 (msg_kept K) ms2 ms"
        "rw_distinct K \<longrightarrow> concat (map buf (filter (rd_msg K) ms2)) =
           rd_bytes K new @ drop (length (rd_bytes K new)) (concat (map buf (filter (rd_msg K) ms)))"
        "k \<le> length (wr_payload K (is_regaddr (i2c s3)) ms)"
        "wr_distinct K \<longrightarrow> wr_bytes K new = map ucast (take k (wr_payload K (is_regaddr (i2c s3)) ms))"
        "r2 = Inr () \<longrightarrow> k = length (wr_payload K (is_regaddr (i2c s3)) ms)"
      by blast
    from IH(2) have nw: "no_wait_hd new" by (simp add: good_run_def)
    have mods: "\<forall>x\<in>set pre. \<exists>r m d. x = RegMod r m d" by (simp add: pre_def)
    have nrd: "\<not> rd_msg K m" using True by (simp add: rd_msg_def)
    have "trace s' = trace s @ (pre @ new)" by (simp add: r IH s3)
    moreover have "good_run K (err_of ret) (pre @ new)"
      unfolding r using good_run_mods [OF mods] IH(2) by (rule good_run_append)
    moreover have "rd_bytes K (pre @ new) = rd_bytes K new"
      by (simp add: rd_bytes_append [OF nw] rd_bytes_mods [OF mods])
    moreover have "wr_bytes K (pre @ new) = wr_bytes K new"
      by (simp add: wr_bytes_mods [OF mods])
    moreover have "wr_payload K (is_regaddr (i2c s)) (m # ms) = wr_payload K (is_regaddr (i2c s3)) ms"
      using True by (simp add: wr_payload_seg s3)
    ultimately show ?thesis
      using IH(3-7) nrd r
      by (intro exI [of _ "pre @ new"] exI [of _ k]) simp
  next
    case notseg: False
    show ?thesis
    proof (cases "flags m AND I2C_M_RD K \<noteq> 0")
      case True
      then have rd: "rd_msg K m" using notseg by (simp add: rd_msg_def)
      have pl: "wr_payload K g (m # ms) = wr_payload K True ms" for g
        using notseg True by (rule wr_payload_read)
      obtain r1 bs s1 where rdr: "dw_hdmi_qp_i2c_read K (len m) s = (r1, bs, s1)"
        by (cases "dw_hdmi_qp_i2c_read K (len m) s")
      from dw_hdmi_qp_i2c_read_run [OF rdr] obtain new1 where
        n1: "trace s1 = trace s @ new1" "good_run K (err_of r1) new1"
          "rw_distinct K \<longrightarrow> rd_bytes K new1 = bs" "wr_distinct K \<longrightarrow> wr_bytes K new1 = []"
          "length bs \<le> len m"
          "r1 = Inr () \<longrightarrow> length bs = len m" "is_regaddr (i2c s1)"
        by blast
      define m' where "m' = m\<lparr>buf := bs @ drop (length bs) (buf m)\<rparr>"
      have kept: "msg_kept K m' m"
        using n1(5) rd by (simp add: msg_kept_def m'_def len_def)
      with rd have rd': "rd_msg K m'" by (simp add: msg_kept_rd_msg)
      show ?thesis
      proof (cases r1)
        case (Inl e)
        with notseg True rdr Cons.prems have r: "ret = Inl e" "s' = s1" "msgs' = m' # ms"
          by (auto simp: m'_def)
        have "rw_distinct K \<longrightarrow> concat (map buf (filter (rd_msg K) msgs')) =
           rd_bytes K new1 @ drop (length (rd_bytes K new1))
             (concat (map buf (filter (rd_msg K) (m # ms))))"
          using rd rd' n1(3,5) by (simp add: r m'_def len_def)
        moreover have "list_all2 (msg_kept K) msgs' (m # ms)"
          using kept by (simp add: r)
        ultimately show ?thesis
          using n1(1,2,4) Inl r(1,2)
          by (intro exI [of _ new1] exI [of _ 0]) simp
      next
        case (Inr u)
        obtain r2 ms2 s2 where rec: "xfer_msgs K ms s1 = (r2, ms2, s2)"
          by (cases "xfer_msgs K ms s1")
        with Inr notseg True rdr Cons.prems have r: "ret = r2" "s' = s2" "msgs' = m' # ms2"
          by (auto simp: m'_def)
        from Cons.IH [OF rec] obtain new2 k where
          IH: "trace s2 = trace s1 @ new2" "good_run K (err_of r2) new2"
            "list_all2 (msg_kept K) ms2 ms"
            "rw_distinct K \<longrightarrow> concat (map buf (filter (rd_msg K) ms2)) =
               rd_bytes K new2 @ drop (length (rd_bytes K new2)) (concat (map buf (filter (rd_msg K) ms)))"
            "k \<le> length (wr_payload K (is_regaddr (i2c s1)) ms)"
            "wr_distinct K \<longrightarrow> wr_bytes K new2 = map ucast (take k (wr_payload K (is_regaddr (i2c s1)) ms))"
            "r2 = Inr () \<longrightarrow> k = length (wr_payload K (is_regaddr (i2c s1)) ms)"
          by blast
        from IH(2) have nw: "no_wait_hd new2" by (simp add: good_run_def)
        from n1(6) Inr have full: "length bs = length (buf m)" by (simp add: len_def)
        from n1(2) Inr have "good_run K (err_of r2) new1"
          by (auto intro: good_run_weaken)
        then have "good_run K (err_of ret) (new1 @ new2)"
          unfolding r using IH(2) by (rule good_run_append)
        moreover have "trace s' = trace s @ (new1 @ new2)" by (simp add: r IH n1)
        moreover have "rw_distinct K \<longrightarrow> rd_bytes K (new1 @ new2) = bs @ rd_bytes K new2"
          using n1(3) by (simp add: rd_bytes_append [OF nw])
        moreover have "wr_distinct K \<longrightarrow> wr_bytes K (new1 @ new2) = wr_bytes K new2"
          using n1(4) by simp
        moreover have "list_all2 (msg_kept K) msgs' (m # ms)"
          using kept IH(3) by (simp add: r)
        moreover have "concat (map buf (filter (rd_msg K) msgs')) =
            bs @ concat (map buf (filter (rd_msg K) ms2))"
          using rd' full by (simp add: r m'_def)
        moreover have "concat (map buf (filter (rd_msg K) (m # ms))) =
            buf m @ concat (map buf (filter (rd_msg K) ms))"
          using rd by simp
        ultimately show ?thesis
          using IH(4-7) n1(7) full pl r(1)
          by (intro exI [of _ "new1 @ new2"] exI [of _ k]) simp
      qed
    next
      case False
      then have wr: "flags m AND I2C_M_RD K = 0" by simp
      then have nrd: "\<not> rd_msg K m" by (simp add: rd_msg_def)
      define D where "D = (if is_regaddr (i2c s) then buf m else tl (buf m))"
      obtain r1 s1 where wrr: "dw_hdmi_qp_i2c_write K (buf m) s = (r1, s1)"
        by (cases "dw_hdmi_qp_i2c_write K (buf m) s")
      from dw_hdmi_qp_i2c_write_run [OF wrr] obtain new1 k1 where
        n1: "trace s1 = trace s @ new1" "good_run K (err_of r1) new1"
          "rd_bytes K new1 = []" "k1 \<le> length D"
          "wr_distinct K \<longrightarrow> wr_bytes K new1 = map ucast (take k1 D)"
          "r1 = Inr () \<longrightarrow> k1 = length D \<and> is_regaddr (i2c s1)"
        unfolding D_def by blast
      have pl: "\<exists>rest. wr_payload K (is_regaddr (i2c s)) (m # ms) = take k1 D @ rest"
        "r1 = Inr () \<longrightarrow> wr_payload K (is_regaddr (i2c s)) (m # ms) = D @ wr_payload K True ms"
      proof -
        show "\<exists>rest. wr_payload K (is_regaddr (i2c s)) (m # ms) = take k1 D @ rest"
        proof (cases "is_regaddr (i2c s) \<or> buf m \<noteq> []")
          case True
          then have "wr_payload K (is_regaddr (i2c s)) (m # ms) = D @ wr_payload K True ms"
            by (auto simp: wr_payload_write [OF notseg wr] D_def)
          then have "wr_payload K (is_regaddr (i2c s)) (m # ms) =
              take k1 D @ (drop k1 D @ wr_payload K True ms)" by simp
          then show ?thesis by blast
        next
          case False
          then have "D = []" by (simp add: D_def)
          then show ?thesis by simp
        qed
        show "r1 = Inr () \<longrightarrow> wr_payload K (is_regaddr (i2c s)) (m # ms) = D @ wr_payload K True ms"
        proof
          assume ok: "r1 = Inr ()"
          have "is_regaddr (i2c s) \<or> buf m \<noteq> []"
          proof (rule ccontr)
            assume "\<not> (is_regaddr (i2c s) \<or> buf m \<noteq> [])"
            with wrr have "r1 = Inl OutOfBounds" by (simp add: dw_hdmi_qp_i2c_write_def)
            with ok show False by simp
          qed
          then show "wr_payload K (is_regaddr (i2c s)) (m # ms) = D @ wr_payload K True ms"
            by (auto simp: wr_payload_write [OF notseg wr] D_def)
        qed
      qed
      show ?thesis
      proof (cases r1)
        case (Inl e)
        with notseg False wrr Cons.prems have r: "ret = Inl e" "s' = s1" "msgs' = m # ms"
          by auto
        from pl(1) obtain rest where
          rest: "wr_payload K (is_regaddr (i2c s)) (m # ms) = take k1 D @ rest" by blast
        have "wr_distinct K \<longrightarrow>
            wr_bytes K new1 = map ucast (take k1 (wr_payload K (is_regaddr (i2c s)) (m # ms)))"
          "k1 \<le> length (wr_payload K (is_regaddr (i2c s)) (m # ms))"
          using n1(4,5) by (simp_all add: rest)
        then show ?thesis
          using n1(1,2,3) Inl r
          by (intro exI [of _ new1] exI [of _ k1]) simp
      next
        case (Inr u)
        obtain r2 ms2 s2 where rec: "xfer_msgs K ms s1 = (r2, ms2, s2)"
          by (cases "xfer_msgs K ms s1")
        with Inr notseg False wrr Cons.prems have r: "ret = r2" "s' = s2" "msgs' = m # ms2"
          by auto
        from n1(6) Inr have full: "k1 = length D" "is_regaddr (i2c s1)" by simp_all
        from pl(2) Inr have plf: "wr_payload K (is_regaddr (i2c s)) (m # ms) = D @ wr_payload K True ms"
          by simp
        from Cons.IH [OF rec] full(2) obtain new2 k where
          IH: "trace s2 = trace s1 @ new2" "good_run K (err_of r2) new2"
            "list_all2 (msg_kept K) ms2 ms"
            "rw_distinct K \<longrightarrow> concat (map buf (filter (rd_msg K) ms2)) =
               rd_bytes K new2 @ drop (length (rd_bytes K new2)) (concat (map buf (filter (rd_msg K) ms)))"
            "k \<le> length (wr_payload K True ms)"
            "wr_distinct K \<longrightarrow> wr_bytes K new2 = map ucast (take k (wr_payload K True ms))"
            "r2 = Inr () \<longrightarrow> k = length (wr_payload K True ms)"
          by auto
        from IH(2) have nw: "no_wait_hd new2" by (simp add: good_run_def)
        from n1(2) Inr have "good_run K (err_of r2) new1"
          by (auto intro: good_run_weaken)
        then have "good_run K (err_of ret) (new1 @ new2)"
          unfolding r using IH(2) by (rule good_run_append)
        moreover have "trace s' = trace s @ (new1 @ new2)" by (simp add: r IH n1)
        moreover have "rd_bytes K (new1 @ new2) = rd_bytes K new2"
          by (simp add: rd_bytes_append [OF nw] n1)
        moreover have "wr_distinct K \<longrightarrow> wr_bytes K (new1 @ new2) =
            map ucast (take (length D + k) (wr_payload K (is_regaddr (i2c s)) (m # ms)))"
          using n1(5) IH(6) full(1) by (simp add: plf)
        moreover have "list_all2 (msg_kept K) msgs' (m # ms)"
          using IH(3) by (simp add: r)
        moreover have "concat (map buf (filter (rd_msg K) msgs')) =
            concat (map buf (filter (rd_msg K) ms2))"
          "concat (map buf (filter (rd_msg K) (m # ms))) = concat (map buf (filter (rd_msg K) ms))"
          using nrd by (simp_all add: r)
        ultimately show ?thesis
          using IH(4,5,7) r(1)
          by (intro exI [of _ "new1 @ new2"] exI [of _ "length D + k"]) (simp add: plf)
      qed
    qed
  qed
qed

subsection \<open>The transfer\<close>

lemma dw_hdmi_qp_i2c_xfer_run:
  assumes run: "dw_hdmi_qp_i2c_xfer K msgs s = (ret, msgs', s')"
  shows "\<exists>new k. trace s' = trace s @ new \<and> byte_ops_ok K (err_of ret) new \<and> ops_framed K new
       \<and> list_all2 (msg_kept K) msgs' msgs
       \<and> (rw_distinct K \<longrightarrow> concat (map buf (filter (rd_msg K) msgs')) =
           rd_bytes K new @ drop (length (rd_bytes K new)) (concat (map buf (filter (rd_msg K) msgs))))
       \<and> k \<le> length (wr_payload K False msgs)
       \<and> (wr_distinct K \<longrightarrow> wr_bytes K new = map ucast (take k (wr_payload K False msgs)))
       \<and> (ret = Inr (length msgs) \<longrightarrow> k = length (wr_payload K False msgs))"
proof -
  have stop: ?thesis if "s' = s" "msgs' = msgs" "ret = Inl e" for e
    using that by (intro exI [of _ "[]"] exI [of _ 0]) (simp add: byte_ops_ok_def ops_framed_def)
  show ?thesis
  proof (cases msgs)
    case Nil
    with run have "s' = s" "msgs' = msgs" "ret = Inl OutOfBounds"
      by (simp_all add: dw_hdmi_qp_i2c_xfer_def)
    then show ?thesis by (rule stop)
  next
    case msgs: (Cons m0 ms)
    show ?thesis
    proof (cases "(ucast (addr m0) :: u8) = DDC_CI_ADDR \<or> list_ex (\<lambda>m. len m = 0) msgs")
      case True
      with run have "s' = s" "msgs' = msgs" "ret = Inl EOPNOTSUPP"
        unfolding msgs by (simp_all only: dw_hdmi_qp_i2c_xfer_reject prod.inject)
      then show ?thesis by (rule stop)
    next
      case False
      then have go: "(ucast (addr m0) :: u8) \<noteq> DDC_CI_ADDR" "\<not> list_ex (\<lambda>m. len m = 0) msgs"
        by simp_all
      define a1 where "a1 = (if (ucast (addr m0) :: u8) = DDC_SEGMENT_ADDR \<and> len m0 = 1
          then DDC_ADDR K else ucast (addr m0))"
      define pre where "pre = [RegMod (MAINUNIT_1_INT_MASK_N K)
            (I2CM_NACK_RCVD_MASK_N K OR I2CM_OP_DONE_MASK_N K)
            (I2CM_NACK_RCVD_MASK_N K OR I2CM_OP_DONE_MASK_N K),
          RegMod (I2CM_INTERFACE_CONTROL0 K) (I2CM_SLVADDR K) (push_bit 5 (ucast a1))]"
      define post where "post =
          [RegMod (MAINUNIT_1_INT_MASK_N K) (I2CM_OP_DONE_MASK_N K OR I2CM_NACK_RCVD_MASK_N K) 0]"
      define s3 where "s3 = (let s2 = dw_hdmi_qp_mod (push_bit 5 (ucast a1)) (I2CM_SLVADDR K)
                             (I2CM_INTERFACE_CONTROL0 K)
             (dw_hdmi_qp_mod (I2CM_NACK_RCVD_MASK_N K OR I2CM_OP_DONE_MASK_N K)
                             (I2CM_NACK_RCVD_MASK_N K OR I2CM_OP_DONE_MASK_N K)
                             (MAINUNIT_1_INT_MASK_N K) s)
           in s2\<lparr>i2c := (i2c s2)\<lparr>is_regaddr := False, is_segment := False\<rparr>\<rparr>)"
      have s3: "trace s3 = trace s @ pre" "\<not> is_regaddr (i2c s3)"
        by (simp_all add: s3_def pre_def Let_def reg_access_facts)
      obtain r4 ms4 s4 where rec: "xfer_msgs K msgs s3 = (r4, ms4, s4)"
        by (cases "xfer_msgs K msgs s3")
      from run msgs go rec
      have r: "err_of ret = err_of r4" "msgs' = ms4"
        "s' = dw_hdmi_qp_mod 0 (I2CM_OP_DONE_MASK_N K OR I2CM_NACK_RCVD_MASK_N K)
                             (MAINUNIT_1_INT_MASK_N K) s4"
        "ret = Inr (length msgs) \<longrightarrow> r4 = Inr ()"
        by (auto simp: dw_hdmi_qp_i2c_xfer_def Let_def s3_def a1_def split: sum.splits)
      from xfer_msgs_run [OF rec] s3(2) obtain new k where
        n: "trace s4 = trace s3 @ new" "good_run K (err_of r4) new"
          "list_all2 (msg_kept K) ms4 msgs"
          "rw_distinct K \<longrightarrow> concat (map buf (filter (rd_msg K) ms4)) =
             rd_bytes K new @ drop (length (rd_bytes K new)) (concat (map buf (filter (rd_msg K) msgs)))"
          "k \<le> length (wr_payload K False msgs)"
          "wr_distinct K \<longrightarrow> wr_bytes K new = map ucast (take k (wr_payload K False msgs))"
          "r4 = Inr () \<longrightarrow> k = length (wr_payload K False msgs)"
        by auto
      have mods: "\<forall>x\<in>set pre. \<exists>r m d. x = RegMod r m d" "\<forall>x\<in>set post. \<exists>r m d. x = RegMod r m d"
        by (simp_all add: pre_def post_def)
      have g: "good_run K (err_of ret) (pre @ new @ post)"
        unfolding r(1) by (intro good_run_append good_run_mods mods n(2))
      have nw: "no_wait_hd (new @ post)" "no_wait_hd post"
        using g good_run_mods [OF mods(2), of K None] n(2)
        by (simp_all add: good_run_def no_wait_hd_append)
      have "trace s' = trace s @ (pre @ new @ post)"
        by (simp add: r n s3 post_def reg_access_facts)
      moreover have "rd_bytes K (pre @ new @ post) = rd_bytes K new"
        by (simp add: rd_bytes_append [OF nw(1)] rd_bytes_append [OF nw(2)] rd_bytes_mods [OF mods(1)]
            rd_bytes_mods [OF mods(2)])
      moreover have "wr_bytes K pre = []" "wr_bytes K post = []"
        by (simp_all add: wr_bytes_mods [OF mods(1)] wr_bytes_mods [OF mods(2)])
      ultimately show ?thesis
        using g n(3-7) r(2,4)
        by (intro exI [of _ "pre @ new @ post"] exI [of _ k]) (simp add: good_run_def)
    qed
  qed
qed

text \<open>
  A batch whose first message is a write of \<open>b # bs\<close>, entered in any state: after the
  interrupt mask and the slave address, the first byte operation loads the data register
  with the head of \<open>bs\<close> and gives \<open>b\<close> as the register address.
\<close>

lemma dw_hdmi_qp_i2c_xfer_first_write:
  assumes m: "buf m = b # bs" "\<not> (addr m = ucast DDC_SEGMENT_ADDR \<and> len m = 1)"
      "flags m AND I2C_M_RD K = 0"
    and go: "(ucast (addr m) :: u8) \<noteq> DDC_CI_ADDR" "\<not> list_ex (\<lambda>m. len m = 0) (m # ms)"
    and run: "dw_hdmi_qp_i2c_xfer K (m # ms) s = (ret, msgs', s')"
  shows "\<exists>new. trace s' = trace s @ new
       \<and> (bs \<noteq> [] \<longrightarrow> take 4 new =
            [RegMod (MAINUNIT_1_INT_MASK_N K) (I2CM_NACK_RCVD_MASK_N K OR I2CM_OP_DONE_MASK_N K)
               (I2CM_NACK_RCVD_MASK_N K OR I2CM_OP_DONE_MASK_N K),
             RegMod (I2CM_INTERFACE_CONTROL0 K) (I2CM_SLVADDR K)
               (push_bit 5 (ucast (ucast (addr m) :: u8))),
             RegWrite (I2CM_INTERFACE_WRDATA_0_3 K) (ucast (hd bs)),
             RegMod (I2CM_INTERFACE_CONTROL0 K) (I2CM_ADDR K) (push_bit 12 (ucast b))])
       \<and> (bs = [] \<and> ms = [] \<longrightarrow> ret = Inr 1 \<and> msgs' = [m]
            \<and> slave_reg (i2c s') = b \<and> is_regaddr (i2c s')
            \<and> new =
            [RegMod (MAINUNIT_1_INT_MASK_N K) (I2CM_NACK_RCVD_MASK_N K OR I2CM_OP_DONE_MASK_N K)
               (I2CM_NACK_RCVD_MASK_N K OR I2CM_OP_DONE_MASK_N K),
             RegMod (I2CM_INTERFACE_CONTROL0 K) (I2CM_SLVADDR K)
               (push_bit 5 (ucast (if (ucast (addr m) :: u8) = DDC_SEGMENT_ADDR \<and> len m = 1
                                    then DDC_ADDR K else ucast (addr m)))),
             RegMod (MAINUNIT_1_INT_MASK_N K) (I2CM_OP_DONE_MASK_N K OR I2CM_NACK_RCVD_MASK_N K) 0])"
proof -
  define a1 where "a1 = (if (ucast (addr m) :: u8) = DDC_SEGMENT_ADDR \<and> len m = 1
      then DDC_ADDR K else ucast (addr m))"
  define pre where "pre = [RegMod (MAINUNIT_1_INT_MASK_N K)
        (I2CM_NACK_RCVD_MASK_N K OR I2CM_OP_DONE_MASK_N K)
        (I2CM_NACK_RCVD_MASK_N K OR I2CM_OP_DONE_MASK_N K),
      RegMod (I2CM_INTERFACE_CONTROL0 K) (I2CM_SLVADDR K) (push_bit 5 (ucast a1))]"
  define post where "post =
      [RegMod (MAINUNIT_1_INT_MASK_N K) (I2CM_OP_DONE_MASK_N K OR I2CM_NACK_RCVD_MASK_N K) 0]"
  define s3 where "s3 = (let s2 = dw_hdmi_qp_mod (push_bit 5 (ucast a1)) (I2CM_SLVADDR K)
                         (I2CM_INTERFACE_CONTROL0 K)
         (dw_hdmi_qp_mod (I2CM_NACK_RCVD_MASK_N K OR I2CM_OP_DONE_MASK_N K)
                         (I2CM_NACK_RCVD_MASK_N K OR I2CM_OP_DONE_MASK_N K)
                         (MAINUNIT_1_INT_MASK_N K) s)
       in s2\<lparr>i2c := (i2c s2)\<lparr>is_regaddr := False, is_segment := False\<rparr>\<rparr>)"
  have s3: "trace s3 = trace s @ pre" "\<not> is_regaddr (i2c s3)"
    by (simp_all add: s3_def pre_def Let_def reg_access_facts)
  have a1: "bs \<noteq> [] \<Longrightarrow> a1 = ucast (addr m)"
    using m(1) by (simp add: a1_def len_def)
  obtain r4 ms4 s4 where rec: "xfer_msgs K (m # ms) s3 = (r4, ms4, s4)"
    by (cases "xfer_msgs K (m # ms) s3")
  from run go rec
  have r: "msgs' = ms4"
    "s' = dw_hdmi_qp_mod 0 (I2CM_OP_DONE_MASK_N K OR I2CM_NACK_RCVD_MASK_N K)
                         (MAINUNIT_1_INT_MASK_N K) s4"
    "r4 = Inr () \<longrightarrow> ret = Inr (Suc (length ms))"
    by (auto simp: dw_hdmi_qp_i2c_xfer_def Let_def s3_def a1_def split: sum.splits)
  obtain r1 s1 where wr: "dw_hdmi_qp_i2c_write K (b # bs) s3 = (r1, s1)"
    by (cases "dw_hdmi_qp_i2c_write K (b # bs) s3")
  from dw_hdmi_qp_i2c_write_first [OF s3(2) wr] obtain new1 k where
    n1: "trace s1 = trace s3 @ new1" "slave_reg (i2c s1) = b + of_nat k" "is_regaddr (i2c s1)"
      "k \<le> length bs" "bs = [] \<longrightarrow> r1 = Inr () \<and> new1 = []"
      "bs \<noteq> [] \<longrightarrow> take 2 new1 = [RegWrite (I2CM_INTERFACE_WRDATA_0_3 K) (ucast (hd bs)),
             RegMod (I2CM_INTERFACE_CONTROL0 K) (I2CM_ADDR K) (push_bit 12 (ucast b))]"
    by blast
  have step: "xfer_msgs K (m # ms) s3 =
      (case dw_hdmi_qp_i2c_write K (b # bs) s3 of
         (Inl e, s1) \<Rightarrow> (Inl e, m # ms, s1)
       | (Inr u, s1) \<Rightarrow> (let (ret, ms', s2) = xfer_msgs K ms s1 in (ret, m # ms', s2)))"
    using m by auto
  have "\<exists>new2. trace s4 = trace s1 @ new2
     \<and> (ms = [] \<and> r1 = Inr () \<longrightarrow> new2 = [] \<and> r4 = Inr () \<and> ms4 = [m] \<and> s4 = s1)"
  proof (cases r1)
    case (Inl e)
    with rec wr have "s4 = s1" unfolding step by simp
    with Inl show ?thesis by simp
  next
    case (Inr u)
    obtain r2 ms2 s2 where rec2: "xfer_msgs K ms s1 = (r2, ms2, s2)"
      by (cases "xfer_msgs K ms s1")
    with Inr rec wr have e: "s4 = s2" "r4 = r2" "ms4 = m # ms2" unfolding step by simp_all
    from xfer_msgs_run [OF rec2] obtain new2 where "trace s2 = trace s1 @ new2" by blast
    moreover have "ms = [] \<longrightarrow> new2 = [] \<and> r4 = Inr () \<and> ms4 = [m] \<and> s4 = s1"
      using rec2 e calculation by auto
    ultimately show ?thesis using e by blast
  qed
  then obtain new2 where
    n2: "trace s4 = trace s1 @ new2"
      "ms = [] \<and> r1 = Inr () \<longrightarrow> new2 = [] \<and> r4 = Inr () \<and> ms4 = [m] \<and> s4 = s1"
    by blast
  have tr: "trace s' = trace s @ (pre @ new1 @ new2 @ post)"
    by (simp add: r n2 n1 s3 post_def reg_access_facts)
  have "bs \<noteq> [] \<longrightarrow> take 4 (pre @ new1 @ new2 @ post) =
            [RegMod (MAINUNIT_1_INT_MASK_N K) (I2CM_NACK_RCVD_MASK_N K OR I2CM_OP_DONE_MASK_N K)
               (I2CM_NACK_RCVD_MASK_N K OR I2CM_OP_DONE_MASK_N K),
             RegMod (I2CM_INTERFACE_CONTROL0 K) (I2CM_SLVADDR K)
               (push_bit 5 (ucast (ucast (addr m) :: u8))),
             RegWrite (I2CM_INTERFACE_WRDATA_0_3 K) (ucast (hd bs)),
             RegMod (I2CM_INTERFACE_CONTROL0 K) (I2CM_ADDR K) (push_bit 12 (ucast b))]"
  proof
    assume ne_bs: "bs \<noteq> []"
    with n1(6) have t2: "take 2 new1 = [RegWrite (I2CM_INTERFACE_WRDATA_0_3 K) (ucast (hd bs)),
             RegMod (I2CM_INTERFACE_CONTROL0 K) (I2CM_ADDR K) (push_bit 12 (ucast b))]"
      by simp
    then have "2 \<le> length new1"
      by (metis length_take min.cobounded1 length_Cons list.size(3) One_nat_def Suc_1)
    then have "take 4 (pre @ new1 @ new2 @ post) = pre @ take 2 new1"
      by (simp add: pre_def)
    with t2 a1 [OF ne_bs] show "take 4 (pre @ new1 @ new2 @ post) =
            [RegMod (MAINUNIT_1_INT_MASK_N K) (I2CM_NACK_RCVD_MASK_N K OR I2CM_OP_DONE_MASK_N K)
               (I2CM_NACK_RCVD_MASK_N K OR I2CM_OP_DONE_MASK_N K),
             RegMod (I2CM_INTERFACE_CONTROL0 K) (I2CM_SLVADDR K)
               (push_bit 5 (ucast (ucast (addr m) :: u8))),
             RegWrite (I2CM_INTERFACE_WRDATA_0_3 K) (ucast (hd bs)),
             RegMod (I2CM_INTERFACE_CONTROL0 K) (I2CM_ADDR K) (push_bit 12 (ucast b))]"
      by (simp add: pre_def)
  qed
  moreover have "bs = [] \<and> ms = [] \<longrightarrow> ret = Inr 1 \<and> msgs' = [m]
            \<and> slave_reg (i2c s') = b \<and> is_regaddr (i2c s')
            \<and> pre @ new1 @ new2 @ post =
            [RegMod (MAINUNIT_1_INT_MASK_N K) (I2CM_NACK_RCVD_MASK_N K OR I2CM_OP_DONE_MASK_N K)
               (I2CM_NACK_RCVD_MASK_N K OR I2CM_OP_DONE_MASK_N K),
             RegMod (I2CM_INTERFACE_CONTROL0 K) (I2CM_SLVADDR K)
               (push_bit 5 (ucast (if (ucast (addr m) :: u8) = DDC_SEGMENT_ADDR \<and> len m = 1
                                    then DDC_ADDR K else ucast (addr m)))),
             RegMod (MAINUNIT_1_INT_MASK_N K) (I2CM_OP_DONE_MASK_N K OR I2CM_NACK_RCVD_MASK_N K) 0]"
  proof
    assume e: "bs = [] \<and> ms = []"
    with n1(5) have r1: "r1 = Inr ()" "new1 = []" by simp_all
    with n2(2) e have *: "new2 = []" "r4 = Inr ()" "ms4 = [m]" "s4 = s1" by simp_all
    with n1(4) e have "k = 0" by simp
    with n1 r * e show "ret = Inr 1 \<and> msgs' = [m]
            \<and> slave_reg (i2c s') = b \<and> is_regaddr (i2c s')
            \<and> pre @ new1 @ new2 @ post =
            [RegMod (MAINUNIT_1_INT_MASK_N K) (I2CM_NACK_RCVD_MASK_N K OR I2CM_OP_DONE_MASK_N K)
               (I2CM_NACK_RCVD_MASK_N K OR I2CM_OP_DONE_MASK_N K),
             RegMod (I2CM_INTERFACE_CONTROL0 K) (I2CM_SLVADDR K)
               (push_bit 5 (ucast (if (ucast (addr m) :: u8) = DDC_SEGMENT_ADDR \<and> len m = 1
                                    then DDC_ADDR K else ucast (addr m)))),
             RegMod (MAINUNIT_1_INT_MASK_N K) (I2CM_OP_DONE_MASK_N K OR I2CM_NACK_RCVD_MASK_N K) 0]"
      by (simp add: pre_def post_def a1_def reg_access_facts)
  qed
  ultimately show ?thesis using tr by blast
qed

lemmas model_defs =
  dw_hdmi_qp_i2c_xfer_def dw_hdmi_qp_i2c_read_def dw_hdmi_qp_i2c_write_def
  wait_for_completion_timeout_def reinit_completion_def
  dw_hdmi_qp_write_def dw_hdmi_qp_read_def dw_hdmi_qp_mod_def len_def
  DDC_CI_ADDR_def DDC_SEGMENT_ADDR_def Let_def sample_i2cm_h_def hdmi0_def

text \<open>
  Claim C1. Let \<open>new\<close> be the events of a transfer, \<open>msgs'\<close> the batch it hands back.

  \<^item> Every wait is given \<open>HZ div 10\<close> jiffies, which is 100 ms when \<open>HZ\<close> is a multiple
    of 10, and comes right after the strobe of a read or of a write: these are the byte
    operations.
  \<^item> After a wait that timed out comes the write of the soft-reset value 0x01 to the I2C
    master control register, and the transfer returns \<open>EAGAIN\<close>. After a completion
    whose latched status has the NACK bit comes the same write, and the transfer returns
    \<open>EIO\<close>. After any other completion the next call clears the write-strobe field of
    the interface control register, before anything of a next byte.
  \<^item> The batch comes back with every address, flag and length as it was, and every
    segment pointer message and write message unchanged.
  \<^item> Where the write strobe is another command than the two read strobes, so that the
    events tell a read from a write: the buffers of the read messages, one after the
    other, hold the bytes received (the low byte of the read data of each completion
    without NACK after a read strobe) followed by what they held before. Each byte
    received is stored at the next place of the batch.
  \<^item> Where the write data register is another register than the control register: a
    byte that is written is loaded into the write data register, and the register
    address, the write strobe and the wait follow; the register is loaded with the first
    \<open>k\<close> bytes that the write messages hold as data (their buffers one after the other,
    less the register address in front when the first message that is not a segment
    pointer is a write), and with all of them when the transfer succeeds.
\<close>

theorem i2c_xfer_byte_operation_outcomes:
  assumes run: "dw_hdmi_qp_i2c_xfer K msgs s = (ret, msgs', s')"
  shows "\<exists>new k. trace s' = trace s @ new
     \<and> (\<forall>i<length new. \<forall>t r. new ! i = Wait t r \<longrightarrow>
           t = HZ K div 10 \<and> (10 dvd HZ K \<longrightarrow> 1000 * t = 100 * HZ K) \<and> 0 < i
           \<and> (\<exists>v. new ! (i - 1) = RegMod (I2CM_INTERFACE_CONTROL0 K) (I2CM_WR_MASK K) v
                 \<and> (v = I2CM_FM_READ K \<or> v = I2CM_EXT_READ K \<or> v = I2CM_FM_WRITE K)))
     \<and> (\<forall>i<length new.
          (\<forall>t. new ! i = Wait t TimedOut \<longrightarrow>
             Suc i < length new \<and> new ! Suc i = RegWrite (I2CM_CONTROL0 K) 0x01 \<and> ret = Inl EAGAIN)
        \<and> (\<forall>t st d. new ! i = Wait t (Completed st d) \<longrightarrow>
             Suc i < length new \<and>
             (if ucast st AND I2CM_NACK_RCVD_IRQ K \<noteq> 0
              then new ! Suc i = RegWrite (I2CM_CONTROL0 K) 0x01 \<and> ret = Inl EIO
              else new ! Suc i = RegMod (I2CM_INTERFACE_CONTROL0 K) (I2CM_WR_MASK K) 0)))
     \<and> length msgs' = length msgs
     \<and> (\<forall>j<length msgs.
           addr (msgs' ! j) = addr (msgs ! j) \<and> flags (msgs' ! j) = flags (msgs ! j)
         \<and> length (buf (msgs' ! j)) = length (buf (msgs ! j))
         \<and> ((addr (msgs ! j) = ucast DDC_SEGMENT_ADDR \<and> len (msgs ! j) = 1)
              \<or> flags (msgs ! j) AND I2C_M_RD K = 0 \<longrightarrow> msgs' ! j = msgs ! j))
     \<and> (I2CM_FM_READ K \<noteq> I2CM_FM_WRITE K \<and> I2CM_EXT_READ K \<noteq> I2CM_FM_WRITE K \<longrightarrow>
          (let rd = (\<lambda>m. \<not> (addr m = ucast DDC_SEGMENT_ADDR \<and> len m = 1)
                         \<and> flags m AND I2C_M_RD K \<noteq> 0);
               rx = [ucast (d AND 0xff).
                       (RegMod r mk v, Wait t (Completed st d)) \<leftarrow> zip new (tl new),
                       v \<noteq> I2CM_FM_WRITE K, ucast st AND I2CM_NACK_RCVD_IRQ K = 0]
           in concat (map buf (filter rd msgs')) =
                rx @ drop (length rx) (concat (map buf (filter rd msgs)))))
     \<and> (I2CM_INTERFACE_WRDATA_0_3 K \<noteq> I2CM_CONTROL0 K \<longrightarrow>
          (\<forall>i<length new. \<forall>b. new ! i = RegWrite (I2CM_INTERFACE_WRDATA_0_3 K) b \<longrightarrow>
             i + 3 < length new
             \<and> (\<exists>a. new ! (i + 1) = RegMod (I2CM_INTERFACE_CONTROL0 K) (I2CM_ADDR K) a)
             \<and> new ! (i + 2) = RegMod (I2CM_INTERFACE_CONTROL0 K) (I2CM_WR_MASK K) (I2CM_FM_WRITE K)
             \<and> (\<exists>t r. new ! (i + 3) = Wait t r))
        \<and> (let ns = filter (\<lambda>m. \<not> (addr m = ucast DDC_SEGMENT_ADDR \<and> len m = 1)) msgs;
                ws = filter (\<lambda>m. flags m AND I2C_M_RD K = 0) ns;
                payload = (if ns \<noteq> [] \<and> flags (hd ns) AND I2C_M_RD K = 0
                           then tl (concat (map buf ws)) else concat (map buf ws))
            in k \<le> length payload
             \<and> [v. RegWrite r v \<leftarrow> new, r = I2CM_INTERFACE_WRDATA_0_3 K] =
                 map ucast (take k payload)
             \<and> (ret = Inr (length msgs) \<longrightarrow> k = length payload)))"
proof -
  from dw_hdmi_qp_i2c_xfer_run [OF run] obtain new k where
    n: "trace s' = trace s @ new" "byte_ops_ok K (err_of ret) new" "ops_framed K new"
      "list_all2 (msg_kept K) msgs' msgs"
      "rw_distinct K \<longrightarrow> concat (map buf (filter (rd_msg K) msgs')) =
           rd_bytes K new @ drop (length (rd_bytes K new)) (concat (map buf (filter (rd_msg K) msgs)))"
      "k \<le> length (wr_payload K False msgs)"
      "wr_distinct K \<longrightarrow> wr_bytes K new = map ucast (take k (wr_payload K False msgs))"
      "ret = Inr (length msgs) \<longrightarrow> k = length (wr_payload K False msgs)"
    by blast
  have e: "err_of ret = Some x \<longleftrightarrow> ret = Inl x" for x
    by (cases ret) auto
  have ms: "10 dvd HZ K \<longrightarrow> 1000 * (HZ K div 10) = 100 * HZ K"
    by auto
  have waits: "\<forall>i<length new. \<forall>t r. new ! i = Wait t r \<longrightarrow>
           t = HZ K div 10 \<and> (10 dvd HZ K \<longrightarrow> 1000 * t = 100 * HZ K) \<and> 0 < i
           \<and> (\<exists>v. new ! (i - 1) = RegMod (I2CM_INTERFACE_CONTROL0 K) (I2CM_WR_MASK K) v
                 \<and> (v = I2CM_FM_READ K \<or> v = I2CM_EXT_READ K \<or> v = I2CM_FM_WRITE K))"
  proof (intro allI impI)
    fix i t r assume i: "i < length new" and w: "new ! i = Wait t r"
    from n(2) i w have "t = HZ K div 10" unfolding byte_ops_ok_def by blast
    moreover from n(3) i w have "0 < i
           \<and> (\<exists>v. new ! (i - 1) = RegMod (I2CM_INTERFACE_CONTROL0 K) (I2CM_WR_MASK K) v
                 \<and> (v = I2CM_FM_READ K \<or> v = I2CM_EXT_READ K \<or> v = I2CM_FM_WRITE K))"
      unfolding ops_framed_def by blast
    ultimately show "t = HZ K div 10 \<and> (10 dvd HZ K \<longrightarrow> 1000 * t = 100 * HZ K) \<and> 0 < i
           \<and> (\<exists>v. new ! (i - 1) = RegMod (I2CM_INTERFACE_CONTROL0 K) (I2CM_WR_MASK K) v
                 \<and> (v = I2CM_FM_READ K \<or> v = I2CM_EXT_READ K \<or> v = I2CM_FM_WRITE K))"
      using ms by simp
  qed
  have outcomes: "\<forall>i<length new.
          (\<forall>t. new ! i = Wait t TimedOut \<longrightarrow>
             Suc i < length new \<and> new ! Suc i = RegWrite (I2CM_CONTROL0 K) 0x01 \<and> ret = Inl EAGAIN)
        \<and> (\<forall>t st d. new ! i = Wait t (Completed st d) \<longrightarrow>
             Suc i < length new \<and>
             (if ucast st AND I2CM_NACK_RCVD_IRQ K \<noteq> 0
              then new ! Suc i = RegWrite (I2CM_CONTROL0 K) 0x01 \<and> ret = Inl EIO
              else new ! Suc i = RegMod (I2CM_INTERFACE_CONTROL0 K) (I2CM_WR_MASK K) 0))"
  proof (intro allI impI)
    fix i assume "i < length new"
    from n(2) [unfolded byte_ops_ok_def e, rule_format, OF this]
    show "(\<forall>t. new ! i = Wait t TimedOut \<longrightarrow>
             Suc i < length new \<and> new ! Suc i = RegWrite (I2CM_CONTROL0 K) 0x01 \<and> ret = Inl EAGAIN)
        \<and> (\<forall>t st d. new ! i = Wait t (Completed st d) \<longrightarrow>
             Suc i < length new \<and>
             (if ucast st AND I2CM_NACK_RCVD_IRQ K \<noteq> 0
              then new ! Suc i = RegWrite (I2CM_CONTROL0 K) 0x01 \<and> ret = Inl EIO
              else new ! Suc i = RegMod (I2CM_INTERFACE_CONTROL0 K) (I2CM_WR_MASK K) 0))"
      by (rule conjunct2)
  qed
  have len: "length msgs' = length msgs"
    using n(4) by (rule list_all2_lengthD)
  have kept: "\<forall>j<length msgs.
           addr (msgs' ! j) = addr (msgs ! j) \<and> flags (msgs' ! j) = flags (msgs ! j)
         \<and> length (buf (msgs' ! j)) = length (buf (msgs ! j))
         \<and> ((addr (msgs ! j) = ucast DDC_SEGMENT_ADDR \<and> len (msgs ! j) = 1)
              \<or> flags (msgs ! j) AND I2C_M_RD K = 0 \<longrightarrow> msgs' ! j = msgs ! j)"
  proof (intro allI impI)
    fix j assume "j < length msgs"
    with n(4) have "msg_kept K (msgs' ! j) (msgs ! j)"
      by (simp add: list_all2_conv_all_nth)
    then show "addr (msgs' ! j) = addr (msgs ! j) \<and> flags (msgs' ! j) = flags (msgs ! j)
         \<and> length (buf (msgs' ! j)) = length (buf (msgs ! j))
         \<and> ((addr (msgs ! j) = ucast DDC_SEGMENT_ADDR \<and> len (msgs ! j) = 1)
              \<or> flags (msgs ! j) AND I2C_M_RD K = 0 \<longrightarrow> msgs' ! j = msgs ! j)"
      unfolding msg_kept_def rd_msg_def by blast
  qed
  have rds: "I2CM_FM_READ K \<noteq> I2CM_FM_WRITE K \<and> I2CM_EXT_READ K \<noteq> I2CM_FM_WRITE K \<longrightarrow>
          (let rd = (\<lambda>m. \<not> (addr m = ucast DDC_SEGMENT_ADDR \<and> len m = 1)
                         \<and> flags m AND I2C_M_RD K \<noteq> 0);
               rx = [ucast (d AND 0xff).
                       (RegMod r mk v, Wait t (Completed st d)) \<leftarrow> zip new (tl new),
                       v \<noteq> I2CM_FM_WRITE K, ucast st AND I2CM_NACK_RCVD_IRQ K = 0]
           in concat (map buf (filter rd msgs')) =
                rx @ drop (length rx) (concat (map buf (filter rd msgs))))"
    using n(5) unfolding rw_distinct_def rd_msg_def [abs_def] rd_bytes_def Let_def .
  have wrs: "I2CM_INTERFACE_WRDATA_0_3 K \<noteq> I2CM_CONTROL0 K \<longrightarrow>
          (\<forall>i<length new. \<forall>b. new ! i = RegWrite (I2CM_INTERFACE_WRDATA_0_3 K) b \<longrightarrow>
             i + 3 < length new
             \<and> (\<exists>a. new ! (i + 1) = RegMod (I2CM_INTERFACE_CONTROL0 K) (I2CM_ADDR K) a)
             \<and> new ! (i + 2) = RegMod (I2CM_INTERFACE_CONTROL0 K) (I2CM_WR_MASK K) (I2CM_FM_WRITE K)
             \<and> (\<exists>t r. new ! (i + 3) = Wait t r))
        \<and> (let ns = filter (\<lambda>m. \<not> (addr m = ucast DDC_SEGMENT_ADDR \<and> len m = 1)) msgs;
                ws = filter (\<lambda>m. flags m AND I2C_M_RD K = 0) ns;
                payload = (if ns \<noteq> [] \<and> flags (hd ns) AND I2C_M_RD K = 0
                           then tl (concat (map buf ws)) else concat (map buf ws))
            in k \<le> length payload
             \<and> [v. RegWrite r v \<leftarrow> new, r = I2CM_INTERFACE_WRDATA_0_3 K] =
                 map ucast (take k payload)
             \<and> (ret = Inr (length msgs) \<longrightarrow> k = length payload))"
  proof (intro impI conjI)
    assume "I2CM_INTERFACE_WRDATA_0_3 K \<noteq> I2CM_CONTROL0 K"
    then have wd: "wr_distinct K" by (simp add: wr_distinct_def)
    from n(3) wd show "\<forall>i<length new. \<forall>b. new ! i = RegWrite (I2CM_INTERFACE_WRDATA_0_3 K) b \<longrightarrow>
             i + 3 < length new
             \<and> (\<exists>a. new ! (i + 1) = RegMod (I2CM_INTERFACE_CONTROL0 K) (I2CM_ADDR K) a)
             \<and> new ! (i + 2) = RegMod (I2CM_INTERFACE_CONTROL0 K) (I2CM_WR_MASK K) (I2CM_FM_WRITE K)
             \<and> (\<exists>t r. new ! (i + 3) = Wait t r)"
      unfolding ops_framed_def by blast
    from n(6,7,8) wd
    show "let ns = filter (\<lambda>m. \<not> (addr m = ucast DDC_SEGMENT_ADDR \<and> len m = 1)) msgs;
                ws = filter (\<lambda>m. flags m AND I2C_M_RD K = 0) ns;
                payload = (if ns \<noteq> [] \<and> flags (hd ns) AND I2C_M_RD K = 0
                           then tl (concat (map buf ws)) else concat (map buf ws))
            in k \<le> length payload
             \<and> [v. RegWrite r v \<leftarrow> new, r = I2CM_INTERFACE_WRDATA_0_3 K] =
                 map ucast (take k payload)
             \<and> (ret = Inr (length msgs) \<longrightarrow> k = length payload)"
      unfolding wr_payload_def wr_bytes_def Let_def by simp
  qed
  from n(1) waits outcomes len kept rds wrs show ?thesis
    by (intro exI [of _ new] exI [of _ k] conjI)
qed

theorem i2c_xfer_byte_operation_outcomes_witness:
  "I2CM_INTERFACE_WRDATA_0_3 sample_i2cm_h \<noteq> I2CM_CONTROL0 sample_i2cm_h
   \<and> I2CM_FM_READ sample_i2cm_h \<noteq> I2CM_FM_WRITE sample_i2cm_h
   \<and> I2CM_EXT_READ sample_i2cm_h \<noteq> I2CM_FM_WRITE sample_i2cm_h
   \<and> dw_hdmi_qp_i2c_xfer sample_i2cm_h
          [\<lparr>addr = 0x50, flags = 0, buf = [0x00]\<rparr>, \<lparr>addr = 0x50, flags = 1, buf = [0, 0]\<rparr>]
          (hdmi0\<lparr>env := [Completed 0x01 0x1ab, Completed 0x01 0xcd]\<rparr>) =
       (Inr 2,
        [\<lparr>addr = 0x50, flags = 0, buf = [0x00]\<rparr>, \<lparr>addr = 0x50, flags = 1, buf = [0xab, 0xcd]\<rparr>],
        snd (snd (dw_hdmi_qp_i2c_xfer sample_i2cm_h
          [\<lparr>addr = 0x50, flags = 0, buf = [0x00]\<rparr>, \<lparr>addr = 0x50, flags = 1, buf = [0, 0]\<rparr>]
          (hdmi0\<lparr>env := [Completed 0x01 0x1ab, Completed 0x01 0xcd]\<rparr>))))
   \<and> trace (snd (snd (dw_hdmi_qp_i2c_xfer sample_i2cm_h
          [\<lparr>addr = 0x50, flags = 0, buf = [0x00]\<rparr>, \<lparr>addr = 0x50, flags = 1, buf = [0, 0]\<rparr>]
          (hdmi0\<lparr>env := [Completed 0x01 0x1ab, Completed 0x01 0xcd]\<rparr>)))) =
       [RegMod 0xe4 0x5 0x5, RegMod 0xe14 0xfe0 0xa00,
        RegMod 0xe14 0xff000 0, RegMod 0xe14 0x1e 0x4,
        Wait 25 (Completed 0x01 0x1ab), RegMod 0xe14 0x1e 0,
        RegMod 0xe14 0xff000 0x1000, RegMod 0xe14 0x1e 0x4,
        Wait 25 (Completed 0x01 0xcd), RegMod 0xe14 0x1e 0,
        RegMod 0xe4 0x5 0]
   \<and> fst (dw_hdmi_qp_i2c_xfer sample_i2cm_h
          [\<lparr>addr = 0x50, flags = 0, buf = [0x00]\<rparr>, \<lparr>addr = 0x50, flags = 1, buf = [0, 0]\<rparr>]
          (hdmi0\<lparr>env := [Completed 0x01 0xab, TimedOut]\<rparr>)) = Inl EAGAIN
   \<and> fst (snd (dw_hdmi_qp_i2c_xfer sample_i2cm_h
          [\<lparr>addr = 0x50, flags = 0, buf = [0x00]\<rparr>, \<lparr>addr = 0x50, flags = 1, buf = [0, 0]\<rparr>]
          (hdmi0\<lparr>env := [Completed 0x01 0xab, TimedOut]\<rparr>))) =
       [\<lparr>addr = 0x50, flags = 0, buf = [0x00]\<rparr>, \<lparr>addr = 0x50, flags = 1, buf = [0xab, 0]\<rparr>]
   \<and> trace (snd (snd (dw_hdmi_qp_i2c_xfer sample_i2cm_h
          [\<lparr>addr = 0x50, flags = 0, buf = [0x00]\<rparr>, \<lparr>addr = 0x50, flags = 1, buf = [0, 0]\<rparr>]
          (hdmi0\<lparr>env := [Completed 0x01 0xab, TimedOut]\<rparr>)))) =
       [RegMod 0xe4 0x5 0x5, RegMod 0xe14 0xfe0 0xa00,
        RegMod 0xe14 0xff000 0, RegMod 0xe14 0x1e 0x4,
        Wait 25 (Completed 0x01 0xab), RegMod 0xe14 0x1e 0,
        RegMod 0xe14 0xff000 0x1000, RegMod 0xe14 0x1e 0x4,
        Wait 25 TimedOut, RegWrite 0xe0c 0x01,
        RegMod 0xe4 0x5 0]
   \<and> fst (dw_hdmi_qp_i2c_xfer sample_i2cm_h
          [\<lparr>addr = 0x50, flags = 0, buf = [0x00, 0x77, 0x78]\<rparr>]
          (hdmi0\<lparr>env := [Completed 0x01 0, Completed 0x04 0]\<rparr>)) = Inl EIO
   \<and> trace (snd (snd (dw_hdmi_qp_i2c_xfer sample_i2cm_h
          [\<lparr>addr = 0x50, flags = 0, buf = [0x00, 0x77, 0x78]\<rparr>]
          (hdmi0\<lparr>env := [Completed 0x01 0, Completed 0x04 0]\<rparr>)))) =
       [RegMod 0xe4 0x5 0x5, RegMod 0xe14 0xfe0 0xa00,
        RegWrite 0xe1c 0x77, RegMod 0xe14 0xff000 0, RegMod 0xe14 0x1e 0x2,
        Wait 25 (Completed 0x01 0), RegMod 0xe14 0x1e 0,
        RegWrite 0xe1c 0x78, RegMod 0xe14 0xff000 0x1000, RegMod 0xe14 0x1e 0x2,
        Wait 25 (Completed 0x04 0), RegWrite 0xe0c 0x01,
        RegMod 0xe4 0x5 0]"
proof -
  define msgs where "msgs =
     [\<lparr>addr = 0x50, flags = 0, buf = [0x00]\<rparr>, \<lparr>addr = 0x50, flags = 1, buf = [0, 0 :: u8]\<rparr>]"
  define run0 where "run0 = dw_hdmi_qp_i2c_xfer sample_i2cm_h msgs
          (hdmi0\<lparr>env := [Completed 0x01 0x1ab, Completed 0x01 0xcd]\<rparr>)"
  define run1 where "run1 = dw_hdmi_qp_i2c_xfer sample_i2cm_h msgs
          (hdmi0\<lparr>env := [Completed 0x01 0xab, TimedOut]\<rparr>)"
  define run2 where "run2 = dw_hdmi_qp_i2c_xfer sample_i2cm_h
          [\<lparr>addr = 0x50, flags = 0, buf = [0x00, 0x77, 0x78]\<rparr>]
          (hdmi0\<lparr>env := [Completed 0x01 0, Completed 0x04 0]\<rparr>)"
  have hyps: "I2CM_INTERFACE_WRDATA_0_3 sample_i2cm_h \<noteq> I2CM_CONTROL0 sample_i2cm_h"
    "I2CM_FM_READ sample_i2cm_h \<noteq> I2CM_FM_WRITE sample_i2cm_h"
    "I2CM_EXT_READ sample_i2cm_h \<noteq> I2CM_FM_WRITE sample_i2cm_h"
    by (simp_all add: sample_i2cm_h_def)
  have r0: "fst run0 = Inr 2"
    and tr0: "trace (snd (snd run0)) =
       [RegMod 0xe4 0x5 0x5, RegMod 0xe14 0xfe0 0xa00,
        RegMod 0xe14 0xff000 0, RegMod 0xe14 0x1e 0x4,
        Wait 25 (Completed 0x01 0x1ab), RegMod 0xe14 0x1e 0,
        RegMod 0xe14 0xff000 0x1000, RegMod 0xe14 0x1e 0x4,
        Wait 25 (Completed 0x01 0xcd), RegMod 0xe14 0x1e 0,
        RegMod 0xe4 0x5 0]"
    unfolding run0_def msgs_def by (simp_all add: model_defs)
  have tr1: "trace (snd (snd run1)) =
       [RegMod 0xe4 0x5 0x5, RegMod 0xe14 0xfe0 0xa00,
        RegMod 0xe14 0xff000 0, RegMod 0xe14 0x1e 0x4,
        Wait 25 (Completed 0x01 0xab), RegMod 0xe14 0x1e 0,
        RegMod 0xe14 0xff000 0x1000, RegMod 0xe14 0x1e 0x4,
        Wait 25 TimedOut, RegWrite 0xe0c 0x01,
        RegMod 0xe4 0x5 0]"
    and ms1: "fst (snd run1) =
       [\<lparr>addr = 0x50, flags = 0, buf = [0x00]\<rparr>, \<lparr>addr = 0x50, flags = 1, buf = [0xab, 0]\<rparr>]"
    unfolding run1_def msgs_def by (simp_all add: model_defs)
  have tr2: "trace (snd (snd run2)) =
       [RegMod 0xe4 0x5 0x5, RegMod 0xe14 0xfe0 0xa00,
        RegWrite 0xe1c 0x77, RegMod 0xe14 0xff000 0, RegMod 0xe14 0x1e 0x2,
        Wait 25 (Completed 0x01 0), RegMod 0xe14 0x1e 0,
        RegWrite 0xe1c 0x78, RegMod 0xe14 0xff000 0x1000, RegMod 0xe14 0x1e 0x2,
        Wait 25 (Completed 0x04 0), RegWrite 0xe0c 0x01,
        RegMod 0xe4 0x5 0]"
    unfolding run2_def by (simp add: model_defs)
  have "run0 = (fst run0, fst (snd run0), snd (snd run0))" by simp
  from i2c_xfer_byte_operation_outcomes [OF this [unfolded run0_def], folded run0_def]
  obtain new0 k0 where new0: "trace (snd (snd run0)) =
        trace (hdmi0\<lparr>env := [Completed 0x01 0x1ab, Completed 0x01 0xcd]\<rparr>) @ new0"
    and len0: "length (fst (snd run0)) = length msgs"
    and kept0: "\<forall>j<length msgs.
           addr (fst (snd run0) ! j) = addr (msgs ! j) \<and> flags (fst (snd run0) ! j) = flags (msgs ! j)
         \<and> length (buf (fst (snd run0) ! j)) = length (buf (msgs ! j))
         \<and> ((addr (msgs ! j) = ucast DDC_SEGMENT_ADDR \<and> len (msgs ! j) = 1)
              \<or> flags (msgs ! j) AND I2C_M_RD sample_i2cm_h = 0 \<longrightarrow> fst (snd run0) ! j = msgs ! j)"
    and rx0: "I2CM_FM_READ sample_i2cm_h \<noteq> I2CM_FM_WRITE sample_i2cm_h
          \<and> I2CM_EXT_READ sample_i2cm_h \<noteq> I2CM_FM_WRITE sample_i2cm_h \<longrightarrow>
          (let rd = (\<lambda>m. \<not> (addr m = ucast DDC_SEGMENT_ADDR \<and> len m = 1)
                         \<and> flags m AND I2C_M_RD sample_i2cm_h \<noteq> 0);
               rx = [ucast (d AND 0xff).
                       (RegMod r mk v, Wait t (Completed st d)) \<leftarrow> zip new0 (tl new0),
                       v \<noteq> I2CM_FM_WRITE sample_i2cm_h,
                       ucast st AND I2CM_NACK_RCVD_IRQ sample_i2cm_h = 0]
           in concat (map buf (filter rd (fst (snd run0)))) =
                rx @ drop (length rx) (concat (map buf (filter rd msgs))))"
    unfolding msgs_def [symmetric] by (elim exE conjE)
  from new0 tr0 have n0: "new0 = [RegMod 0xe4 0x5 0x5, RegMod 0xe14 0xfe0 0xa00,
        RegMod 0xe14 0xff000 0, RegMod 0xe14 0x1e 0x4,
        Wait 25 (Completed 0x01 0x1ab), RegMod 0xe14 0x1e 0,
        RegMod 0xe14 0xff000 0x1000, RegMod 0xe14 0x1e 0x4,
        Wait 25 (Completed 0x01 0xcd), RegMod 0xe14 0x1e 0,
        RegMod 0xe4 0x5 0]"
    by (simp add: hdmi0_def)
  obtain m0 m1 where ms0: "fst (snd run0) = [m0, m1]"
    using len0 by (auto simp: msgs_def length_Suc_conv)
  from kept0 [rule_format, of 0] kept0 [rule_format, of 1] ms0
  have k0: "m0 = \<lparr>addr = 0x50, flags = 0, buf = [0x00]\<rparr>" "addr m1 = 0x50" "flags m1 = 1"
    "length (buf m1) = 2"
    by (simp_all add: msgs_def sample_i2cm_h_def)
  from rx0 hyps have "buf m1 = [0xab, 0xcd]"
    unfolding n0 ms0 by (simp add: Let_def k0 msgs_def sample_i2cm_h_def DDC_SEGMENT_ADDR_def len_def)
  with k0 have "m1 = \<lparr>addr = 0x50, flags = 1, buf = [0xab, 0xcd]\<rparr>" by simp
  with ms0 k0 have ms0': "fst (snd run0) =
      [\<lparr>addr = 0x50, flags = 0, buf = [0x00]\<rparr>, \<lparr>addr = 0x50, flags = 1, buf = [0xab, 0xcd]\<rparr>]"
    by simp
  have "run1 = (fst run1, fst (snd run1), snd (snd run1))" by simp
  from i2c_xfer_byte_operation_outcomes [OF this [unfolded run1_def], folded run1_def]
  obtain new k where new: "trace (snd (snd run1)) =
        trace (hdmi0\<lparr>env := [Completed 0x01 0xab, TimedOut]\<rparr>) @ new"
    and out1: "\<forall>i<length new.
          (\<forall>t. new ! i = Wait t TimedOut \<longrightarrow>
             Suc i < length new \<and> new ! Suc i = RegWrite (I2CM_CONTROL0 sample_i2cm_h) 0x01
             \<and> fst run1 = Inl EAGAIN)
        \<and> (\<forall>t st d. new ! i = Wait t (Completed st d) \<longrightarrow>
             Suc i < length new \<and>
             (if ucast st AND I2CM_NACK_RCVD_IRQ sample_i2cm_h \<noteq> 0
              then new ! Suc i = RegWrite (I2CM_CONTROL0 sample_i2cm_h) 0x01 \<and> fst run1 = Inl EIO
              else new ! Suc i = RegMod (I2CM_INTERFACE_CONTROL0 sample_i2cm_h)
                     (I2CM_WR_MASK sample_i2cm_h) 0))"
    by (elim exE conjE)
  have timeout: "fst run1 = Inl EAGAIN" if "i < length new" "new ! i = Wait t TimedOut" for i t
    using out1 that by blast
  from new tr1 have "new = [RegMod 0xe4 0x5 0x5, RegMod 0xe14 0xfe0 0xa00,
        RegMod 0xe14 0xff000 0, RegMod 0xe14 0x1e 0x4,
        Wait 25 (Completed 0x01 0xab), RegMod 0xe14 0x1e 0,
        RegMod 0xe14 0xff000 0x1000, RegMod 0xe14 0x1e 0x4,
        Wait 25 TimedOut, RegWrite 0xe0c 0x01,
        RegMod 0xe4 0x5 0]"
    by (simp add: hdmi0_def)
  with timeout [of 8 25] have r1: "fst run1 = Inl EAGAIN" by simp
  have "run2 = (fst run2, fst (snd run2), snd (snd run2))" by simp
  from i2c_xfer_byte_operation_outcomes [OF this [unfolded run2_def], folded run2_def]
  obtain new2 k2 where new2: "trace (snd (snd run2)) =
        trace (hdmi0\<lparr>env := [Completed 0x01 0, Completed 0x04 0]\<rparr>) @ new2"
    and out2: "\<forall>i<length new2.
          (\<forall>t. new2 ! i = Wait t TimedOut \<longrightarrow>
             Suc i < length new2 \<and> new2 ! Suc i = RegWrite (I2CM_CONTROL0 sample_i2cm_h) 0x01
             \<and> fst run2 = Inl EAGAIN)
        \<and> (\<forall>t st d. new2 ! i = Wait t (Completed st d) \<longrightarrow>
             Suc i < length new2 \<and>
             (if ucast st AND I2CM_NACK_RCVD_IRQ sample_i2cm_h \<noteq> 0
              then new2 ! Suc i = RegWrite (I2CM_CONTROL0 sample_i2cm_h) 0x01 \<and> fst run2 = Inl EIO
              else new2 ! Suc i = RegMod (I2CM_INTERFACE_CONTROL0 sample_i2cm_h)
                     (I2CM_WR_MASK sample_i2cm_h) 0))"
    by (elim exE conjE)
  have nack: "fst run2 = Inl EIO" if "i < length new2" "new2 ! i = Wait t (Completed st d)"
    "ucast st AND I2CM_NACK_RCVD_IRQ sample_i2cm_h \<noteq> 0" for i t st d
    using out2 [rule_format, OF that(1)] that(2,3) by simp
  from new2 tr2 have "new2 = [RegMod 0xe4 0x5 0x5, RegMod 0xe14 0xfe0 0xa00,
        RegWrite 0xe1c 0x77, RegMod 0xe14 0xff000 0, RegMod 0xe14 0x1e 0x2,
        Wait 25 (Completed 0x01 0), RegMod 0xe14 0x1e 0,
        RegWrite 0xe1c 0x78, RegMod 0xe14 0xff000 0x1000, RegMod 0xe14 0x1e 0x2,
        Wait 25 (Completed 0x04 0), RegWrite 0xe0c 0x01,
        RegMod 0xe4 0x5 0]"
    by (simp add: hdmi0_def)
  with nack [of 10 25 "0x04" 0] have r2: "fst run2 = Inl EIO"
    by (simp add: sample_i2cm_h_def)
  have "run0 = (Inr 2,
        [\<lparr>addr = 0x50, flags = 0, buf = [0x00]\<rparr>, \<lparr>addr = 0x50, flags = 1, buf = [0xab, 0xcd]\<rparr>],
        snd (snd run0))"
    using r0 ms0' by (metis prod.collapse)
  with hyps tr0 r1 ms1 tr1 r2 tr2 show ?thesis
    unfolding run0_def run1_def run2_def msgs_def by simp
qed

section \<open>The register address of a write\<close>

text \<open>
  Claim C9. The first byte of a write message is the slave register address when no
  register address has been set, and every batch starts with none set.

  \<^item> The write function, called with no register address set on a message \<open>b # bs\<close>,
    takes \<open>b\<close> as the register pointer: only bytes of \<open>bs\<close> reach the write data
    register (the first \<open>k\<close> of them, all of them on success), the first of them with
    the register address \<open>b\<close>, and the pointer ends at \<open>b + k\<close>. A message of the one
    byte \<open>b\<close> sets the pointer, writes no data and succeeds.
  \<^item> A transfer whose first message is a write of \<open>b # bs\<close> (to an address that is not
    refused, and not the one-byte message that sets the segment pointer), entered in any
    state \<open>sb\<close>, whatever an earlier batch has left in it: after the interrupt mask and
    the slave address, its first byte operation loads the data register with the head of
    \<open>bs\<close> and gives \<open>b\<close> as the register address. If the message is the one byte
    \<open>b\<close> and the whole batch, the transfer returns 1, the number of messages, with the
    pointer at \<open>b\<close>, having touched only the interrupt mask and the slave address.
  \<^item> In every transfer, entered in any state \<open>sc\<close>, the write data register is loaded
    with the first \<open>k\<close> bytes that the write messages hold as data, all of them on
    success: their buffers one after the other, less the first byte when the first
    message that is not a segment pointer is a write.

  The write data register is taken to be another register than the control register that
  takes the soft reset.
\<close>

theorem i2c_write_first_byte_is_register_address:
  assumes ne: "I2CM_INTERFACE_WRDATA_0_3 K \<noteq> I2CM_CONTROL0 K"
  shows "(\<not> is_regaddr (i2c s) \<and> dw_hdmi_qp_i2c_write K (b # bs) s = (ret, s') \<longrightarrow>
      (\<exists>new k. trace s' = trace s @ new \<and> k \<le> length bs
         \<and> [v. RegWrite r v \<leftarrow> new, r = I2CM_INTERFACE_WRDATA_0_3 K] = map ucast (take k bs)
         \<and> slave_reg (i2c s') = b + of_nat k
         \<and> is_regaddr (i2c s')
         \<and> (ret = Inr () \<longrightarrow> k = length bs)
         \<and> (bs = [] \<longrightarrow> ret = Inr () \<and> new = [])
         \<and> (bs \<noteq> [] \<longrightarrow> take 2 new =
              [RegWrite (I2CM_INTERFACE_WRDATA_0_3 K) (ucast (hd bs)),
               RegMod (I2CM_INTERFACE_CONTROL0 K) (I2CM_ADDR K) (push_bit 12 (ucast b))])))
   \<and> (buf m = b # bs \<and> \<not> (addr m = ucast DDC_SEGMENT_ADDR \<and> len m = 1)
        \<and> flags m AND I2C_M_RD K = 0
        \<and> (ucast (addr m) :: u8) \<noteq> DDC_CI_ADDR \<and> \<not> list_ex (\<lambda>m. len m = 0) (m # ms)
        \<and> dw_hdmi_qp_i2c_xfer K (m # ms) sb = (rb, msgsb, sb') \<longrightarrow>
      (\<exists>new. trace sb' = trace sb @ new
         \<and> (bs \<noteq> [] \<longrightarrow> take 4 new =
              [RegMod (MAINUNIT_1_INT_MASK_N K) (I2CM_NACK_RCVD_MASK_N K OR I2CM_OP_DONE_MASK_N K)
                 (I2CM_NACK_RCVD_MASK_N K OR I2CM_OP_DONE_MASK_N K),
               RegMod (I2CM_INTERFACE_CONTROL0 K) (I2CM_SLVADDR K)
                 (push_bit 5 (ucast (ucast (addr m) :: u8))),
               RegWrite (I2CM_INTERFACE_WRDATA_0_3 K) (ucast (hd bs)),
               RegMod (I2CM_INTERFACE_CONTROL0 K) (I2CM_ADDR K) (push_bit 12 (ucast b))])
         \<and> (bs = [] \<and> ms = [] \<longrightarrow> rb = Inr 1 \<and> msgsb = [m]
              \<and> slave_reg (i2c sb') = b \<and> is_regaddr (i2c sb')
              \<and> new =
              [RegMod (MAINUNIT_1_INT_MASK_N K) (I2CM_NACK_RCVD_MASK_N K OR I2CM_OP_DONE_MASK_N K)
                 (I2CM_NACK_RCVD_MASK_N K OR I2CM_OP_DONE_MASK_N K),
               RegMod (I2CM_INTERFACE_CONTROL0 K) (I2CM_SLVADDR K)
                 (push_bit 5 (ucast (if (ucast (addr m) :: u8) = DDC_SEGMENT_ADDR \<and> len m = 1
                                      then DDC_ADDR K else ucast (addr m)))),
               RegMod (MAINUNIT_1_INT_MASK_N K)
                 (I2CM_OP_DONE_MASK_N K OR I2CM_NACK_RCVD_MASK_N K) 0])))
   \<and> (dw_hdmi_qp_i2c_xfer K msgs sc = (rc, msgsc, sc') \<longrightarrow>
      (\<exists>new k. trace sc' = trace sc @ new
         \<and> (let ns = filter (\<lambda>m. \<not> (addr m = ucast DDC_SEGMENT_ADDR \<and> len m = 1)) msgs;
                 ws = filter (\<lambda>m. flags m AND I2C_M_RD K = 0) ns;
                 payload = (if ns \<noteq> [] \<and> flags (hd ns) AND I2C_M_RD K = 0
                            then tl (concat (map buf ws)) else concat (map buf ws))
             in k \<le> length payload
              \<and> [v. RegWrite r v \<leftarrow> new, r = I2CM_INTERFACE_WRDATA_0_3 K] =
                  map ucast (take k payload)
              \<and> (rc = Inr (length msgs) \<longrightarrow> k = length payload))))"
proof (intro conjI impI)
  assume "\<not> is_regaddr (i2c s) \<and> dw_hdmi_qp_i2c_write K (b # bs) s = (ret, s')"
  then have w: "\<not> is_regaddr (i2c s)" "dw_hdmi_qp_i2c_write K (b # bs) s = (ret, s')"
    by simp_all
  from ne have wd: "wr_distinct K" by (simp add: wr_distinct_def)
  from dw_hdmi_qp_i2c_write_first [OF w] wd
  show "\<exists>new k. trace s' = trace s @ new \<and> k \<le> length bs
         \<and> [v. RegWrite r v \<leftarrow> new, r = I2CM_INTERFACE_WRDATA_0_3 K] = map ucast (take k bs)
         \<and> slave_reg (i2c s') = b + of_nat k
         \<and> is_regaddr (i2c s')
         \<and> (ret = Inr () \<longrightarrow> k = length bs)
         \<and> (bs = [] \<longrightarrow> ret = Inr () \<and> new = [])
         \<and> (bs \<noteq> [] \<longrightarrow> take 2 new =
              [RegWrite (I2CM_INTERFACE_WRDATA_0_3 K) (ucast (hd bs)),
               RegMod (I2CM_INTERFACE_CONTROL0 K) (I2CM_ADDR K) (push_bit 12 (ucast b))])"
    unfolding wr_bytes_def by simp
next
  assume a: "buf m = b # bs \<and> \<not> (addr m = ucast DDC_SEGMENT_ADDR \<and> len m = 1)
        \<and> flags m AND I2C_M_RD K = 0
        \<and> (ucast (addr m) :: u8) \<noteq> DDC_CI_ADDR \<and> \<not> list_ex (\<lambda>m. len m = 0) (m # ms)
        \<and> dw_hdmi_qp_i2c_xfer K (m # ms) sb = (rb, msgsb, sb')"
  then have "buf m = b # bs" "\<not> (addr m = ucast DDC_SEGMENT_ADDR \<and> len m = 1)"
    "flags m AND I2C_M_RD K = 0" "(ucast (addr m) :: u8) \<noteq> DDC_CI_ADDR"
    "\<not> list_ex (\<lambda>m. len m = 0) (m # ms)"
    "dw_hdmi_qp_i2c_xfer K (m # ms) sb = (rb, msgsb, sb')"
    by blast+
  from dw_hdmi_qp_i2c_xfer_first_write [OF this]
  show "\<exists>new. trace sb' = trace sb @ new
         \<and> (bs \<noteq> [] \<longrightarrow> take 4 new =
              [RegMod (MAINUNIT_1_INT_MASK_N K) (I2CM_NACK_RCVD_MASK_N K OR I2CM_OP_DONE_MASK_N K)
                 (I2CM_NACK_RCVD_MASK_N K OR I2CM_OP_DONE_MASK_N K),
               RegMod (I2CM_INTERFACE_CONTROL0 K) (I2CM_SLVADDR K)
                 (push_bit 5 (ucast (ucast (addr m) :: u8))),
               RegWrite (I2CM_INTERFACE_WRDATA_0_3 K) (ucast (hd bs)),
               RegMod (I2CM_INTERFACE_CONTROL0 K) (I2CM_ADDR K) (push_bit 12 (ucast b))])
         \<and> (bs = [] \<and> ms = [] \<longrightarrow> rb = Inr 1 \<and> msgsb = [m]
              \<and> slave_reg (i2c sb') = b \<and> is_regaddr (i2c sb')
              \<and> new =
              [RegMod (MAINUNIT_1_INT_MASK_N K) (I2CM_NACK_RCVD_MASK_N K OR I2CM_OP_DONE_MASK_N K)
                 (I2CM_NACK_RCVD_MASK_N K OR I2CM_OP_DONE_MASK_N K),
               RegMod (I2CM_INTERFACE_CONTROL0 K) (I2CM_SLVADDR K)
                 (push_bit 5 (ucast (if (ucast (addr m) :: u8) = DDC_SEGMENT_ADDR \<and> len m = 1
                                      then DDC_ADDR K else ucast (addr m)))),
               RegMod (MAINUNIT_1_INT_MASK_N K)
                 (I2CM_OP_DONE_MASK_N K OR I2CM_NACK_RCVD_MASK_N K) 0])" .
next
  assume x: "dw_hdmi_qp_i2c_xfer K msgs sc = (rc, msgsc, sc')"
  from ne have wd: "wr_distinct K" by (simp add: wr_distinct_def)
  from dw_hdmi_qp_i2c_xfer_run [OF x] wd obtain new k where
    n: "trace sc' = trace sc @ new"
      "k \<le> length (wr_payload K False msgs)"
      "wr_bytes K new = map ucast (take k (wr_payload K False msgs))"
      "rc = Inr (length msgs) \<longrightarrow> k = length (wr_payload K False msgs)"
    by blast
  have "let ns = filter (\<lambda>m. \<not> (addr m = ucast DDC_SEGMENT_ADDR \<and> len m = 1)) msgs;
                 ws = filter (\<lambda>m. flags m AND I2C_M_RD K = 0) ns;
                 payload = (if ns \<noteq> [] \<and> flags (hd ns) AND I2C_M_RD K = 0
                            then tl (concat (map buf ws)) else concat (map buf ws))
             in k \<le> length payload
              \<and> [v. RegWrite r v \<leftarrow> new, r = I2CM_INTERFACE_WRDATA_0_3 K] =
                  map ucast (take k payload)
              \<and> (rc = Inr (length msgs) \<longrightarrow> k = length payload)"
    using n(2,3,4) unfolding wr_payload_def wr_bytes_def Let_def by simp
  with n(1) show "\<exists>new k. trace sc' = trace sc @ new
         \<and> (let ns = filter (\<lambda>m. \<not> (addr m = ucast DDC_SEGMENT_ADDR \<and> len m = 1)) msgs;
                 ws = filter (\<lambda>m. flags m AND I2C_M_RD K = 0) ns;
                 payload = (if ns \<noteq> [] \<and> flags (hd ns) AND I2C_M_RD K = 0
                            then tl (concat (map buf ws)) else concat (map buf ws))
             in k \<le> length payload
              \<and> [v. RegWrite r v \<leftarrow> new, r = I2CM_INTERFACE_WRDATA_0_3 K] =
                  map ucast (take k payload)
              \<and> (rc = Inr (length msgs) \<longrightarrow> k = length payload))"
    by (intro exI [of _ new] exI [of _ k] conjI)
qed

theorem i2c_write_first_byte_is_register_address_witness:
  "I2CM_INTERFACE_WRDATA_0_3 sample_i2cm_h \<noteq> I2CM_CONTROL0 sample_i2cm_h
   \<and> \<not> is_regaddr (i2c (hdmi0\<lparr>env := [Completed 0x01 0, Completed 0x01 0]\<rparr>))
   \<and> fst (dw_hdmi_qp_i2c_write sample_i2cm_h [0x10, 0xaa, 0xbb]
            (hdmi0\<lparr>env := [Completed 0x01 0, Completed 0x01 0]\<rparr>)) = Inr ()
   \<and> trace (snd (dw_hdmi_qp_i2c_write sample_i2cm_h [0x10, 0xaa, 0xbb]
            (hdmi0\<lparr>env := [Completed 0x01 0, Completed 0x01 0]\<rparr>))) =
       [RegWrite 0xe1c 0xaa, RegMod 0xe14 0xff000 0x10000, RegMod 0xe14 0x1e 0x2,
        Wait 25 (Completed 0x01 0), RegMod 0xe14 0x1e 0,
        RegWrite 0xe1c 0xbb, RegMod 0xe14 0xff000 0x11000, RegMod 0xe14 0x1e 0x2,
        Wait 25 (Completed 0x01 0), RegMod 0xe14 0x1e 0]
   \<and> slave_reg (i2c (snd (dw_hdmi_qp_i2c_write sample_i2cm_h [0x10, 0xaa, 0xbb]
            (hdmi0\<lparr>env := [Completed 0x01 0, Completed 0x01 0]\<rparr>)))) = 0x12
   \<and> is_regaddr (i2c (hdmi0\<lparr>i2c := (i2c hdmi0)\<lparr>slave_reg := 0x55, is_regaddr := True\<rparr>,
                               env := [Completed 0x01 0, Completed 0x01 0]\<rparr>))
   \<and> fst (dw_hdmi_qp_i2c_xfer sample_i2cm_h [\<lparr>addr = 0x50, flags = 0, buf = [0x10, 0xaa, 0xbb]\<rparr>]
            (hdmi0\<lparr>i2c := (i2c hdmi0)\<lparr>slave_reg := 0x55, is_regaddr := True\<rparr>,
                   env := [Completed 0x01 0, Completed 0x01 0]\<rparr>)) = Inr 1
   \<and> trace (snd (snd (dw_hdmi_qp_i2c_xfer sample_i2cm_h
            [\<lparr>addr = 0x50, flags = 0, buf = [0x10, 0xaa, 0xbb]\<rparr>]
            (hdmi0\<lparr>i2c := (i2c hdmi0)\<lparr>slave_reg := 0x55, is_regaddr := True\<rparr>,
                   env := [Completed 0x01 0, Completed 0x01 0]\<rparr>)))) =
       [RegMod 0xe4 0x5 0x5, RegMod 0xe14 0xfe0 0xa00,
        RegWrite 0xe1c 0xaa, RegMod 0xe14 0xff000 0x10000, RegMod 0xe14 0x1e 0x2,
        Wait 25 (Completed 0x01 0), RegMod 0xe14 0x1e 0,
        RegWrite 0xe1c 0xbb, RegMod 0xe14 0xff000 0x11000, RegMod 0xe14 0x1e 0x2,
        Wait 25 (Completed 0x01 0), RegMod 0xe14 0x1e 0,
        RegMod 0xe4 0x5 0]
   \<and> fst (dw_hdmi_qp_i2c_xfer sample_i2cm_h [\<lparr>addr = 0x50, flags = 0, buf = [0x10]\<rparr>]
            (hdmi0\<lparr>i2c := (i2c hdmi0)\<lparr>slave_reg := 0x55, is_regaddr := True\<rparr>\<rparr>)) = Inr 1
   \<and> slave_reg (i2c (snd (snd (dw_hdmi_qp_i2c_xfer sample_i2cm_h
            [\<lparr>addr = 0x50, flags = 0, buf = [0x10]\<rparr>]
            (hdmi0\<lparr>i2c := (i2c hdmi0)\<lparr>slave_reg := 0x55, is_regaddr := True\<rparr>\<rparr>))))) = 0x10
   \<and> trace (snd (snd (dw_hdmi_qp_i2c_xfer sample_i2cm_h
            [\<lparr>addr = 0x50, flags = 0, buf = [0x10]\<rparr>]
            (hdmi0\<lparr>i2c := (i2c hdmi0)\<lparr>slave_reg := 0x55, is_regaddr := True\<rparr>\<rparr>)))) =
       [RegMod 0xe4 0x5 0x5, RegMod 0xe14 0xfe0 0xa00, RegMod 0xe4 0x5 0]"
proof -
  define s1 where "s1 = hdmi0\<lparr>i2c := (i2c hdmi0)\<lparr>slave_reg := 0x55, is_regaddr := True\<rparr>\<rparr>"
  define m1 :: i2c_msg where "m1 = \<lparr>addr = 0x50, flags = 0, buf = [0x10]\<rparr>"
  define run1 where "run1 = dw_hdmi_qp_i2c_xfer sample_i2cm_h [m1] s1"
  have ne: "I2CM_INTERFACE_WRDATA_0_3 sample_i2cm_h \<noteq> I2CM_CONTROL0 sample_i2cm_h"
    by (simp add: sample_i2cm_h_def)
  note inst = i2c_write_first_byte_is_register_address [OF ne,
      where m = m1 and b = "0x10" and bs = "[]" and ms = "[]" and sb = s1
        and rb = "fst run1" and msgsb = "fst (snd run1)" and sb' = "snd (snd run1)"]
  have m1: "buf m1 = [0x10] \<and> \<not> (addr m1 = ucast DDC_SEGMENT_ADDR \<and> len m1 = 1)
        \<and> flags m1 AND I2C_M_RD sample_i2cm_h = 0
        \<and> (ucast (addr m1) :: u8) \<noteq> DDC_CI_ADDR \<and> \<not> list_ex (\<lambda>m. len m = 0) [m1]
        \<and> dw_hdmi_qp_i2c_xfer sample_i2cm_h [m1] s1 = (fst run1, fst (snd run1), snd (snd run1))"
    by (simp add: m1_def DDC_SEGMENT_ADDR_def DDC_CI_ADDR_def len_def run1_def)
  from inst [THEN conjunct2, THEN conjunct1, rule_format, OF m1]
  have one: "fst run1 = Inr 1" "slave_reg (i2c (snd (snd run1))) = 0x10"
    "trace (snd (snd run1)) = [RegMod 0xe4 0x5 0x5, RegMod 0xe14 0xfe0 0xa00, RegMod 0xe4 0x5 0]"
    by (auto simp: s1_def hdmi0_def m1_def sample_i2cm_h_def DDC_SEGMENT_ADDR_def len_def)
  have rest: "\<not> is_regaddr (i2c (hdmi0\<lparr>env := [Completed 0x01 0, Completed 0x01 0]\<rparr>))
   \<and> fst (dw_hdmi_qp_i2c_write sample_i2cm_h [0x10, 0xaa, 0xbb]
            (hdmi0\<lparr>env := [Completed 0x01 0, Completed 0x01 0]\<rparr>)) = Inr ()
   \<and> trace (snd (dw_hdmi_qp_i2c_write sample_i2cm_h [0x10, 0xaa, 0xbb]
            (hdmi0\<lparr>env := [Completed 0x01 0, Completed 0x01 0]\<rparr>))) =
       [RegWrite 0xe1c 0xaa, RegMod 0xe14 0xff000 0x10000, RegMod 0xe14 0x1e 0x2,
        Wait 25 (Completed 0x01 0), RegMod 0xe14 0x1e 0,
        RegWrite 0xe1c 0xbb, RegMod 0xe14 0xff000 0x11000, RegMod 0xe14 0x1e 0x2,
        Wait 25 (Completed 0x01 0), RegMod 0xe14 0x1e 0]
   \<and> slave_reg (i2c (snd (dw_hdmi_qp_i2c_write sample_i2cm_h [0x10, 0xaa, 0xbb]
            (hdmi0\<lparr>env := [Completed 0x01 0, Completed 0x01 0]\<rparr>)))) = 0x12
   \<and> is_regaddr (i2c (hdmi0\<lparr>i2c := (i2c hdmi0)\<lparr>slave_reg := 0x55, is_regaddr := True\<rparr>,
                               env := [Completed 0x01 0, Completed 0x01 0]\<rparr>))
   \<and> fst (dw_hdmi_qp_i2c_xfer sample_i2cm_h [\<lparr>addr = 0x50, flags = 0, buf = [0x10, 0xaa, 0xbb]\<rparr>]
            (hdmi0\<lparr>i2c := (i2c hdmi0)\<lparr>slave_reg := 0x55, is_regaddr := True\<rparr>,
                   env := [Completed 0x01 0, Completed 0x01 0]\<rparr>)) = Inr 1
   \<and> trace (snd (snd (dw_hdmi_qp_i2c_xfer sample_i2cm_h
            [\<lparr>addr = 0x50, flags = 0, buf = [0x10, 0xaa, 0xbb]\<rparr>]
            (hdmi0\<lparr>i2c := (i2c hdmi0)\<lparr>slave_reg := 0x55, is_regaddr := True\<rparr>,
                   env := [Completed 0x01 0, Completed 0x01 0]\<rparr>)))) =
       [RegMod 0xe4 0x5 0x5, RegMod 0xe14 0xfe0 0xa00,
        RegWrite 0xe1c 0xaa, RegMod 0xe14 0xff000 0x10000, RegMod 0xe14 0x1e 0x2,
        Wait 25 (Completed 0x01 0), RegMod 0xe14 0x1e 0,
        RegWrite 0xe1c 0xbb, RegMod 0xe14 0xff000 0x11000, RegMod 0xe14 0x1e 0x2,
        Wait 25 (Completed 0x01 0), RegMod 0xe14 0x1e 0,
        RegMod 0xe4 0x5 0]"
    by (simp add: model_defs)
  from ne one rest show ?thesis
    unfolding run1_def s1_def m1_def by simp
qed

end
